(* ===== verification/Prelude.thy ===== *)
theory Prelude
  imports Complex_Main
begin

text \<open>
  Shared vocabulary of the development: Python strings as lists of code points, results that are
  either a raised exception or a value, the collections of rewrite rules, and the generic lemmas
  on lists and maps that several components use.
\<close>

section \<open>Strings\<close>

text \<open>
  A Python \<open>str\<close> is a sequence of Unicode code points (lone surrogates included), so it is a
  list of numbers here and not a list of bytes. \<open>S ''abc''\<close> is the literal \<open>"abc"\<close>.
\<close>

type_synonym pystr = "nat list"

type_synonym bytes = "nat list"

definition S :: "string \<Rightarrow> pystr" where
  "S s = map of_char s"

lemma S_inject [simp]: "S a = S b \<longleftrightarrow> a = b"
  unfolding S_def by (rule inj_map_eq_map) (auto intro: injI)

lemma S_Nil [simp]: "S [] = []"
  by (simp add: S_def)

lemma S_eq_Nil [simp]: "S a = [] \<longleftrightarrow> a = []"
  by (simp add: S_def)

lemma length_S [simp]: "length (S a) = length a"
  by (simp add: S_def)

lemma set_S_less: "c \<in> set (S a) \<Longrightarrow> c < 256"
  by (auto simp: S_def)

section \<open>Results\<close>

text \<open>
  A call that may raise returns \<open>Inl e\<close> for the exception and \<open>Inr v\<close> for the value.
  \<open>bind_res\<close> is sequencing: the first exception wins.
\<close>

definition bind_res :: "'e + 'a \<Rightarrow> ('a \<Rightarrow> 'e + 'b) \<Rightarrow> 'e + 'b" where
  "bind_res r f = (case r of Inl e \<Rightarrow> Inl e | Inr x \<Rightarrow> f x)"

lemma bind_res_simps [simp]:
  "bind_res (Inl e) f = Inl e"
  "bind_res (Inr x) f = f x"
  by (simp_all add: bind_res_def)

lemma bind_res_eq_Inr: "bind_res r f = Inr y \<longleftrightarrow> (\<exists>x. r = Inr x \<and> f x = Inr y)"
  by (cases r) auto

lemma bind_res_eq_Inl:
  "bind_res r f = Inl e \<longleftrightarrow> r = Inl e \<or> (\<exists>x. r = Inr x \<and> f x = Inl e)"
  by (cases r) auto

lemma bind_res_assoc: "bind_res (bind_res r f) g = bind_res r (\<lambda>x. bind_res (f x) g)"
  by (cases r) auto

definition is_ok :: "'e + 'a \<Rightarrow> bool" where
  "is_ok r = (case r of Inl _ \<Rightarrow> False | Inr _ \<Rightarrow> True)"

lemma is_ok_simps [simp]: "is_ok (Inr x)" "\<not> is_ok (Inl e)"
  by (simp_all add: is_ok_def)

lemma is_ok_iff: "is_ok r \<longleftrightarrow> (\<exists>x. r = Inr x)"
  by (cases r) auto

text \<open>\<open>x if x is not None else d\<close>, and \<open>x or d\<close> where the falsy case is treated like \<open>None\<close>.\<close>

definition or_else :: "'a option \<Rightarrow> 'a \<Rightarrow> 'a" where
  "or_else v d = (case v of None \<Rightarrow> d | Some x \<Rightarrow> x)"

lemma or_else_simps [simp]: "or_else None d = d" "or_else (Some x) d = x"
  by (simp_all add: or_else_def)

section \<open>Collections of rewrite rules\<close>

named_theorems pystr_eval \<open>rules that evaluate string literals to code points\<close>
named_theorems json_rules \<open>rewriting of decoded JSON values\<close>
named_theorems store_rules \<open>the views a store operation leaves\<close>

lemma S_Cons [pystr_eval]: "S (c # cs) = of_char c # S cs"
  by (simp add: S_def)

lemma S_append [simp]: "S (a @ b) = S a @ S b"
  by (simp add: S_def)

section \<open>Lists\<close>

lemma list_all_takeWhile: "list_all P (takeWhile P xs)"
  by (induction xs) auto

lemma takeWhile_append_stop:
  "list_all P xs \<Longrightarrow> ys = [] \<or> \<not> P (hd ys) \<Longrightarrow> takeWhile P (xs @ ys) = xs"
  by (induction xs) (auto, cases ys, auto)

lemma dropWhile_append_stop:
  "list_all P xs \<Longrightarrow> ys = [] \<or> \<not> P (hd ys) \<Longrightarrow> dropWhile P (xs @ ys) = ys"
  by (induction xs) (auto, cases ys, auto)

lemma two_members:
  assumes "x \<in> set xs" and "y \<in> set xs" and "x \<noteq> y"
  shows "\<exists>a p m q b. xs = a @ p # m @ q # b \<and> (p = x \<and> q = y \<or> p = y \<and> q = x)"
proof -
  from assms(1) obtain a b where xs: "xs = a @ x # b" by (auto simp: in_set_conv_decomp)
  with assms(2,3) have "y \<in> set a \<or> y \<in> set b" by auto
  then show ?thesis
  proof
    assume "y \<in> set a"
    then obtain c d where "a = c @ y # d" by (auto simp: in_set_conv_decomp)
    with xs have "xs = c @ y # d @ x # b" by simp
    then show ?thesis by blast
  next
    assume "y \<in> set b"
    then obtain c d where "b = c @ y # d" by (auto simp: in_set_conv_decomp)
    with xs have "xs = a @ x # c @ y # d" by simp
    then show ?thesis by blast
  qed
qed

end
