(* ===== verification/Exceptions.thy ===== *)
theory Exceptions
  imports Prelude
begin

text \<open>
  The exception hierarchy of \<open>src/dbsc/exceptions.py\<close>, with the built-in classes the program
  meets (\<open>ValueError\<close> from its own validation, \<open>UnicodeEncodeError\<close> from \<open>str.encode()\<close>, and in the
  example server \<open>RecursionError\<close> from \<open>json.loads\<close>, \<open>KeyError\<close> from \<open>del\<close>, and \<open>TimeoutError\<close>,
  \<open>IncompleteReadError\<close> and the \<open>ConnectionError\<close> family from a connection).
  An exception is a class with its message; \<open>mro\<close> lists a class and its bases, and an
  \<open>except\<close> clause for a class catches exactly the exceptions whose class has it in its \<open>mro\<close>.
\<close>

datatype exn_class =
    DbscError
  | RetryableRefreshError
  | JwtInvalidError
  | ChallengeExpiredError
  | ChallengeMismatchError
  | MissingChallengeError
  | SessionNotFoundError
  | CorruptStateError
  | ValueError
  | UnicodeEncodeError
  | RecursionError
  | KeyError
  | TimeoutError
  | IncompleteReadError
  | ConnectionError
  | ConnectionResetError

datatype exn = Exn (exn_cls: exn_class) (exn_msg: pystr)

type_synonym 'a result = "exn + 'a"

fun mro :: "exn_class \<Rightarrow> exn_class list" where
  "mro DbscError = [DbscError]"
| "mro RetryableRefreshError = [RetryableRefreshError, DbscError]"
| "mro JwtInvalidError = [JwtInvalidError, DbscError]"
| "mro ChallengeExpiredError = [ChallengeExpiredError, RetryableRefreshError, DbscError]"
| "mro ChallengeMismatchError = [ChallengeMismatchError, RetryableRefreshError, DbscError]"
| "mro MissingChallengeError = [MissingChallengeError, RetryableRefreshError, DbscError]"
| "mro SessionNotFoundError = [SessionNotFoundError, DbscError]"
| "mro CorruptStateError = [CorruptStateError, DbscError]"
| "mro ValueError = [ValueError]"
| "mro UnicodeEncodeError = [UnicodeEncodeError, ValueError]"
| "mro RecursionError = [RecursionError]"
| "mro KeyError = [KeyError]"
| "mro TimeoutError = [TimeoutError]"
| "mro IncompleteReadError = [IncompleteReadError]"
| "mro ConnectionError = [ConnectionError]"
| "mro ConnectionResetError = [ConnectionResetError, ConnectionError]"

definition isinstance :: "exn \<Rightarrow> exn_class \<Rightarrow> bool" where
  "isinstance e c \<longleftrightarrow> c \<in> set (mro (exn_cls e))"

lemma isinstance_Exn [simp]: "isinstance (Exn c m) d \<longleftrightarrow> d \<in> set (mro c)"
  by (simp add: isinstance_def)

text \<open>
  Every retryable error is also a \<open>DbscError\<close>, which is why the clause for the retryable family
  must come first in a handler.
\<close>

lemma retryable_is_dbsc: "isinstance e RetryableRefreshError \<Longrightarrow> isinstance e DbscError"
  by (cases e; rename_tac c m; case_tac c) auto

text \<open>The failures after which the caller must end the session.\<close>

definition terminal :: "exn \<Rightarrow> bool" where
  "terminal e \<longleftrightarrow> isinstance e DbscError \<and> \<not> isinstance e RetryableRefreshError"

lemma terminal_classes:
  "terminal e \<longleftrightarrow>
     exn_cls e \<in> {DbscError, JwtInvalidError, SessionNotFoundError, CorruptStateError}"
  by (cases e; rename_tac c m; case_tac c) (auto simp: terminal_def)

end
