(* ===== verification/PyText.thy ===== *)
theory PyText
  imports Exceptions
begin

text \<open>
  What the program uses of Python's \<open>str\<close>, \<open>int\<close> and \<open>bytes\<close>: splitting, stripping, lower-casing
  of HTTP header names, UTF-8 encoding with its failure on lone surrogates, decimal and
  hexadecimal rendering, and \<open>int()\<close> of a clock reading.
\<close>

section \<open>Splitting, stripping and lower-casing\<close>

text \<open>\<open>s.split(sep)\<close> for a one-character separator: always at least one part.\<close>

fun py_split :: "nat \<Rightarrow> pystr \<Rightarrow> pystr list" where
  "py_split d [] = [[]]"
| "py_split d (c # cs) =
     (if c = d then [] # py_split d cs
      else (case py_split d cs of [] \<Rightarrow> [[c]] | p # ps \<Rightarrow> (c # p) # ps))"

fun py_join :: "nat \<Rightarrow> pystr list \<Rightarrow> pystr" where
  "py_join d [] = []"
| "py_join d [p] = p"
| "py_join d (p # q # ps) = p @ d # py_join d (q # ps)"

lemma py_split_not_Nil [simp]: "py_split d s \<noteq> []"
  by (induction s) (auto split: list.splits)

lemma py_join_split: "py_join d (py_split d s) = s"
proof (induction s)
  case (Cons c cs)
  then show ?case
    by (cases "py_split d cs"; cases "tl (py_split d cs)") (auto simp: neq_Nil_conv)
qed simp

lemma py_split_parts: "p \<in> set (py_split d s) \<Longrightarrow> d \<notin> set p"
  by (induction s arbitrary: p) (auto split: list.splits if_splits)

lemma py_split_no_sep: "d \<notin> set s \<Longrightarrow> py_split d s = [s]"
  by (induction s) auto

lemma py_split_append_sep: "d \<notin> set p \<Longrightarrow> py_split d (p @ d # s) = p # py_split d s"
  by (induction p) auto

text \<open>\<open>str.strip()\<close> removes the characters for which \<open>str.isspace()\<close> holds.\<close>

definition py_isspace :: "nat \<Rightarrow> bool" where
  "py_isspace c \<longleftrightarrow>
     (9 \<le> c \<and> c \<le> 13) \<or> (28 \<le> c \<and> c \<le> 32) \<or> c = 133 \<or> c = 160 \<or> c = 5760 \<or>
     (8192 \<le> c \<and> c \<le> 8202) \<or> c = 8232 \<or> c = 8233 \<or> c = 8239 \<or> c = 8287 \<or> c = 12288"

definition strip_by :: "(nat \<Rightarrow> bool) \<Rightarrow> pystr \<Rightarrow> pystr" where
  "strip_by P s = rev (dropWhile P (rev (dropWhile P s)))"

definition py_strip :: "pystr \<Rightarrow> pystr" where
  "py_strip s = strip_by py_isspace s"

lemma set_strip_by: "set (strip_by P s) \<subseteq> set s"
  unfolding strip_by_def by (auto dest!: set_dropWhileD)

lemma strip_by_id: "list_all (\<lambda>c. \<not> P c) s \<Longrightarrow> strip_by P s = s"
proof -
  assume a: "list_all (\<lambda>c. \<not> P c) s"
  have d: "dropWhile P t = t" if "list_all (\<lambda>c. \<not> P c) t" for t
    using that by (cases t) auto
  show ?thesis
    using a d [of s] d [of "rev s"] by (simp add: strip_by_def)
qed

text \<open>
  \<open>str.lower()\<close>, exact on Latin-1 text, which covers every HTTP header name (names arrive decoded
  from bytes as Latin-1); code points beyond it are left alone.
\<close>

definition lower_char :: "nat \<Rightarrow> nat" where
  "lower_char c =
     (if (65 \<le> c \<and> c \<le> 90) \<or> (192 \<le> c \<and> c \<le> 222 \<and> c \<noteq> 215) then c + 32 else c)"

definition py_lower :: "pystr \<Rightarrow> pystr" where
  "py_lower s = map lower_char s"

lemma lower_char_idem [simp]: "lower_char (lower_char c) = lower_char c"
  by (auto simp: lower_char_def)

lemma py_lower_idem [simp]: "py_lower (py_lower s) = py_lower s"
  by (simp add: py_lower_def)

section \<open>Encoding\<close>

definition is_surrogate :: "nat \<Rightarrow> bool" where
  "is_surrogate c \<longleftrightarrow> 55296 \<le> c \<and> c \<le> 57343"

definition high_surrogate :: "nat \<Rightarrow> bool" where
  "high_surrogate c \<longleftrightarrow> 55296 \<le> c \<and> c \<le> 56319"

definition low_surrogate :: "nat \<Rightarrow> bool" where
  "low_surrogate c \<longleftrightarrow> 56320 \<le> c \<and> c \<le> 57343"

definition utf8_char :: "nat \<Rightarrow> bytes" where
  "utf8_char c =
     (if c < 128 then [c]
      else if c < 2048 then [192 + c div 64, 128 + c mod 64]
      else if c < 65536 then [224 + c div 4096, 128 + c div 64 mod 64, 128 + c mod 64]
      else [240 + c div 262144, 128 + c div 4096 mod 64, 128 + c div 64 mod 64, 128 + c mod 64])"

definition utf8 :: "pystr \<Rightarrow> bytes" where
  "utf8 s = concat (map utf8_char s)"

text \<open>\<open>s.encode()\<close>: a lone surrogate has no UTF-8 form and raises \<open>UnicodeEncodeError\<close>.\<close>

definition py_encode :: "pystr \<Rightarrow> bytes result" where
  "py_encode s =
     (if list_ex is_surrogate s then Inl (Exn UnicodeEncodeError (S ''surrogates not allowed''))
      else Inr (utf8 s))"

lemma utf8_Nil [simp]: "utf8 [] = []"
  by (simp add: utf8_def)

lemma utf8_Cons: "utf8 (c # cs) = utf8_char c @ utf8 cs"
  by (simp add: utf8_def)

lemma utf8_char_not_Nil [simp]: "utf8_char c \<noteq> []"
  by (simp add: utf8_char_def)

lemma div_mod_eq:
  fixes c d m :: nat
  assumes "c div m = d div m" "c mod m = d mod m"
  shows "c = d"
  using assms div_mult_mod_eq by metis

lemma div64_split: "c div 4096 = (c div 64) div 64" "c div 262144 = (c div 64) div 64 div 64" for c :: nat
  by (simp_all add: div_mult2_eq [symmetric])

text \<open>No encoded character is a proper prefix of another: the first byte fixes the length.\<close>

lemma utf8_char_prefix_free:
  assumes "utf8_char c @ xs = utf8_char d @ ys"
  shows "c = d \<and> xs = ys"
proof -
  have bounds: "c < 128 \<or> (128 \<le> c \<and> c < 2048) \<or> (2048 \<le> c \<and> c < 65536) \<or> 65536 \<le> c"
    "d < 128 \<or> (128 \<le> d \<and> d < 2048) \<or> (2048 \<le> d \<and> d < 65536) \<or> 65536 \<le> d"
    by linarith+
  have lead: "x < 2048 \<Longrightarrow> x div 64 < 32" "x < 65536 \<Longrightarrow> x div 4096 < 16" for x :: nat
    by (simp_all add: less_mult_imp_div_less)
  show ?thesis
    using assms bounds lead [of c] lead [of d]
    by (auto simp: utf8_char_def div64_split dest!: div_mod_eq [of c 64 d] div_mod_eq [of "c div 64" 64 "d div 64"]
        div_mod_eq [of "c div 64 div 64" 64 "d div 64 div 64"])
qed

lemma utf8_inject: "utf8 s = utf8 t \<longleftrightarrow> s = t"
proof
  assume "utf8 s = utf8 t"
  then show "s = t"
  proof (induction s arbitrary: t)
    case Nil
    then show ?case by (cases t) (auto simp: utf8_Cons)
  next
    case (Cons c cs)
    then obtain d ds where t: "t = d # ds"
      by (cases t) (auto simp: utf8_Cons)
    with Cons.prems have "c = d \<and> utf8 cs = utf8 ds"
      by (auto simp: utf8_Cons dest: utf8_char_prefix_free)
    with Cons.IH t show ?case by auto
  qed
qed simp

section \<open>Numbers as text\<close>

fun dec_digits :: "nat \<Rightarrow> pystr" where
  "dec_digits n = (if n < 10 then [48 + n] else dec_digits (n div 10) @ [48 + n mod 10])"

declare dec_digits.simps [simp del]

definition py_int_str :: "int \<Rightarrow> pystr" where
  "py_int_str i = (if i < 0 then 45 # dec_digits (nat (- i)) else dec_digits (nat i))"

definition is_digit :: "nat \<Rightarrow> bool" where
  "is_digit c \<longleftrightarrow> 48 \<le> c \<and> c \<le> 57"

definition dec_value :: "pystr \<Rightarrow> nat" where
  "dec_value s = foldl (\<lambda>n c. 10 * n + (c - 48)) 0 s"

lemma dec_digits_digits: "list_all is_digit (dec_digits n)"
proof (induction n rule: dec_digits.induct)
  case (1 n)
  show ?case
  proof (cases "n < 10")
    case True
    then show ?thesis by (subst dec_digits.simps) (simp add: is_digit_def)
  next
    case False
    with 1 have "list_all is_digit (dec_digits (n div 10))" by simp
    moreover have "is_digit (48 + n mod 10)" by (simp add: is_digit_def)
    ultimately show ?thesis using False by (subst dec_digits.simps) simp
  qed
qed

lemma dec_digits_not_Nil [simp]: "dec_digits n \<noteq> []"
  by (subst dec_digits.simps) simp

lemma dec_value_snoc: "dec_value (s @ [c]) = 10 * dec_value s + (c - 48)"
  by (simp add: dec_value_def)

lemma dec_value_digits: "dec_value (dec_digits n) = n"
proof (induction n rule: dec_digits.induct)
  case (1 n)
  show ?case
  proof (cases "n < 10")
    case True
    then show ?thesis by (subst dec_digits.simps) (simp add: dec_value_def)
  next
    case False
    with 1 show ?thesis by (subst dec_digits.simps) (simp add: dec_value_snoc)
  qed
qed

text \<open>No leading zero, except the number zero itself.\<close>

lemma dec_digits_hd: "hd (dec_digits n) = 48 \<longleftrightarrow> n = 0"
proof (induction n rule: dec_digits.induct)
  case (1 n)
  show ?case
  proof (cases "n < 10")
    case True
    then show ?thesis by (subst dec_digits.simps) simp
  next
    case False
    with 1 show ?thesis by (subst dec_digits.simps) simp
  qed
qed

lemma dec_digits_0 [simp]: "dec_digits 0 = [48]"
  by (subst dec_digits.simps) simp

definition hex_digit :: "nat \<Rightarrow> nat" where
  "hex_digit d = (if d < 10 then 48 + d else 87 + d)"

text \<open>\<open>binascii.hexlify\<close>: two lower-case digits per byte.\<close>

definition hexlify :: "bytes \<Rightarrow> pystr" where
  "hexlify bs = concat (map (\<lambda>b. [hex_digit (b div 16 mod 16), hex_digit (b mod 16)]) bs)"

definition is_hex_lower :: "nat \<Rightarrow> bool" where
  "is_hex_lower c \<longleftrightarrow> is_digit c \<or> (97 \<le> c \<and> c \<le> 102)"

lemma hex_digit_hex: "d < 16 \<Longrightarrow> is_hex_lower (hex_digit d)"
  by (auto simp: hex_digit_def is_hex_lower_def is_digit_def)

lemma hexlify_hex: "list_all is_hex_lower (hexlify bs)"
  by (induction bs) (auto simp: hexlify_def hex_digit_hex)

lemma length_hexlify [simp]: "length (hexlify bs) = 2 * length bs"
  by (induction bs) (auto simp: hexlify_def)

text \<open>\<open>int(x)\<close> of a clock reading truncates towards zero.\<close>

definition py_int :: "rat \<Rightarrow> int" where
  "py_int x = (if 0 \<le> x then \<lfloor>x\<rfloor> else \<lceil>x\<rceil>)"

lemma py_int_of_int [simp]: "py_int (of_int i) = i"
  by (simp add: py_int_def)

lemma py_int_numeral [simp]: "py_int (numeral n) = numeral n"
  by (simp add: py_int_def)

lemma py_int_mono: "x \<le> y \<Longrightarrow> py_int x \<le> py_int y"
proof -
  assume xy: "x \<le> y"
  consider "0 \<le> x" | "x < 0" "0 \<le> y" | "y < 0" using xy by linarith
  then show ?thesis
  proof cases
    case 1
    with xy show ?thesis by (simp add: py_int_def floor_mono)
  next
    case 2
    then have "\<lceil>x\<rceil> \<le> 0" "0 \<le> \<lfloor>y\<rfloor>" by auto
    then have "\<lceil>x\<rceil> \<le> \<lfloor>y\<rfloor>" by linarith
    with 2 show ?thesis by (simp add: py_int_def)
  next
    case 3
    with xy show ?thesis by (simp add: py_int_def ceiling_mono)
  qed
qed

lemma py_int_le: "x \<le> of_int i \<Longrightarrow> py_int x \<le> i"
  using py_int_mono [of x "of_int i"] by simp

end
