(* ===== verification/Regex.thy ===== *)
theory Regex
  imports PyText
begin

text \<open>
  The regular expressions of Python's \<open>re\<close> module that the validators use: character classes,
  sequence, alternative, repetition and a negative lookahead for one character. \<open>re_fullmatch\<close>
  decides membership by derivatives and is proved to agree with the language of the expression.
\<close>

section \<open>Expressions and their languages\<close>

datatype rx =
    RNone
  | REps
  | RCls "nat \<Rightarrow> bool"
  | RAlt rx rx
  | RSeq rx rx
  | RStar rx
  | RNotAhead "nat \<Rightarrow> bool" rx

primrec rx_lang :: "rx \<Rightarrow> pystr set" where
  "rx_lang RNone = {}"
| "rx_lang REps = {[]}"
| "rx_lang (RCls P) = {[c] | c. P c}"
| "rx_lang (RAlt r s) = rx_lang r \<union> rx_lang s"
| "rx_lang (RSeq r s) = {u @ v | u v. u \<in> rx_lang r \<and> v \<in> rx_lang s}"
| "rx_lang (RStar r) = {concat us | us. set us \<subseteq> rx_lang r}"
| "rx_lang (RNotAhead P r) = {u \<in> rx_lang r. u = [] \<or> \<not> P (hd u)}"

primrec rx_nullable :: "rx \<Rightarrow> bool" where
  "rx_nullable RNone = False"
| "rx_nullable REps = True"
| "rx_nullable (RCls P) = False"
| "rx_nullable (RAlt r s) = (rx_nullable r \<or> rx_nullable s)"
| "rx_nullable (RSeq r s) = (rx_nullable r \<and> rx_nullable s)"
| "rx_nullable (RStar r) = True"
| "rx_nullable (RNotAhead P r) = rx_nullable r"

text \<open>Derivatives are built with constructors that drop dead branches, so they stay small.\<close>

definition mk_alt :: "rx \<Rightarrow> rx \<Rightarrow> rx" where
  "mk_alt r s = (case r of RNone \<Rightarrow> s | _ \<Rightarrow> (case s of RNone \<Rightarrow> r | _ \<Rightarrow> RAlt r s))"

definition mk_seq :: "rx \<Rightarrow> rx \<Rightarrow> rx" where
  "mk_seq r s = (case r of RNone \<Rightarrow> RNone | REps \<Rightarrow> s | _ \<Rightarrow> RSeq r s)"

primrec rx_deriv :: "nat \<Rightarrow> rx \<Rightarrow> rx" where
  "rx_deriv c RNone = RNone"
| "rx_deriv c REps = RNone"
| "rx_deriv c (RCls P) = (if P c then REps else RNone)"
| "rx_deriv c (RAlt r s) = mk_alt (rx_deriv c r) (rx_deriv c s)"
| "rx_deriv c (RSeq r s) =
     (if rx_nullable r then mk_alt (mk_seq (rx_deriv c r) s) (rx_deriv c s)
      else mk_seq (rx_deriv c r) s)"
| "rx_deriv c (RStar r) = mk_seq (rx_deriv c r) (RStar r)"
| "rx_deriv c (RNotAhead P r) = (if P c then RNone else rx_deriv c r)"

primrec re_fullmatch :: "rx \<Rightarrow> pystr \<Rightarrow> bool" where
  "re_fullmatch r [] = rx_nullable r"
| "re_fullmatch r (c # cs) = re_fullmatch (rx_deriv c r) cs" for r

section \<open>The matcher decides the language\<close>

lemma lang_mk_alt [simp]: "rx_lang (mk_alt r s) = rx_lang r \<union> rx_lang s"
  by (auto simp: mk_alt_def split: rx.splits)

lemma lang_mk_seq [simp]: "rx_lang (mk_seq r s) = rx_lang (RSeq r s)"
  by (auto simp: mk_seq_def split: rx.splits)

lemma rx_nullable_iff: "rx_nullable r \<longleftrightarrow> [] \<in> rx_lang r"
proof (induction r)
  case (RStar r)
  have "\<exists>us. [] = concat us \<and> set us \<subseteq> rx_lang r"
    by (rule exI [of _ "[]"]) simp
  then show ?case by simp
qed auto

lemma Cons_in_star:
  assumes "c # s = concat us" and "set us \<subseteq> A"
  shows "\<exists>u us. s = u @ concat us \<and> c # u \<in> A \<and> set us \<subseteq> A"
  using assms
proof (induction us)
  case (Cons w us)
  then show ?case by (cases w) auto
qed simp

lemma seq_star_iff:
  "s \<in> rx_lang (mk_seq q (RStar r)) \<longleftrightarrow>
     (\<exists>u us. s = u @ concat us \<and> u \<in> rx_lang q \<and> set us \<subseteq> rx_lang r)"
  unfolding lang_mk_seq rx_lang.simps mem_Collect_eq by blast

lemma rx_deriv_lang: "s \<in> rx_lang (rx_deriv c r) \<longleftrightarrow> c # s \<in> rx_lang r"
proof (induction r arbitrary: s)
  case (RSeq r1 r2)
  show ?case
    by (auto simp: RSeq.IH rx_nullable_iff Cons_eq_append_conv)
next
  case (RStar r)
  have "s \<in> rx_lang (rx_deriv c (RStar r)) \<longleftrightarrow>
      (\<exists>u us. s = u @ concat us \<and> c # u \<in> rx_lang r \<and> set us \<subseteq> rx_lang r)"
    by (simp only: rx_deriv.simps seq_star_iff RStar.IH)
  also have "\<dots> \<longleftrightarrow> (\<exists>us. c # s = concat us \<and> set us \<subseteq> rx_lang r)"
  proof
    assume "\<exists>u us. s = u @ concat us \<and> c # u \<in> rx_lang r \<and> set us \<subseteq> rx_lang r"
    then obtain u us where "c # s = concat ((c # u) # us) \<and> set ((c # u) # us) \<subseteq> rx_lang r"
      by auto
    then show "\<exists>us. c # s = concat us \<and> set us \<subseteq> rx_lang r" by blast
  next
    assume "\<exists>us. c # s = concat us \<and> set us \<subseteq> rx_lang r"
    then obtain us where "c # s = concat us" "set us \<subseteq> rx_lang r" by blast
    then show "\<exists>u us. s = u @ concat us \<and> c # u \<in> rx_lang r \<and> set us \<subseteq> rx_lang r"
      by (rule Cons_in_star)
  qed
  finally show ?case by simp
next
  case (RCls P)
  show ?case by simp
next
  case (RAlt r1 r2)
  then show ?case by simp
next
  case (RNotAhead P r)
  then show ?case by simp
qed auto

lemma re_fullmatch_iff: "re_fullmatch r s \<longleftrightarrow> s \<in> rx_lang r"
  by (induction s arbitrary: r) (simp_all add: rx_nullable_iff rx_deriv_lang)

section \<open>Derived forms\<close>

definition r_opt :: "rx \<Rightarrow> rx" where
  "r_opt r = RAlt r REps"

definition r_plus :: "rx \<Rightarrow> rx" where
  "r_plus r = RSeq r (RStar r)"

primrec r_lit :: "pystr \<Rightarrow> rx" where
  "r_lit [] = REps"
| "r_lit (c # cs) = RSeq (RCls (\<lambda>d. d = c)) (r_lit cs)"

text \<open>\<open>r{0,n}\<close>\<close>

primrec r_upto :: "nat \<Rightarrow> rx \<Rightarrow> rx" where
  "r_upto 0 r = REps"
| "r_upto (Suc n) r = r_opt (RSeq r (r_upto n r))"

lemma lang_r_opt [simp]: "rx_lang (r_opt r) = insert [] (rx_lang r)"
  by (auto simp: r_opt_def)

lemma lang_r_lit [simp]: "rx_lang (r_lit s) = {s}"
  by (induction s) auto

lemma seq_iff:
  "s \<in> rx_lang (RSeq q r) \<longleftrightarrow> (\<exists>u v. s = u @ v \<and> u \<in> rx_lang q \<and> v \<in> rx_lang r)"
  by auto

lemma lit_seq_iff:
  "s \<in> rx_lang (RSeq (r_lit x) r) \<longleftrightarrow> (\<exists>t. s = x @ t \<and> t \<in> rx_lang r)"
  by auto

lemma alt_iff: "s \<in> rx_lang (RAlt q r) \<longleftrightarrow> s \<in> rx_lang q \<or> s \<in> rx_lang r"
  by simp

lemma concat_singletons:
  "(\<exists>us. s = concat us \<and> set us \<subseteq> {[c] | c. P c}) \<longleftrightarrow> list_all P s"
proof
  assume "\<exists>us. s = concat us \<and> set us \<subseteq> {[c] | c. P c}"
  then obtain us where "s = concat us" "set us \<subseteq> {[c] | c. P c}" by blast
  then show "list_all P s" by (induction us arbitrary: s) auto
next
  assume "list_all P s"
  then have "s = concat (map (\<lambda>c. [c]) s) \<and> set (map (\<lambda>c. [c]) s) \<subseteq> {[c] | c. P c}"
    by (auto simp: list_all_iff)
  then show "\<exists>us. s = concat us \<and> set us \<subseteq> {[c] | c. P c}" by blast
qed

lemma lang_star_cls [simp]: "rx_lang (RStar (RCls P)) = {s. list_all P s}"
  using concat_singletons [of _ P] by auto

declare rx_lang.simps(6) [simp del]

lemma seq_cls_iff: "s \<in> rx_lang (RSeq (RCls P) r) \<longleftrightarrow> (\<exists>c t. s = c # t \<and> P c \<and> t \<in> rx_lang r)"
proof
  assume "\<exists>c t. s = c # t \<and> P c \<and> t \<in> rx_lang r"
  then obtain c t where "s = [c] @ t \<and> [c] \<in> rx_lang (RCls P) \<and> t \<in> rx_lang r" by auto
  then show "s \<in> rx_lang (RSeq (RCls P) r)" unfolding rx_lang.simps(5) mem_Collect_eq by blast
qed auto

lemma lang_plus_cls [simp]: "rx_lang (r_plus (RCls P)) = {s. s \<noteq> [] \<and> list_all P s}"
  by (auto simp: r_plus_def seq_cls_iff neq_Nil_conv simp del: rx_lang.simps)

lemma lang_upto_cls [simp]: "rx_lang (r_upto n (RCls P)) = {s. length s \<le> n \<and> list_all P s}"
proof (induction n)
  case (Suc n)
  have "s \<in> rx_lang (r_upto (Suc n) (RCls P)) \<longleftrightarrow> length s \<le> Suc n \<and> list_all P s" for s
    by (cases s) (auto simp: seq_cls_iff Suc simp del: rx_lang.simps)
  then show ?case by blast
qed auto

lemma lang_star_seq:
  "s \<in> rx_lang (RStar r) \<longleftrightarrow> (\<exists>us. s = concat us \<and> set us \<subseteq> rx_lang r)"
  by (auto simp: rx_lang.simps(6))

section \<open>Character classes\<close>

definition in_range :: "char \<Rightarrow> char \<Rightarrow> nat \<Rightarrow> bool" where
  "in_range a b c \<longleftrightarrow> of_char a \<le> c \<and> c \<le> of_char b"

definition one_of :: "string \<Rightarrow> nat \<Rightarrow> bool" where
  "one_of s c \<longleftrightarrow> c \<in> set (S s)"

definition digit_cls :: "nat \<Rightarrow> bool" where
  "digit_cls c \<longleftrightarrow> in_range CHR ''0'' CHR ''9'' c"

definition alnum_cls :: "nat \<Rightarrow> bool" where
  "alnum_cls c \<longleftrightarrow>
     in_range CHR ''A'' CHR ''Z'' c \<or> in_range CHR ''a'' CHR ''z'' c \<or> in_range CHR ''0'' CHR ''9'' c"

lemmas cls_defs = in_range_def one_of_def digit_cls_def alnum_cls_def

lemma digit_cls_iff: "digit_cls = is_digit"
  by (auto simp: fun_eq_iff cls_defs is_digit_def)

end
