(* ===== verification/Validate.thy ===== *)
theory Validate
  imports Regex
begin

text \<open>
  \<open>src/dbsc/_validate.py\<close>: the patterns that guard every value which ends up in a response header,
  a cookie or the session instructions, and what each of them accepts.
\<close>

section \<open>The patterns\<close>

definition cookie_name_char :: "nat \<Rightarrow> bool" where
  "cookie_name_char c \<longleftrightarrow> one_of ''!#$%&*+-.^_|~'' c \<or> c = 39 \<or> c = 96 \<or> alnum_cls c"

definition cookie_name_rx :: rx where
  "cookie_name_rx = RSeq (r_lit (S ''__Host-'')) (r_plus (RCls cookie_name_char))"

definition path_char :: "nat \<Rightarrow> bool" where
  "path_char c \<longleftrightarrow> alnum_cls c \<or> one_of ''-._~!$&()*+,;=:@%/'' c \<or> c = 39"

definition path_rx :: rx where
  "path_rx = RSeq (r_lit (S ''/'')) (RNotAhead (\<lambda>c. one_of ''/'' c) (RStar (RCls path_char)))"

definition label_char :: "nat \<Rightarrow> bool" where
  "label_char c \<longleftrightarrow> alnum_cls c \<or> one_of ''-'' c"

definition label_rx :: rx where
  "label_rx = RSeq (RCls alnum_cls)
     (r_opt (RSeq (r_upto 61 (RCls label_char)) (RCls alnum_cls)))"

definition port_rx :: rx where
  "port_rx = r_opt (RSeq (r_lit (S '':'')) (RSeq (RCls digit_cls) (r_upto 4 (RCls digit_cls))))"

definition labels_rx :: rx where
  "labels_rx = RSeq label_rx (RStar (RSeq (r_lit (S ''.'')) label_rx))"

definition host_pattern_rx :: rx where
  "host_pattern_rx = RSeq (r_opt (r_lit (S ''*.''))) (RSeq labels_rx port_rx)"

definition ipv6_char :: "nat \<Rightarrow> bool" where
  "ipv6_char c \<longleftrightarrow>
     digit_cls c \<or> in_range CHR ''A'' CHR ''F'' c \<or> in_range CHR ''a'' CHR ''f'' c \<or> one_of '':.'' c"

definition origin_rx :: rx where
  "origin_rx = RAlt
     (RSeq (r_lit (S ''https://''))
       (RSeq (RAlt labels_rx (RSeq (r_lit (S ''['')) (RSeq (r_plus (RCls ipv6_char)) (r_lit (S '']'')))))
         port_rx))
     (RSeq (r_lit (S ''http://''))
       (RSeq (RAlt (r_lit (S ''localhost'')) (RAlt (r_lit (S ''127.0.0.1'')) (r_lit (S ''[::1]''))))
         port_rx))"

definition sf_char :: "nat \<Rightarrow> bool" where
  "sf_char c \<longleftrightarrow> c = 33 \<or> (35 \<le> c \<and> c \<le> 91) \<or> (93 \<le> c \<and> c \<le> 126)"

definition sf_string_rx :: rx where
  "sf_string_rx = RStar (RCls sf_char)"

definition cookie_octet :: "nat \<Rightarrow> bool" where
  "cookie_octet c \<longleftrightarrow> c = 33 \<or> (35 \<le> c \<and> c \<le> 43) \<or> (45 \<le> c \<and> c \<le> 58) \<or>
     (60 \<le> c \<and> c \<le> 91) \<or> (93 \<le> c \<and> c \<le> 126)"

definition cookie_value_rx :: rx where
  "cookie_value_rx = RStar (RCls cookie_octet)"

definition SAME_SITE_VALUES :: "pystr list" where
  "SAME_SITE_VALUES = [S ''Lax'', S ''Strict'', S ''None'']"

section \<open>The validators\<close>

definition require :: "bool \<Rightarrow> pystr \<Rightarrow> unit result" where
  "require condition message =
     (if condition then Inr () else Inl (Exn ValueError (S ''DBSC: '' @ message)))"

definition is_cookie_name :: "pystr \<Rightarrow> bool" where
  "is_cookie_name value = re_fullmatch cookie_name_rx value"

definition is_path :: "pystr \<Rightarrow> bool" where
  "is_path value = re_fullmatch path_rx value"

definition is_host_pattern :: "pystr \<Rightarrow> bool" where
  "is_host_pattern value = re_fullmatch host_pattern_rx value"

definition is_origin :: "pystr \<Rightarrow> bool" where
  "is_origin value = re_fullmatch origin_rx value"

definition is_sf_string_safe :: "pystr \<Rightarrow> bool" where
  "is_sf_string_safe value = re_fullmatch sf_string_rx value"

definition is_cookie_value :: "pystr \<Rightarrow> bool" where
  "is_cookie_value value = re_fullmatch cookie_value_rx value"

text \<open>
  \<open>repr()\<close> of a string, for the one message that echoes a rejected host: quoted, with ASCII control
  characters, the backslash and the chosen quote escaped (code points from 128 on are copied).
\<close>

definition repr_char :: "nat \<Rightarrow> nat \<Rightarrow> pystr" where
  "repr_char q c =
     (if c = q \<or> c = 92 then [92, c]
      else if c = 9 then [92] @ S ''t'' else if c = 10 then [92] @ S ''n''
      else if c = 13 then [92] @ S ''r''
      else if c < 32 \<or> c = 127 then [92] @ S ''x'' @ hexlify [c] else [c])"

definition py_repr :: "pystr \<Rightarrow> pystr" where
  "py_repr s =
     (let q = (if 39 \<in> set s \<and> 34 \<notin> set s then 34 else 39)
      in q # concat (map (repr_char q) s) @ [q])"

definition host_patterns :: "pystr list \<Rightarrow> pystr \<Rightarrow> pystr list result" where
  "host_patterns values what =
     (let hosts = filter (\<lambda>h. h \<noteq> []) (map py_strip values)
      in foldr (\<lambda>host r.
           bind_res (require (is_host_pattern host)
             (what @ S '' entries must be host patterns, got '' @ py_repr host @ S ''.''))
             (\<lambda>_. r))
         hosts (Inr hosts))"

section \<open>What the patterns accept\<close>

lemma require_eq_Inr [simp]: "require b m = Inr u \<longleftrightarrow> b"
  by (simp add: require_def)

lemma is_sf_string_safe_iff: "is_sf_string_safe v \<longleftrightarrow> list_all sf_char v"
  by (simp add: is_sf_string_safe_def sf_string_rx_def re_fullmatch_iff)

lemma is_cookie_value_iff: "is_cookie_value v \<longleftrightarrow> list_all cookie_octet v"
  by (simp add: is_cookie_value_def cookie_value_rx_def re_fullmatch_iff)

lemma is_cookie_name_iff:
  "is_cookie_name v \<longleftrightarrow>
     (\<exists>t. v = S ''__Host-'' @ t \<and> t \<noteq> [] \<and> list_all cookie_name_char t)"
  by (auto simp: is_cookie_name_def cookie_name_rx_def re_fullmatch_iff)

lemma is_path_iff:
  "is_path v \<longleftrightarrow> (\<exists>t. v = 47 # t \<and> (t = [] \<or> hd t \<noteq> 47) \<and> list_all path_char t)"
  by (auto simp: is_path_def path_rx_def re_fullmatch_iff one_of_def S_Cons)

text \<open>A host label: 1 to 63 letters, digits and hyphens, no hyphen at either end.\<close>

definition host_label :: "pystr \<Rightarrow> bool" where
  "host_label t \<longleftrightarrow> t \<noteq> [] \<and> length t \<le> 63 \<and> list_all label_char t \<and>
     alnum_cls (hd t) \<and> alnum_cls (last t)"

lemma label_lang: "t \<in> rx_lang label_rx \<longleftrightarrow> host_label t"
proof
  assume "t \<in> rx_lang label_rx"
  then consider c where "t = [c]" "alnum_cls c"
    | c m d where "t = c # m @ [d]" "alnum_cls c" "alnum_cls d" "length m \<le> 61" "list_all label_char m"
    by (auto simp: label_rx_def)
  then show "host_label t"
    by cases (auto simp: host_label_def label_char_def)
next
  assume h: "host_label t"
  then obtain c t' where t: "t = c # t'" by (cases t) (auto simp: host_label_def)
  have "t' \<in> rx_lang (r_opt (RSeq (r_upto 61 (RCls label_char)) (RCls alnum_cls)))"
    using h t by (cases t' rule: rev_cases) (auto simp: host_label_def)
  with h t show "t \<in> rx_lang label_rx"
    by (auto simp: label_rx_def seq_cls_iff host_label_def simp del: rx_lang.simps)
qed

definition port_suffix :: "pystr \<Rightarrow> bool" where
  "port_suffix p \<longleftrightarrow> p = [] \<or>
     (\<exists>ds. p = S '':'' @ ds \<and> 1 \<le> length ds \<and> length ds \<le> 5 \<and> list_all digit_cls ds)"

lemma port_lang: "p \<in> rx_lang port_rx \<longleftrightarrow> port_suffix p"
proof
  assume "p \<in> rx_lang port_rx"
  then consider "p = []"
    | c ds where "p = S '':'' @ c # ds" "digit_cls c" "length ds \<le> 4" "list_all digit_cls ds"
    by (auto simp: port_rx_def)
  then show "port_suffix p"
    by cases (auto simp: port_suffix_def)
next
  assume "port_suffix p"
  then consider "p = []"
    | c ds where "p = S '':'' @ c # ds" "digit_cls c" "length ds \<le> 4" "list_all digit_cls ds"
    by (auto simp: port_suffix_def Suc_le_length_iff)
  then show "p \<in> rx_lang port_rx"
  proof cases
    case 2
    then have "c # ds \<in> rx_lang (RSeq (RCls digit_cls) (r_upto 4 (RCls digit_cls)))"
      by (simp add: seq_cls_iff del: rx_lang.simps)
    with 2 show ?thesis by (auto simp: port_rx_def)
  qed (simp add: port_rx_def)
qed

text \<open>Labels joined by dots.\<close>

definition dotted_labels :: "pystr \<Rightarrow> bool" where
  "dotted_labels s \<longleftrightarrow> (\<exists>ls. ls \<noteq> [] \<and> list_all host_label ls \<and> s = py_join 46 ls)"

lemma py_join_Cons: "py_join d (l # ls) = l @ concat (map (\<lambda>x. d # x) ls)"
  by (induction ls arbitrary: l) auto

lemma dot_label_lang:
  "u \<in> rx_lang (RSeq (r_lit (S ''.'')) label_rx) \<longleftrightarrow> (\<exists>l. u = 46 # l \<and> host_label l)"
  by (auto simp: label_lang S_Cons)

lemma dot_labels_list:
  "set us \<subseteq> rx_lang (RSeq (r_lit (S ''.'')) label_rx) \<longleftrightarrow>
     (\<exists>ls. us = map (\<lambda>x. 46 # x) ls \<and> list_all host_label ls)"
proof (induction us)
  case (Cons u us)
  then show ?case
    by (auto simp: dot_label_lang Cons_eq_map_conv simp del: rx_lang.simps)
qed simp

lemma labels_rx_iff:
  "s \<in> rx_lang labels_rx \<longleftrightarrow>
     (\<exists>l ls. s = l @ concat (map (\<lambda>x. 46 # x) ls) \<and> host_label l \<and> list_all host_label ls)"
proof -
  have "s \<in> rx_lang labels_rx \<longleftrightarrow>
      (\<exists>l us. s = l @ concat us \<and> l \<in> rx_lang label_rx \<and>
         set us \<subseteq> rx_lang (RSeq (r_lit (S ''.'')) label_rx))"
    by (subst labels_rx_def, subst rx_lang.simps(5)) (auto simp: lang_star_seq simp del: rx_lang.simps)
  then show ?thesis
    unfolding dot_labels_list label_lang by blast
qed

lemma labels_lang: "s \<in> rx_lang labels_rx \<longleftrightarrow> dotted_labels s"
proof
  assume "s \<in> rx_lang labels_rx"
  then obtain l ls where "s = py_join 46 (l # ls)" "list_all host_label (l # ls)"
    by (auto simp: labels_rx_iff py_join_Cons)
  then show "dotted_labels s" unfolding dotted_labels_def by blast
next
  assume "dotted_labels s"
  then obtain l ls where "s = l @ concat (map (\<lambda>x. 46 # x) ls)" "host_label l" "list_all host_label ls"
    by (auto simp: dotted_labels_def neq_Nil_conv py_join_Cons)
  then show "s \<in> rx_lang labels_rx"
    unfolding labels_rx_iff by blast
qed

lemma is_host_pattern_iff:
  "is_host_pattern v \<longleftrightarrow>
     (\<exists>w h p. v = w @ h @ p \<and> (w = [] \<or> w = S ''*.'') \<and> dotted_labels h \<and> port_suffix p)"
  by (auto simp: is_host_pattern_def host_pattern_rx_def re_fullmatch_iff labels_lang port_lang)

text \<open>An origin is https to a host or a bracketed address, or plain http to the loopback.\<close>

definition https_host :: "pystr \<Rightarrow> bool" where
  "https_host h \<longleftrightarrow> dotted_labels h \<or>
     (\<exists>a. h = S ''['' @ a @ S '']'' \<and> a \<noteq> [] \<and> list_all ipv6_char a)"

definition loopback_host :: "pystr \<Rightarrow> bool" where
  "loopback_host h \<longleftrightarrow> h \<in> {S ''localhost'', S ''127.0.0.1'', S ''[::1]''}"

lemma bracketed_lang:
  "h \<in> rx_lang (RSeq (r_lit (S ''['')) (RSeq (r_plus (RCls ipv6_char)) (r_lit (S '']'')))) \<longleftrightarrow>
     (\<exists>a. h = S ''['' @ a @ S '']'' \<and> a \<noteq> [] \<and> list_all ipv6_char a)"
  by (auto simp: lit_seq_iff simp del: rx_lang.simps(5)) (auto simp: seq_iff simp del: rx_lang.simps(5))

lemma is_origin_iff:
  "is_origin v \<longleftrightarrow>
     (\<exists>h p. v = S ''https://'' @ h @ p \<and> https_host h \<and> port_suffix p) \<or>
     (\<exists>h p. v = S ''http://'' @ h @ p \<and> loopback_host h \<and> port_suffix p)"
proof -
  have https: "h \<in> rx_lang (RAlt labels_rx (RSeq (r_lit (S ''['')) (RSeq (r_plus (RCls ipv6_char)) (r_lit (S '']'')))))
      \<longleftrightarrow> https_host h" for h
    unfolding alt_iff labels_lang bracketed_lang https_host_def ..
  have http: "h \<in> rx_lang (RAlt (r_lit (S ''localhost'')) (RAlt (r_lit (S ''127.0.0.1'')) (r_lit (S ''[::1]''))))
      \<longleftrightarrow> loopback_host h" for h
    unfolding alt_iff lang_r_lit loopback_host_def by blast
  show ?thesis
    unfolding is_origin_def origin_rx_def re_fullmatch_iff alt_iff [of v] lit_seq_iff
    unfolding seq_iff https http port_lang by blast
qed

lemma host_patterns_eq_Inr:
  "host_patterns vs w = Inr hs \<longleftrightarrow>
     hs = filter (\<lambda>h. h \<noteq> []) (map py_strip vs) \<and> list_all is_host_pattern hs"
proof -
  have step: "foldr (\<lambda>host r. bind_res (require (is_host_pattern host) (m host)) (\<lambda>_. r)) xs (Inr ys)
      = Inr zs \<longleftrightarrow> zs = ys \<and> list_all is_host_pattern xs" for m xs ys zs
    by (induction xs) (auto simp: bind_res_eq_Inr)
  show ?thesis unfolding host_patterns_def Let_def step by auto
qed

end
