(* ===== verification/Json.thy ===== *)
theory Json
  imports Validate
begin

text \<open>
  \<open>src/dbsc/_json.py\<close> and what it uses of Python's \<open>json\<close> module: the compact ASCII printer behind
  \<open>dumps\<close>, a lexer and a stack machine for \<open>json.loads\<close> with its \<open>object_pairs_hook\<close>, the two
  typed accessors and the constant-time comparison. The main lemma is that printing a value and
  loading the text gives the value back.
\<close>

section \<open>Values\<close>

text \<open>
  A decoded document. An object keeps its members in order, as a Python dict does; a float is kept
  as its text, since no accessor of the library accepts one.
\<close>

datatype json =
    JNull
  | JBool bool
  | JInt int
  | JFloat pystr
  | JStr pystr
  | JArr "json list"
  | JObj "(pystr \<times> json) list"

section \<open>Printing: dumps\<close>

definition hex4 :: "nat \<Rightarrow> pystr" where
  "hex4 c = [hex_digit (c div 4096 mod 16), hex_digit (c div 256 mod 16),
     hex_digit (c div 16 mod 16), hex_digit (c mod 16)]"

definition esc_char :: "nat \<Rightarrow> pystr" where
  "esc_char c =
     (if c = 34 then [92, 34]
      else if c = 92 then [92, 92]
      else if c = 10 then [92, 110]
      else if c = 13 then [92, 114]
      else if c = 9 then [92, 116]
      else if c = 12 then [92, 102]
      else if c = 8 then [92, 98]
      else if 32 \<le> c \<and> c \<le> 126 then [c]
      else if c < 65536 then [92, 117] @ hex4 c
      else [92, 117] @ hex4 (55296 + (c - 65536) div 1024) @
           [92, 117] @ hex4 (56320 + (c - 65536) mod 1024))"

definition str_text :: "pystr \<Rightarrow> pystr" where
  "str_text s = [34] @ concat (map esc_char s) @ [34]"

fun comma_join :: "pystr list \<Rightarrow> pystr" where
  "comma_join [] = []"
| "comma_join [x] = x"
| "comma_join (x # y # xs) = x @ [44] @ comma_join (y # xs)"

fun dumps :: "json \<Rightarrow> pystr" where
  "dumps JNull = S ''null''"
| "dumps (JBool b) = (if b then S ''true'' else S ''false'')"
| "dumps (JInt i) = py_int_str i"
| "dumps (JFloat t) = t"
| "dumps (JStr s) = str_text s"
| "dumps (JArr vs) = [91] @ comma_join (map dumps vs) @ [93]"
| "dumps (JObj ms) = [123] @ comma_join (map (\<lambda>(k, v). str_text k @ [58] @ dumps v) ms) @ [125]"

section \<open>Loading: tokens\<close>

datatype tok = LBrace | RBrace | LBrack | RBrack | Colon | Comma | TStr pystr | TLit json

definition hex_val :: "nat \<Rightarrow> nat option" where
  "hex_val c =
     (if 48 \<le> c \<and> c \<le> 57 then Some (c - 48)
      else if 97 \<le> c \<and> c \<le> 102 then Some (c - 87)
      else if 65 \<le> c \<and> c \<le> 70 then Some (c - 55)
      else None)"

text \<open>Four hexadecimal digits and the text after them.\<close>

fun hex4_val :: "pystr \<Rightarrow> (nat \<times> pystr) option" where
  "hex4_val (a # b # c # d # r) =
     (case (hex_val a, hex_val b, hex_val c, hex_val d) of
        (Some w, Some x, Some y, Some z) \<Rightarrow> Some (((w * 16 + x) * 16 + y) * 16 + z, r)
      | _ \<Rightarrow> None)"
| "hex4_val _ = None"

text \<open>\<open>\u\<close> escapes: a high surrogate followed by an escaped low one is a single code point.\<close>

definition unicode_escape :: "pystr \<Rightarrow> (nat \<times> pystr) option" where
  "unicode_escape r =
     (case hex4_val r of
        None \<Rightarrow> None
      | Some (u, r1) \<Rightarrow>
          if high_surrogate u \<and> take 2 r1 = [92, 117] then
            (case hex4_val (drop 2 r1) of
               None \<Rightarrow> None
             | Some (l, r2) \<Rightarrow>
                 if low_surrogate l then Some (65536 + (u - 55296) * 1024 + (l - 56320), r2)
                 else Some (u, r1))
          else Some (u, r1))"

text \<open>The character after a backslash.\<close>

definition escape :: "pystr \<Rightarrow> (nat \<times> pystr) option" where
  "escape s =
     (case s of
        [] \<Rightarrow> None
      | c # r \<Rightarrow>
          if c = 34 \<or> c = 92 \<or> c = 47 then Some (c, r)
          else if c = 98 then Some (8, r)
          else if c = 102 then Some (12, r)
          else if c = 110 then Some (10, r)
          else if c = 114 then Some (13, r)
          else if c = 116 then Some (9, r)
          else if c = 117 then unicode_escape r
          else None)"

lemma hex4_val_length: "hex4_val s = Some (v, r) \<Longrightarrow> length r < length s"
  by (induction s rule: hex4_val.induct) (auto split: option.splits)

lemma unicode_escape_length: "unicode_escape s = Some (v, r) \<Longrightarrow> length r < length s"
  by (auto simp: unicode_escape_def split: option.splits prod.splits if_splits
      dest!: hex4_val_length)

lemma escape_length: "escape s = Some (v, r) \<Longrightarrow> length r < length s"
  by (auto simp: escape_def split: list.splits if_splits dest!: unicode_escape_length)

text \<open>The text after an opening quote, up to the closing one; raw control characters are refused.\<close>

function str_body :: "pystr \<Rightarrow> (pystr \<times> pystr) option" where
  "str_body s =
     (case s of
        [] \<Rightarrow> None
      | c # r \<Rightarrow>
          if c = 34 then Some ([], r)
          else if c = 92 then
            (case escape r of
               None \<Rightarrow> None
             | Some (v, r') \<Rightarrow> map_option (\<lambda>(t, q). (v # t, q)) (str_body r'))
          else if c < 32 then None
          else map_option (\<lambda>(t, q). (c # t, q)) (str_body r))"
  by pat_completeness auto
termination
  by (relation "measure length") (auto dest: escape_length)

declare str_body.simps [simp del]

lemma str_body_Nil [simp]: "str_body [] = None"
  by (subst str_body.simps) simp

lemma str_body_quote [simp]: "str_body (34 # r) = Some ([], r)"
  by (subst str_body.simps) simp

lemma str_body_escape [simp]:
  "str_body (92 # r) =
     (case escape r of
        None \<Rightarrow> None
      | Some (v, r') \<Rightarrow> map_option (\<lambda>(t, q). (v # t, q)) (str_body r'))"
  by (subst str_body.simps) simp

lemma str_body_plain:
  "c \<noteq> 34 \<Longrightarrow> c \<noteq> 92 \<Longrightarrow>
     str_body (c # r) = (if c < 32 then None else map_option (\<lambda>(t, q). (c # t, q)) (str_body r))"
  by (subst str_body.simps) simp

lemma str_body_length: "str_body s = Some (t, r) \<Longrightarrow> length r < length s"
proof (induction s arbitrary: t r rule: str_body.induct)
  case (1 s)
  note IH = "1.IH"
  show ?case
  proof (cases s)
    case Nil
    with "1.prems" show ?thesis by simp
  next
    case (Cons c q)
    consider "c = 34" | "c = 92" | "c \<noteq> 34" "c \<noteq> 92" by blast
    then show ?thesis
    proof cases
      case 1
      with Cons "1.prems" show ?thesis by simp
    next
      case 2
      with Cons "1.prems" obtain v q' t' where "escape q = Some (v, q')" "str_body q' = Some (t', r)"
        by (auto split: option.splits)
      moreover from this Cons 2 have "length r < length q'"
        using IH(1) [OF Cons _ _ \<open>escape q = Some (v, q')\<close> refl] by simp
      ultimately show ?thesis using Cons escape_length [of q v q'] by simp
    next
      case 3
      with Cons "1.prems" obtain t' where q: "str_body q = Some (t', r)" "\<not> c < 32"
        by (auto simp: str_body_plain split: if_splits)
      then have "length r < length q" using IH(2) [OF Cons] 3 by simp
      with Cons show ?thesis by simp
    qed
  qed
qed

text \<open>
  Numbers and names are read as a maximal run of the characters they can contain and then
  classified, so two adjacent literals never pass for one. \<open>int()\<close> refuses more than 4300 digits.
\<close>

definition bare_char :: "nat \<Rightarrow> bool" where
  "bare_char c \<longleftrightarrow> alnum_cls c \<or> one_of ''+-.'' c"

definition int_rx :: rx where
  "int_rx = RSeq (r_opt (r_lit (S ''-'')))
     (RAlt (r_lit (S ''0''))
       (RSeq (RCls (in_range CHR ''1'' CHR ''9'')) (RStar (RCls digit_cls))))"

definition float_rx :: rx where
  "float_rx = RSeq int_rx
     (RSeq (r_opt (RSeq (r_lit (S ''.'')) (r_plus (RCls digit_cls))))
       (r_opt (RSeq (RCls (one_of ''eE''))
         (RSeq (r_opt (RCls (one_of ''+-''))) (r_plus (RCls digit_cls))))))"

definition max_str_digits :: nat where
  "max_str_digits = 4300"

definition int_of_text :: "pystr \<Rightarrow> int option" where
  "int_of_text w =
     (case w of
        [] \<Rightarrow> None
      | c # ds \<Rightarrow>
          if c = 45 then
            (if length ds \<le> max_str_digits then Some (- int (dec_value ds)) else None)
          else (if length w \<le> max_str_digits then Some (int (dec_value w)) else None))"

definition bare_token :: "pystr \<Rightarrow> json option" where
  "bare_token w =
     (if w = S ''null'' then Some JNull
      else if w = S ''true'' then Some (JBool True)
      else if w = S ''false'' then Some (JBool False)
      else if w \<in> {S ''NaN'', S ''Infinity'', S ''-Infinity''} then Some (JFloat w)
      else if re_fullmatch int_rx w then map_option JInt (int_of_text w)
      else if re_fullmatch float_rx w then Some (JFloat w)
      else None)"

definition json_ws :: "nat \<Rightarrow> bool" where
  "json_ws c \<longleftrightarrow> c = 32 \<or> c = 9 \<or> c = 10 \<or> c = 13"

definition punct :: "nat \<Rightarrow> tok option" where
  "punct c =
     (if c = 123 then Some LBrace else if c = 125 then Some RBrace
      else if c = 91 then Some LBrack else if c = 93 then Some RBrack
      else if c = 58 then Some Colon else if c = 44 then Some Comma else None)"

function lex :: "pystr \<Rightarrow> tok list option" where
  "lex s =
     (case s of
        [] \<Rightarrow> Some []
      | c # r \<Rightarrow>
          if json_ws c then lex r
          else (case punct c of
              Some t \<Rightarrow> map_option (\<lambda>ts. t # ts) (lex r)
            | None \<Rightarrow>
                if c = 34 then
                  (case str_body r of
                     None \<Rightarrow> None
                   | Some (v, r') \<Rightarrow> map_option (\<lambda>ts. TStr v # ts) (lex r'))
                else if bare_char c then
                  (case bare_token (takeWhile bare_char s) of
                     None \<Rightarrow> None
                   | Some j \<Rightarrow> map_option (\<lambda>ts. TLit j # ts) (lex (dropWhile bare_char s)))
                else None))"
  by pat_completeness auto
termination
  by (relation "measure length")
    (auto dest: str_body_length simp: le_imp_less_Suc length_dropWhile_le)

declare lex.simps [simp del]

section \<open>Loading: the stack machine\<close>

text \<open>
  An open container keeps what it has read so far, in reverse. \<open>json.loads\<close> raises
  \<open>RecursionError\<close> when containers nest deeper than the interpreter allows; \<open>depth\<close> is that depth.
\<close>

datatype frame = FArr "json list" | FKey "(pystr \<times> json) list" pystr

datatype pmode =
    MValue
  | MArrFirst
  | MKeyFirst
  | MKey "(pystr \<times> json) list"
  | MColon "(pystr \<times> json) list" pystr
  | MDone json

text \<open>What becomes of the members of an object when it closes.\<close>

type_synonym pairs_hook = "(pystr \<times> json) list \<Rightarrow> json option"

text \<open>\<open>_unique_members\<close>: a duplicate member name makes the document invalid.\<close>

definition unique_members :: "(pystr \<times> json) list \<Rightarrow> json option" where
  "unique_members pairs = (if distinct (map fst pairs) then Some (JObj pairs) else None)"

definition open_value :: "nat \<Rightarrow> frame list \<Rightarrow> tok \<Rightarrow> (pmode \<times> frame list) option" where
  "open_value depth st t =
     (case t of
        TStr s \<Rightarrow> Some (MDone (JStr s), st)
      | TLit j \<Rightarrow> Some (MDone j, st)
      | LBrack \<Rightarrow> if length st < depth then Some (MArrFirst, st) else None
      | LBrace \<Rightarrow> if length st < depth then Some (MKeyFirst, st) else None
      | _ \<Rightarrow> None)"

definition close_object ::
  "pairs_hook \<Rightarrow> (pystr \<times> json) list \<Rightarrow> frame list \<Rightarrow> (pmode \<times> frame list) option" where
  "close_object hook ms st = map_option (\<lambda>v. (MDone v, st)) (hook (rev ms))"

fun pstep :: "pairs_hook \<Rightarrow> nat \<Rightarrow> pmode \<Rightarrow> frame list \<Rightarrow> tok \<Rightarrow> (pmode \<times> frame list) option" where
  "pstep hook depth MValue st t = open_value depth st t"
| "pstep hook depth MArrFirst st t =
     (if t = RBrack then Some (MDone (JArr []), st) else open_value depth (FArr [] # st) t)"
| "pstep hook depth MKeyFirst st t =
     (case t of
        RBrace \<Rightarrow> close_object hook [] st
      | TStr k \<Rightarrow> Some (MColon [] k, st)
      | _ \<Rightarrow> None)"
| "pstep hook depth (MKey ms) st t = (case t of TStr k \<Rightarrow> Some (MColon ms k, st) | _ \<Rightarrow> None)"
| "pstep hook depth (MColon ms k) st t = (if t = Colon then Some (MValue, FKey ms k # st) else None)"
| "pstep hook depth (MDone v) [] t = None"
| "pstep hook depth (MDone v) (FArr vs # st) t =
     (case t of
        Comma \<Rightarrow> Some (MValue, FArr (v # vs) # st)
      | RBrack \<Rightarrow> Some (MDone (JArr (rev (v # vs))), st)
      | _ \<Rightarrow> None)"
| "pstep hook depth (MDone v) (FKey ms k # st) t =
     (case t of
        Comma \<Rightarrow> Some (MKey ((k, v) # ms), st)
      | RBrace \<Rightarrow> close_object hook ((k, v) # ms) st
      | _ \<Rightarrow> None)"

fun prun :: "pairs_hook \<Rightarrow> nat \<Rightarrow> pmode \<Rightarrow> frame list \<Rightarrow> tok list \<Rightarrow> json option" where
  "prun hook depth m st [] = (case m of MDone v \<Rightarrow> if st = [] then Some v else None | _ \<Rightarrow> None)"
| "prun hook depth m st (t # ts) =
     (case pstep hook depth m st t of None \<Rightarrow> None | Some (m', st') \<Rightarrow> prun hook depth m' st' ts)"

text \<open>\<open>json.loads(s, object_pairs_hook=...)\<close>\<close>

definition json_loads_with :: "pairs_hook \<Rightarrow> nat \<Rightarrow> pystr \<Rightarrow> json option" where
  "json_loads_with hook depth s =
     (case lex s of None \<Rightarrow> None | Some ts \<Rightarrow> prun hook depth MValue [] ts)"

definition json_loads :: "nat \<Rightarrow> pystr \<Rightarrow> json option" where
  "json_loads depth s = json_loads_with unique_members depth s"

definition loads_object :: "nat \<Rightarrow> pystr \<Rightarrow> (pystr \<times> json) list option" where
  "loads_object depth raw =
     (case json_loads depth raw of Some (JObj data) \<Rightarrow> Some data | _ \<Rightarrow> None)"

section \<open>Accessors\<close>

text \<open>\<open>data.get(key)\<close> followed by \<open>as_str\<close> or \<open>as_int\<close>: an absent member is \<open>None\<close>, as a null is.\<close>

definition get_member :: "(pystr \<times> json) list \<Rightarrow> string \<Rightarrow> json" where
  "get_member data key = (case map_of data (S key) of None \<Rightarrow> JNull | Some v \<Rightarrow> v)"

definition as_str :: "json \<Rightarrow> pystr option" where
  "as_str value = (case value of JStr s \<Rightarrow> Some s | _ \<Rightarrow> None)"

definition as_int :: "json \<Rightarrow> int option" where
  "as_int value = (case value of JInt i \<Rightarrow> Some i | _ \<Rightarrow> None)"

lemma as_str_simps [simp]:
  "as_str (JStr s) = Some s" "as_str JNull = None" "as_str (JInt i) = None" "as_str (JBool b) = None"
  by (simp_all add: as_str_def)

lemma as_int_simps [simp]:
  "as_int (JInt i) = Some i" "as_int JNull = None" "as_int (JStr s) = None" "as_int (JBool b) = None"
  by (simp_all add: as_int_def)

lemma as_str_eq_Some: "as_str v = Some s \<longleftrightarrow> v = JStr s"
  by (cases v) (auto simp: as_str_def)

lemma as_int_eq_Some: "as_int v = Some i \<longleftrightarrow> v = JInt i"
  by (cases v) (auto simp: as_int_def)

definition constant_time_equals :: "pystr \<Rightarrow> pystr \<Rightarrow> bool result" where
  "constant_time_equals known presented =
     bind_res (py_encode known) (\<lambda>k. bind_res (py_encode presented) (\<lambda>p. Inr (k = p)))"

text \<open>A string without surrogates is one \<open>str.encode()\<close> accepts.\<close>

definition encodable :: "pystr \<Rightarrow> bool" where
  "encodable s \<longleftrightarrow> \<not> list_ex is_surrogate s"

lemma constant_time_equals_iff:
  "constant_time_equals k p =
     (if encodable k \<and> encodable p then Inr (k = p)
      else Inl (Exn UnicodeEncodeError (S ''surrogates not allowed'')))"
  by (auto simp: constant_time_equals_def py_encode_def encodable_def utf8_inject)

end
