(* ===== verification/JsonRoundtrip.thy ===== *)
theory JsonRoundtrip
  imports Json
begin

text \<open>
  Loading what \<open>dumps\<close> printed gives the printed value back: strings with every escape the printer
  uses, integers, and nested arrays and objects, for documents Python can hold.
\<close>

section \<open>Hexadecimal escapes\<close>

lemma hex_val_digit: "d < 16 \<Longrightarrow> hex_val (hex_digit d) = Some d"
  by (auto simp: hex_val_def hex_digit_def)

lemma hex4_val_digits:
  "hex4_val (hex4 c @ r) =
     Some (((c div 4096 mod 16 * 16 + c div 256 mod 16) * 16 + c div 16 mod 16) * 16 + c mod 16, r)"
  by (simp only: hex4_def append.simps hex4_val.simps)
    (simp only: hex_val_digit pos_mod_bound mod_less_divisor zero_less_numeral option.case prod.case)

lemma hex4_val_hex4: "c < 65536 \<Longrightarrow> hex4_val (hex4 c @ r) = Some (c, r)"
proof -
  assume c: "c < 65536"
  define a where "a = c div 16"
  define b where "b = a div 16"
  have "c div 256 = b" "c div 4096 = b div 16"
    by (simp_all add: a_def b_def div_mult2_eq [symmetric])
  moreover have "b div 16 < 16"
    using c by (simp add: a_def b_def div_mult2_eq [symmetric] less_mult_imp_div_less)
  moreover have "c = a * 16 + c mod 16" "a = b * 16 + a mod 16" "b = b div 16 * 16 + b mod 16"
    by (simp_all add: a_def b_def)
  ultimately have
    "((c div 4096 mod 16 * 16 + c div 256 mod 16) * 16 + c div 16 mod 16) * 16 + c mod 16 = c"
    by (simp add: a_def [symmetric])
  then show ?thesis by (simp only: hex4_val_digits)
qed

definition astral :: "nat \<Rightarrow> bool" where
  "astral c \<longleftrightarrow> 65536 \<le> c \<and> c < 1114112"

lemma astral_pair:
  assumes "astral c"
  shows "high_surrogate (55296 + (c - 65536) div 1024)"
    and "low_surrogate (56320 + (c - 65536) mod 1024)"
    and "65536 + (55296 + (c - 65536) div 1024 - 55296) * 1024 +
           (56320 + (c - 65536) mod 1024 - 56320) = c"
  using assms by (auto simp: astral_def high_surrogate_def low_surrogate_def)

text \<open>The three shapes an escaped character has.\<close>

lemma esc_char_cases:
  obtains (plain) "esc_char c = [c]" "c \<noteq> 34" "c \<noteq> 92" "32 \<le> c" "c \<le> 126"
  | (short) d where "esc_char c = [92, d]" "d \<noteq> 117" "\<And>r. escape (d # r) = Some (c, r)"
      "\<not> high_surrogate c" "\<not> low_surrogate c"
  | (hex) "esc_char c = [92, 117] @ hex4 c" "c < 65536"
  | (pair) "esc_char c = [92, 117] @ hex4 (55296 + (c - 65536) div 1024) @
      [92, 117] @ hex4 (56320 + (c - 65536) mod 1024)" "65536 \<le> c"
proof -
  consider "c \<in> {34, 92, 10, 13, 9, 12, 8}" | "c \<notin> {34, 92, 10, 13, 9, 12, 8}" "32 \<le> c" "c \<le> 126"
    | "c \<notin> {34, 92, 10, 13, 9, 12, 8}" "c < 32 \<or> 126 < c" "c < 65536"
    | "c \<notin> {34, 92, 10, 13, 9, 12, 8}" "65536 \<le> c" by fastforce
  then show thesis
  proof cases
    case 1
    then show thesis
      by (auto intro!: short simp: esc_char_def escape_def high_surrogate_def low_surrogate_def)
  next
    case 2
    then show thesis by (auto intro!: plain simp: esc_char_def)
  next
    case 3
    then show thesis by (auto intro!: hex simp: esc_char_def)
  next
    case 4
    then show thesis by (auto intro!: pair simp: esc_char_def)
  qed
qed

section \<open>Strings\<close>

text \<open>
  A string survives printing and loading when it holds Unicode code points and no high surrogate
  directly before a low one: that pair would be read back as one character.
\<close>

fun str_ok :: "pystr \<Rightarrow> bool" where
  "str_ok [] = True"
| "str_ok [c] = (c < 1114112)"
| "str_ok (c # d # s) = (c < 1114112 \<and> \<not> (high_surrogate c \<and> low_surrogate d) \<and> str_ok (d # s))"

lemma str_ok_Cons: "str_ok (c # s) \<Longrightarrow> c < 1114112 \<and> str_ok s"
  by (cases s) auto

lemma str_ok_no_surrogates: "list_all (\<lambda>c. c < 1114112 \<and> \<not> is_surrogate c) s \<Longrightarrow> str_ok s"
  by (induction s rule: str_ok.induct)
    (auto simp: is_surrogate_def high_surrogate_def low_surrogate_def)

lemma str_ok_S [simp]: "str_ok (S s)"
  by (rule str_ok_no_surrogates) (auto simp: list_all_iff is_surrogate_def dest: set_S_less)

abbreviation escaped :: "pystr \<Rightarrow> pystr" where
  "escaped s \<equiv> concat (map esc_char s)"

text \<open>What follows an escaped high surrogate is never read as its low half.\<close>

lemma after_high_surrogate:
  assumes "high_surrogate c" and "str_ok (c # s)" and "take 2 (escaped s @ 34 # r) = [92, 117]"
  shows "\<exists>l q. hex4_val (drop 2 (escaped s @ 34 # r)) = Some (l, q) \<and> \<not> low_surrogate l"
proof (cases s)
  case Nil
  with assms(3) show ?thesis by simp
next
  case (Cons d t)
  from esc_char_cases [of d] show ?thesis
  proof cases
    case plain
    with Cons assms(3) show ?thesis by simp
  next
    case (short e)
    with Cons assms(3) show ?thesis by simp
  next
    case hex
    with Cons assms(1,2) show ?thesis by (auto simp: hex4_val_hex4)
  next
    case pair
    with Cons assms(2) have "astral d"
      using str_ok_Cons [of c s] str_ok_Cons [of d t] by (simp add: astral_def)
    then have hi: "high_surrogate (55296 + (d - 65536) div 1024)" by (rule astral_pair)
    then have "55296 + (d - 65536) div 1024 < 65536" "\<not> low_surrogate (55296 + (d - 65536) div 1024)"
      by (auto simp: high_surrogate_def low_surrogate_def)
    with Cons pair(1) show ?thesis by (simp add: hex4_val_hex4)
  qed
qed

lemma unicode_escape_hex:
  assumes "c < 65536" and "str_ok (c # s)"
  shows "unicode_escape (hex4 c @ escaped s @ 34 # r) = Some (c, escaped s @ 34 # r)"
proof (cases "high_surrogate c \<and> take 2 (escaped s @ 34 # r) = [92, 117]")
  case True
  with assms after_high_surrogate [of c s r] obtain l q where
    "hex4_val (drop 2 (escaped s @ 34 # r)) = Some (l, q)" "\<not> low_surrogate l" by blast
  with True assms show ?thesis by (simp add: unicode_escape_def hex4_val_hex4)
next
  case False
  with assms show ?thesis by (auto simp: unicode_escape_def hex4_val_hex4)
qed

lemma unicode_escape_pair:
  assumes "astral c"
  shows "unicode_escape (hex4 (55296 + (c - 65536) div 1024) @
    [92, 117] @ hex4 (56320 + (c - 65536) mod 1024) @ q) = Some (c, q)"
proof -
  note p = astral_pair [OF assms]
  have "55296 + (c - 65536) div 1024 < 65536" "56320 + (c - 65536) mod 1024 < 65536"
    using p(1,2) by (simp_all add: high_surrogate_def low_surrogate_def)
  with p show ?thesis by (simp add: unicode_escape_def hex4_val_hex4)
qed

lemma str_body_char:
  assumes "str_ok (c # s)"
  shows "str_body (esc_char c @ escaped s @ 34 # r) =
    map_option (\<lambda>(t, q). (c # t, q)) (str_body (escaped s @ 34 # r))"
  using esc_char_cases [of c]
proof cases
  case plain
  then show ?thesis by (simp add: str_body_plain)
next
  case (short d)
  then show ?thesis by simp
next
  case hex
  with assms unicode_escape_hex [of c s r] show ?thesis by (simp add: escape_def)
next
  case pair
  with assms have "astral c" using str_ok_Cons [of c s] by (simp add: astral_def)
  from unicode_escape_pair [OF this, of "escaped s @ 34 # r"] pair(1) show ?thesis
    by (simp add: escape_def)
qed

lemma str_body_escaped: "str_ok s \<Longrightarrow> str_body (escaped s @ 34 # r) = Some (s, r)"
proof (induction s)
  case (Cons c s)
  then show ?case using str_body_char [of c s r] str_ok_Cons [of c s] by simp
qed simp

section \<open>Lexing printed text\<close>

lemma lex_Nil [simp]: "lex [] = Some []"
  by (subst lex.simps) simp

lemma lex_punct: "punct c = Some t \<Longrightarrow> lex (c # r) = map_option (\<lambda>ts. t # ts) (lex r)"
  by (subst lex.simps) (auto simp: punct_def json_ws_def split: if_splits)

lemma lex_str_text: "str_ok s \<Longrightarrow> lex (str_text s @ r) = map_option (\<lambda>ts. TStr s # ts) (lex r)"
  by (subst lex.simps)
    (simp add: str_text_def json_ws_def punct_def str_body_escaped)

text \<open>A run of number or name characters ends where the next character is none of them.\<close>

definition stops :: "pystr \<Rightarrow> bool" where
  "stops r \<longleftrightarrow> r = [] \<or> \<not> bare_char (hd r)"

lemma bare_not_special: "bare_char c \<Longrightarrow> \<not> json_ws c \<and> punct c = None \<and> c \<noteq> 34"
  by (auto simp: bare_char_def json_ws_def punct_def cls_defs S_def)

lemma lex_bare:
  assumes "w \<noteq> []" "list_all bare_char w" "stops r" "bare_token w = Some j"
  shows "lex (w @ r) = map_option (\<lambda>ts. TLit j # ts) (lex r)"
proof -
  from assms(1,2) obtain c w' where w: "w = c # w'" "bare_char c" by (cases w) auto
  then have "takeWhile bare_char (w @ r) = w" "dropWhile bare_char (w @ r) = r"
    using assms(2,3) takeWhile_append_stop [of bare_char w r] dropWhile_append_stop [of bare_char w r]
    by (auto simp: stops_def)
  with w bare_not_special [of c] assms(4) show ?thesis
    by (subst lex.simps) simp
qed

lemma bare_S: "list_all bare_char (S s) \<longleftrightarrow> (\<forall>c \<in> set s. bare_char (of_char c))"
  by (simp add: S_def list_all_iff)

lemma int_text_matches: "re_fullmatch int_rx (py_int_str i)"
proof -
  have nat_text: "dec_digits n \<in> rx_lang (RAlt (r_lit (S ''0''))
      (RSeq (RCls (in_range CHR ''1'' CHR ''9'')) (RStar (RCls digit_cls))))" for n
  proof (cases "n = 0")
    case True
    then show ?thesis by (simp add: S_Cons)
  next
    case False
    obtain d ds where d: "dec_digits n = d # ds" by (cases "dec_digits n") auto
    with dec_digits_digits [of n] dec_digits_hd [of n] False
    have "in_range CHR ''1'' CHR ''9'' d" "list_all digit_cls ds"
      by (auto simp: is_digit_def in_range_def digit_cls_iff)
    with d show ?thesis by (simp add: seq_cls_iff del: rx_lang.simps(5))
  qed
  have sign: "[] \<in> rx_lang (r_opt (r_lit (S ''-'')))" "[45] \<in> rx_lang (r_opt (r_lit (S ''-'')))"
    by (simp_all add: S_Cons)
  show ?thesis
  proof (cases "i < 0")
    case True
    have "py_int_str i = [45] @ dec_digits (nat (- i))" using True by (simp add: py_int_str_def)
    with sign(2) nat_text show ?thesis
      unfolding re_fullmatch_iff int_rx_def seq_iff [of _ "r_opt _"] by blast
  next
    case False
    have "py_int_str i = [] @ dec_digits (nat i)" using False by (simp add: py_int_str_def)
    with sign(1) nat_text show ?thesis
      unfolding re_fullmatch_iff int_rx_def seq_iff [of _ "r_opt _"] by blast
  qed
qed

lemma int_text_bare: "list_all bare_char (py_int_str i)"
proof -
  have "list_all bare_char (dec_digits n)" for n
    using dec_digits_digits [of n]
    by (auto simp: list_all_iff bare_char_def alnum_cls_def in_range_def is_digit_def)
  then show ?thesis by (simp add: py_int_str_def bare_char_def one_of_def S_Cons)
qed

lemma int_text_not_Nil [simp]: "py_int_str i \<noteq> []"
  by (simp add: py_int_str_def)

definition int_ok :: "int \<Rightarrow> bool" where
  "int_ok i \<longleftrightarrow> length (dec_digits (nat \<bar>i\<bar>)) \<le> max_str_digits"

lemma int_of_text_str: "int_ok i \<Longrightarrow> int_of_text (py_int_str i) = Some i"
proof -
  assume ok: "int_ok i"
  obtain d ds where d: "dec_digits (nat i) = d # ds" by (cases "dec_digits (nat i)") auto
  with dec_digits_digits [of "nat i"] have "d \<noteq> 45" by (auto simp: is_digit_def)
  with ok d dec_value_digits [of "nat i"] show ?thesis
    by (cases "i < 0") (auto simp: py_int_str_def int_of_text_def int_ok_def dec_value_digits)
qed

lemma int_text_hd: "hd (py_int_str i) = 45 \<or> is_digit (hd (py_int_str i))"
  using dec_digits_digits [of "nat i"]
  by (cases "dec_digits (nat i)") (auto simp: py_int_str_def)

lemma bare_token_int: "int_ok i \<Longrightarrow> bare_token (py_int_str i) = Some (JInt i)"
proof -
  assume ok: "int_ok i"
  have ne: "py_int_str i \<noteq> S w" if "\<not> re_fullmatch int_rx (S w)" for w
    using that int_text_matches [of i] by auto
  have "py_int_str i \<noteq> S ''null''" "py_int_str i \<noteq> S ''true''" "py_int_str i \<noteq> S ''false''"
    "py_int_str i \<noteq> S ''NaN''" "py_int_str i \<noteq> S ''Infinity''" "py_int_str i \<noteq> S ''-Infinity''"
    by (rule ne, code_simp)+
  with ok show ?thesis
    by (simp add: bare_token_def int_text_matches int_of_text_str)
qed

section \<open>Documents\<close>

text \<open>
  The values \<open>dumps\<close> is asked to print: no floats, strings and integers that survive, and objects
  that are Python dicts, so with distinct member names. \<open>json_depth\<close> counts nested containers.
\<close>

fun json_ok :: "json \<Rightarrow> bool" where
  "json_ok JNull = True"
| "json_ok (JBool b) = True"
| "json_ok (JInt i) = int_ok i"
| "json_ok (JFloat t) = False"
| "json_ok (JStr s) = str_ok s"
| "json_ok (JArr vs) = list_all json_ok vs"
| "json_ok (JObj ms) =
     (distinct (map fst ms) \<and> list_all (\<lambda>(k, v). str_ok k \<and> json_ok v) ms)"

fun json_depth :: "json \<Rightarrow> nat" where
  "json_depth (JArr vs) = Suc (foldr (\<lambda>v d. max (json_depth v) d) vs 0)"
| "json_depth (JObj ms) = Suc (foldr (\<lambda>(k, v) d. max (json_depth v) d) ms 0)"
| "json_depth _ = 0"

fun comma_toks :: "tok list list \<Rightarrow> tok list" where
  "comma_toks [] = []"
| "comma_toks [x] = x"
| "comma_toks (x # y # xs) = x @ Comma # comma_toks (y # xs)"

fun tokens :: "json \<Rightarrow> tok list" where
  "tokens (JStr s) = [TStr s]"
| "tokens (JArr vs) = LBrack # comma_toks (map tokens vs) @ [RBrack]"
| "tokens (JObj ms) =
     LBrace # comma_toks (map (\<lambda>(k, v). TStr k # Colon # tokens v) ms) @ [RBrace]"
| "tokens j = [TLit j]"

lemma stops_simps [simp]:
  "stops []" "stops (44 # r)" "stops (93 # r)" "stops (125 # r)"
  by (auto simp: stops_def bare_char_def cls_defs S_def)

lemma punct_simps [simp]:
  "lex (123 # r) = map_option (\<lambda>ts. LBrace # ts) (lex r)"
  "lex (125 # r) = map_option (\<lambda>ts. RBrace # ts) (lex r)"
  "lex (91 # r) = map_option (\<lambda>ts. LBrack # ts) (lex r)"
  "lex (93 # r) = map_option (\<lambda>ts. RBrack # ts) (lex r)"
  "lex (58 # r) = map_option (\<lambda>ts. Colon # ts) (lex r)"
  "lex (44 # r) = map_option (\<lambda>ts. Comma # ts) (lex r)"
  by (simp_all add: lex_punct punct_def)

text \<open>A printed fragment lexes to the given tokens, whatever follows it.\<close>

definition lexes :: "pystr \<Rightarrow> tok list \<Rightarrow> bool" where
  "lexes s ts \<longleftrightarrow> (\<forall>r. stops r \<longrightarrow> lex (s @ r) = map_option (\<lambda>us. ts @ us) (lex r))"

lemma lexesD: "lexes s ts \<Longrightarrow> stops r \<Longrightarrow> lex (s @ r) = map_option (\<lambda>us. ts @ us) (lex r)"
  by (simp add: lexes_def)

lemma lexes_literal:
  "bare_token (S w) = Some j \<Longrightarrow> w \<noteq> [] \<Longrightarrow> list_all bare_char (S w) \<Longrightarrow> lexes (S w) [TLit j]"
  by (simp add: lexes_def lex_bare)

lemma lexes_keywords [simp]:
  "lexes (S ''null'') [TLit JNull]" "lexes (S ''true'') [TLit (JBool True)]"
  "lexes (S ''false'') [TLit (JBool False)]"
  by (rule lexes_literal; code_simp)+

lemma lexes_int: "int_ok i \<Longrightarrow> lexes (py_int_str i) [TLit (JInt i)]"
  by (simp add: lexes_def lex_bare int_text_bare bare_token_int)

lemma lexes_str: "str_ok s \<Longrightarrow> lexes (str_text s) [TStr s]"
  by (simp add: lexes_def lex_str_text)

lemma lexes_comma_join:
  "list_all2 lexes xs tss \<Longrightarrow> lexes (comma_join xs) (comma_toks tss)"
proof (induction xs arbitrary: tss rule: comma_join.induct)
  case 1
  then show ?case by (simp add: lexes_def option.map_ident)
next
  case (2 x)
  then show ?case by (auto simp: list_all2_Cons1)
next
  case (3 x y xs)
  then obtain ts us tss' where t: "tss = ts # us # tss'" "lexes x ts" "list_all2 lexes (y # xs) (us # tss')"
    by (auto simp: list_all2_Cons1)
  then have "lexes (comma_join (y # xs)) (comma_toks (us # tss'))" using "3.IH" by blast
  with t show ?case by (simp add: lexes_def option.map_comp o_def)
qed

lemma lexes_wrap:
  assumes "lexes s ts"
  shows "lexes ([91] @ s @ [93]) (LBrack # ts @ [RBrack])"
    and "lexes ([123] @ s @ [125]) (LBrace # ts @ [RBrace])"
  using assms by (simp_all add: lexes_def option.map_comp o_def)

lemma lexes_member:
  "str_ok k \<Longrightarrow> lexes s ts \<Longrightarrow> lexes (str_text k @ [58] @ s) (TStr k # Colon # ts)"
  by (simp add: lexes_def lex_str_text option.map_comp o_def)

lemma lexes_dumps: "json_ok j \<Longrightarrow> lexes (dumps j) (tokens j)"
proof (induction j rule: json_ok.induct)
  case (6 vs)
  then have "list_all2 lexes (map dumps vs) (map tokens vs)"
    unfolding list_all2_map1 list_all2_map2 by (intro list.rel_refl_strong) (auto simp: list_all_iff)
  from lexes_wrap(1) [OF lexes_comma_join [OF this]] show ?case by simp
next
  case (7 ms)
  have "lexes (str_text k @ [58] @ dumps v) (TStr k # Colon # tokens v)" if "(k, v) \<in> set ms" for k v
  proof (rule lexes_member)
    show "str_ok k" using 7(2) that by (auto simp: list_all_iff)
    show "lexes (dumps v) (tokens v)" using 7 that by (auto simp: list_all_iff)
  qed
  then have "list_all2 lexes (map (\<lambda>(k, v). str_text k @ [58] @ dumps v) ms)
      (map (\<lambda>(k, v). TStr k # Colon # tokens v) ms)"
    unfolding list_all2_map1 list_all2_map2 by (intro list.rel_refl_strong) auto
  from lexes_wrap(2) [OF lexes_comma_join [OF this]] show ?case by simp
qed (simp_all add: lexes_int lexes_str)

section \<open>The stack machine on printed tokens\<close>

lemma unique_members_distinct: "distinct (map fst ps) \<Longrightarrow> unique_members ps = Some (JObj ps)"
  by (simp add: unique_members_def)

lemma prun_open:
  "prun unique_members depth MArrFirst st (t # ts) =
     (if t = RBrack then prun unique_members depth (MDone (JArr [])) st ts
      else prun unique_members depth MValue (FArr [] # st) (t # ts))"
  by simp

definition reads :: "nat \<Rightarrow> frame list \<Rightarrow> json \<Rightarrow> bool" where
  "reads depth st j \<longleftrightarrow>
     (\<forall>ts. prun unique_members depth MValue st (tokens j @ ts) = prun unique_members depth (MDone j) st ts)"

lemma tokens_hd: "\<exists>t ts. tokens j = t # ts \<and> t \<noteq> RBrack"
  by (cases j) auto

lemma prun_array:
  assumes "vs \<noteq> []"
    and "\<And>ws. list_all (reads depth (FArr ws # st)) vs"
  shows "prun unique_members depth MValue (FArr ws # st) (comma_toks (map tokens vs) @ RBrack # ts) =
    prun unique_members depth (MDone (JArr (rev ws @ vs))) st ts"
  using assms
proof (induction vs arbitrary: ws)
  case (Cons v vs)
  have v: "reads depth (FArr ws # st) v" for ws using Cons.prems(2) by simp
  show ?case
  proof (cases vs)
    case Nil
    with v show ?thesis by (simp add: reads_def)
  next
    case (Cons w us)
    with v [of ws] Cons.IH [of "v # ws"] Cons.prems(2) show ?thesis by (simp add: reads_def)
  qed
qed simp

lemma prun_object:
  assumes "ms \<noteq> []" and "\<And>k ps. list_all (\<lambda>(_, v). reads depth (FKey ps k # st) v) ms"
    and "distinct (map fst (rev ps @ ms))"
  shows "prun unique_members depth (MKey ps) st
      (comma_toks (map (\<lambda>(k, v). TStr k # Colon # tokens v) ms) @ RBrace # ts) =
    prun unique_members depth (MDone (JObj (rev ps @ ms))) st ts"
  using assms
proof (induction ms arbitrary: ps)
  case (Cons m ms)
  obtain k v where m: "m = (k, v)" by (cases m)
  have v: "reads depth (FKey ps k # st) v" for ps k using Cons.prems(2) m by simp
  show ?case
  proof (cases ms)
    case Nil
    with v m Cons.prems(3) show ?thesis
      by (simp add: reads_def close_object_def unique_members_distinct)
  next
    case (Cons w us)
    have "distinct (map fst (rev (m # ps) @ ms))" using Cons.prems(3) by simp
    with Cons Cons.IH [of "m # ps"] Cons.prems(2)
    have "prun unique_members depth (MKey (m # ps)) st
        (comma_toks (map (\<lambda>(k, v). TStr k # Colon # tokens v) ms) @ RBrace # ts) =
      prun unique_members depth (MDone (JObj (rev (m # ps) @ ms))) st ts" by simp
    with Cons v [of ps k] m show ?thesis by (simp add: reads_def)
  qed
qed simp

lemma json_depth_member:
  "v \<in> set vs \<Longrightarrow> Suc (json_depth v) \<le> json_depth (JArr vs)"
  by (induction vs) (auto simp: le_max_iff_disj)

lemma json_depth_entry:
  "(k, v) \<in> set ms \<Longrightarrow> Suc (json_depth v) \<le> json_depth (JObj ms)"
  by (induction ms) (auto simp: le_max_iff_disj)

lemma reads_tokens: "json_ok j \<Longrightarrow> length st + json_depth j \<le> depth \<Longrightarrow> reads depth st j"
proof (induction j arbitrary: st rule: json_ok.induct)
  case (6 vs)
  have room: "length st < depth" using "6.prems"(2) by simp
  have "reads depth (FArr ws # st) v" if "v \<in> set vs" for ws v
    using 6 that json_depth_member [OF that] by (intro "6.IH") (auto simp: list_all_iff)
  then have all: "list_all (reads depth (FArr ws # st)) vs" for ws by (simp add: list_all_iff)
  show ?case
  proof (cases vs)
    case Nil
    with room show ?thesis by (simp add: reads_def open_value_def)
  next
    case (Cons v us)
    obtain t ts where t: "comma_toks (map tokens vs) = t # ts" "t \<noteq> RBrack"
      using Cons tokens_hd [of v] by (cases us) auto
    have "prun unique_members depth MValue st (tokens (JArr vs) @ q) = prun unique_members depth (MDone (JArr vs)) st q" for q
      using room t prun_array [OF _ all, of "[]" q] Cons by (simp add: open_value_def)
    then show ?thesis by (simp add: reads_def)
  qed
next
  case (7 ms)
  have room: "length st < depth" using "7.prems"(2) by simp
  have "reads depth (FKey ps k # st) v" if "(k', v) \<in> set ms" for ps k k' v
    using 7 that json_depth_entry [OF that] by (intro "7.IH" [of "(k', v)"]) (auto simp: list_all_iff)
  then have all: "list_all (\<lambda>(_, v). reads depth (FKey ps k # st) v) ms" for ps k
    by (auto simp: list_all_iff)
  have first: "prun unique_members depth MKeyFirst st q = prun unique_members depth (MKey []) st q" if "hd q \<noteq> RBrace" "q \<noteq> []" for q
    using that by (cases q) (auto split: tok.splits)
  show ?case
  proof (cases ms)
    case Nil
    with room show ?thesis by (simp add: reads_def open_value_def close_object_def unique_members_distinct)
  next
    case (Cons m us)
    obtain k v where m: "m = (k, v)" by (cases m)
    let ?toks = "comma_toks (map (\<lambda>(k, v). TStr k # Colon # tokens v) ms)"
    have "hd (?toks @ q) \<noteq> RBrace \<and> ?toks @ q \<noteq> []" for q
      using Cons m by (cases us) auto
    then have "prun unique_members depth MKeyFirst st (?toks @ RBrace # q) = prun unique_members depth (MDone (JObj ms)) st q" for q
      using first [of "?toks @ RBrace # q"] prun_object [OF _ all, of "[]" q] Cons "7.prems"(1) by simp
    with room show ?thesis by (simp add: reads_def open_value_def)
  qed
qed (simp_all add: reads_def open_value_def)

theorem loads_dumps: "json_ok j \<Longrightarrow> json_depth j \<le> depth \<Longrightarrow> json_loads depth (dumps j) = Some j"
proof -
  assume "json_ok j" "json_depth j \<le> depth"
  then have "lex (dumps j) = Some (tokens j)" "reads depth [] j"
    using lexes_dumps [of j] by (auto dest: lexesD [of _ _ "[]"] intro: reads_tokens)
  then show ?thesis
    using reads_def [of depth "[]" j] by (auto simp: json_loads_def json_loads_with_def dest: spec [of _ "[]"])
qed

lemma loads_object_dumps:
  "json_ok (JObj ms) \<Longrightarrow> json_depth (JObj ms) \<le> depth \<Longrightarrow>
     loads_object depth (dumps (JObj ms)) = Some ms"
  unfolding loads_object_def by (simp only: loads_dumps option.case json.case)

section \<open>No duplicate member names\<close>

text \<open>Whatever text it is given, a loaded document has no object with a repeated member name.\<close>

fun unique_names :: "json \<Rightarrow> bool" where
  "unique_names (JArr vs) = list_all unique_names vs"
| "unique_names (JObj ms) =
     (distinct (map fst ms) \<and> list_all (\<lambda>(k, v). unique_names v) ms)"
| "unique_names _ = True"

definition frame_unique :: "frame \<Rightarrow> bool" where
  "frame_unique f = (case f of FArr vs \<Rightarrow> list_all unique_names vs
     | FKey ms k \<Rightarrow> list_all (\<lambda>(k, v). unique_names v) ms)"

definition mode_unique :: "pmode \<Rightarrow> bool" where
  "mode_unique m = (case m of MDone v \<Rightarrow> unique_names v
     | MKey ms \<Rightarrow> list_all (\<lambda>(k, v). unique_names v) ms
     | MColon ms k \<Rightarrow> list_all (\<lambda>(k, v). unique_names v) ms | _ \<Rightarrow> True)"

definition tok_unique :: "tok \<Rightarrow> bool" where
  "tok_unique t = (case t of TLit j \<Rightarrow> unique_names j | _ \<Rightarrow> True)"

lemma open_value_unique:
  "open_value depth st t = Some (m, st') \<Longrightarrow> tok_unique t \<Longrightarrow> st' = st \<and> mode_unique m"
  by (auto simp: open_value_def tok_unique_def mode_unique_def split: tok.splits if_splits)

lemma close_object_unique:
  "close_object unique_members ms st = Some (m, st') \<Longrightarrow> list_all (\<lambda>(k, v). unique_names v) ms \<Longrightarrow>
     st' = st \<and> mode_unique m"
  by (auto simp: close_object_def unique_members_def mode_unique_def split: if_splits)

lemma pstep_unique:
  assumes "pstep unique_members depth m st t = Some (m', st')" "mode_unique m" "list_all frame_unique st" "tok_unique t"
  shows "mode_unique m' \<and> list_all frame_unique st'"
  using assms
  by (induction unique_members depth m st t rule: pstep.induct)
    (auto split: if_splits tok.splits dest!: open_value_unique close_object_unique
      simp: frame_unique_def, auto simp: mode_unique_def frame_unique_def)

lemma prun_unique:
  "prun unique_members depth m st ts = Some j \<Longrightarrow> mode_unique m \<Longrightarrow> list_all frame_unique st \<Longrightarrow>
     list_all tok_unique ts \<Longrightarrow> unique_names j"
proof (induction unique_members depth m st ts rule: prun.induct)
  case (1 depth m st)
  then show ?case by (auto simp: mode_unique_def split: pmode.splits if_splits)
next
  case (2 depth m st t ts)
  then show ?case by (auto split: option.splits dest: pstep_unique)
qed

lemma bare_token_unique: "bare_token w = Some j \<Longrightarrow> unique_names j"
  by (auto simp: bare_token_def split: if_splits)

lemma punct_unique: "punct c = Some t \<Longrightarrow> tok_unique t"
  by (auto simp: punct_def tok_unique_def split: if_splits)

lemma lex_unique: "lex s = Some ts \<Longrightarrow> list_all tok_unique ts"
proof (induction s arbitrary: ts rule: lex.induct)
  case (1 s)
  show ?case
  proof (cases s)
    case Nil
    with "1.prems" show ?thesis by simp
  next
    case (Cons c r)
    note IH = "1.IH" [OF Cons]
    note eq = "1.prems" [unfolded Cons]
    consider (ws) "json_ws c" | (punct) t where "\<not> json_ws c" "punct c = Some t"
      | (quote) "\<not> json_ws c" "punct c = None" "c = 34"
      | (bare) "\<not> json_ws c" "punct c = None" "c \<noteq> 34" by blast
    then show ?thesis
    proof cases
      case ws
      with eq IH(1) show ?thesis by (subst (asm) lex.simps) simp
    next
      case punct
      with eq IH(4) show ?thesis
        by (subst (asm) lex.simps) (auto dest: punct_unique)
    next
      case quote
      with eq IH(2) show ?thesis
        by (subst (asm) lex.simps) (auto simp: tok_unique_def [of "TStr _"] split: option.splits)
    next
      case bare
      with eq IH(3) show ?thesis
        by (subst (asm) lex.simps)
          (auto simp: Cons tok_unique_def [of "TLit _"] split: option.splits if_splits
            dest: bare_token_unique)
    qed
  qed
qed

lemma loads_unique: "json_loads depth s = Some j \<Longrightarrow> unique_names j"
  by (auto simp: json_loads_def json_loads_with_def mode_unique_def split: option.splits dest!: lex_unique
      intro: prun_unique)

lemma loads_object_unique:
  "loads_object depth s = Some ms \<Longrightarrow> distinct (map fst ms) \<and> (\<forall>(k, v) \<in> set ms. unique_names v)"
  by (auto simp: loads_object_def list_all_iff split: option.splits json.splits dest!: loads_unique)

section \<open>Printed text\<close>

text \<open>\<open>dumps\<close> prints visible ASCII only: no control character, no line end.\<close>

definition visible :: "nat \<Rightarrow> bool" where
  "visible c \<longleftrightarrow> 32 \<le> c \<and> c \<le> 126"

lemma visible_punctuation [simp]:
  "visible 34" "visible 44" "visible 45" "visible 58" "visible 91" "visible 93" "visible 123" "visible 125"
  by (simp_all add: visible_def)

lemma hex4_visible: "list_all visible (hex4 n)"
proof -
  have "visible (hex_digit (m mod 16))" for m
    using mod_less_divisor [of 16 m] unfolding visible_def hex_digit_def by auto
  then show ?thesis by (simp only: hex4_def list.pred_inject simp_thms)
qed

lemma esc_char_visible: "list_all visible (esc_char c)"
  by (simp add: esc_char_def hex4_visible) (simp add: visible_def)

lemma str_text_visible: "list_all visible (str_text s)"
proof -
  have "list_all visible (concat (map esc_char s))"
    by (induction s) (simp_all add: esc_char_visible)
  then show ?thesis by (simp add: str_text_def)
qed

lemma comma_join_visible: "list_all (list_all visible) xs \<Longrightarrow> list_all visible (comma_join xs)"
  by (induction xs rule: comma_join.induct) auto

lemma int_text_visible: "list_all visible (py_int_str i)"
proof -
  have "list_all visible (dec_digits n)" for n
    by (rule list.pred_mono_strong [OF dec_digits_digits]) (simp add: visible_def is_digit_def)
  then show ?thesis by (simp add: py_int_str_def)
qed

lemma dumps_visible: "json_ok j \<Longrightarrow> list_all visible (dumps j)"
proof (induction j rule: dumps.induct)
  case (6 vs)
  then have "list_all visible (comma_join (map dumps vs))"
    by (intro comma_join_visible) (auto simp: list_all_iff)
  then show ?case by simp
next
  case (7 ms)
  have "list_all visible (str_text k @ [58] @ dumps v)" if "(k, v) \<in> set ms" for k v
    using 7 that str_text_visible [of k] by (auto simp: list_all_iff)
  then have "list_all visible (comma_join (map (\<lambda>(k, v). str_text k @ [58] @ dumps v) ms))"
    by (intro comma_join_visible) (auto simp: list_all_iff)
  then show ?case by simp
qed (simp_all add: str_text_visible int_text_visible visible_def S_def)

end
