(* ===== verification/Pending.thy ===== *)
theory Pending
  imports JsonRoundtrip
begin

text \<open>
  \<open>src/dbsc/pending.py\<close>: the short-lived registration challenge, its validation and its stored form.
  The locale states what a record type promises its store: whatever was encoded is read back.
\<close>

section \<open>The contract of a stored record\<close>

locale record_codec =
  fixes to_json :: "'r \<Rightarrow> pystr"
    and from_json :: "pystr \<Rightarrow> 'r result"
    and storable :: "'r \<Rightarrow> bool"
  assumes decode_encode: "storable r \<Longrightarrow> from_json (to_json r) = Inr r"
    and decode_fails_corrupt: "from_json raw = Inl e \<Longrightarrow> exn_cls e = CorruptStateError"
begin

lemma encode_inject: "storable r \<Longrightarrow> storable q \<Longrightarrow> to_json r = to_json q \<Longrightarrow> r = q"
  using decode_encode by (metis Inr_inject)

end

section \<open>The record\<close>

record pending_registration =
  p_user_id :: pystr
  p_reg_challenge :: pystr
  p_reg_challenge_time :: int

definition PendingRegistration :: "pystr \<Rightarrow> pystr \<Rightarrow> int \<Rightarrow> pending_registration result" where
  "PendingRegistration user_id reg_challenge reg_challenge_time =
     bind_res
       (require (is_sf_string_safe reg_challenge) (S ''PendingRegistration.reg_challenge is unsafe.''))
       (\<lambda>_. Inr \<lparr>p_user_id = user_id, p_reg_challenge = reg_challenge,
                 p_reg_challenge_time = reg_challenge_time\<rparr>)"

definition pending_to_json :: "pending_registration \<Rightarrow> pystr" where
  "pending_to_json p =
     dumps (JObj
       [(S ''userId'', JStr (p_user_id p)),
        (S ''regChallenge'', JStr (p_reg_challenge p)),
        (S ''regChallengeTime'', JInt (p_reg_challenge_time p))])"

text \<open>The \<open>except ValueError\<close> clause of both decoders.\<close>

definition unsafe_value :: "pystr \<Rightarrow> 'a result \<Rightarrow> 'a result" where
  "unsafe_value what r =
     (case r of
        Inl e \<Rightarrow>
          if isinstance e ValueError
          then Inl (Exn CorruptStateError (what @ S '' record has an unsafe value: '' @ exn_msg e))
          else Inl e
      | Inr x \<Rightarrow> Inr x)"

definition pending_from_json :: "nat \<Rightarrow> pystr \<Rightarrow> pending_registration result" where
  "pending_from_json depth raw =
     (case loads_object depth raw of
        None \<Rightarrow> Inl (Exn CorruptStateError (S ''Pending registration record is not a JSON object''))
      | Some data \<Rightarrow>
          (case (as_str (get_member data ''userId''), as_str (get_member data ''regChallenge''),
                 as_int (get_member data ''regChallengeTime'')) of
             (Some user_id, Some reg_challenge, Some reg_challenge_time) \<Rightarrow>
               unsafe_value (S ''Pending registration'')
                 (PendingRegistration user_id reg_challenge reg_challenge_time)
           | _ \<Rightarrow> Inl (Exn CorruptStateError
                        (S ''Pending registration record has missing or wrong-typed fields''))))"

section \<open>Lemmas\<close>

definition pending_valid :: "pending_registration \<Rightarrow> bool" where
  "pending_valid p \<longleftrightarrow> is_sf_string_safe (p_reg_challenge p)"

lemma PendingRegistration_eq_Inr:
  "PendingRegistration u c t = Inr p \<longleftrightarrow>
     is_sf_string_safe c \<and> p = \<lparr>p_user_id = u, p_reg_challenge = c, p_reg_challenge_time = t\<rparr>"
  by (auto simp: PendingRegistration_def bind_res_eq_Inr)

text \<open>A valid record whose text and number Python's JSON can carry.\<close>

definition pending_storable :: "pending_registration \<Rightarrow> bool" where
  "pending_storable p \<longleftrightarrow>
     pending_valid p \<and> str_ok (p_user_id p) \<and> int_ok (p_reg_challenge_time p)"

lemma sf_safe_str_ok: "is_sf_string_safe s \<Longrightarrow> str_ok s"
  by (rule str_ok_no_surrogates)
    (auto simp: is_sf_string_safe_iff sf_char_def is_surrogate_def list_all_iff)

lemma cookie_value_str_ok: "is_cookie_value s \<Longrightarrow> str_ok s"
  by (rule str_ok_no_surrogates)
    (auto simp: is_cookie_value_iff cookie_octet_def is_surrogate_def list_all_iff)

lemma sf_safe_encodable: "is_sf_string_safe s \<Longrightarrow> encodable s"
  by (auto simp: encodable_def is_sf_string_safe_iff sf_char_def is_surrogate_def
      list_all_iff list_ex_iff)

lemma cookie_value_encodable: "is_cookie_value s \<Longrightarrow> encodable s"
  by (auto simp: encodable_def is_cookie_value_iff cookie_octet_def is_surrogate_def
      list_all_iff list_ex_iff)

lemma get_member_Cons [json_rules]:
  "get_member ((k, v) # ms) key = (if k = S key then v else get_member ms key)"
  by (auto simp: get_member_def)

lemma get_member_Nil [json_rules]: "get_member [] key = JNull"
  by (simp add: get_member_def)

lemma unsafe_value_simps [simp]:
  "unsafe_value w (Inr x) = Inr x"
  "unsafe_value w r = Inr x \<longleftrightarrow> r = Inr x"
  by (cases r; auto simp: unsafe_value_def)+

lemma pending_from_json_decodes:
  assumes "pending_storable p" and "1 \<le> depth"
  shows "pending_from_json depth (pending_to_json p) = Inr p"
proof -
  let ?ms = "[(S ''userId'', JStr (p_user_id p)), (S ''regChallenge'', JStr (p_reg_challenge p)),
     (S ''regChallengeTime'', JInt (p_reg_challenge_time p))]"
  have "loads_object depth (pending_to_json p) = Some ?ms"
    unfolding pending_to_json_def using assms
    by (intro loads_object_dumps)
      (auto simp: pending_storable_def pending_valid_def sf_safe_str_ok)
  with assms(1) show ?thesis
    by (auto simp: pending_from_json_def json_rules PendingRegistration_eq_Inr
        pending_storable_def pending_valid_def)
qed

lemma pending_from_json_valid: "pending_from_json depth raw = Inr p \<Longrightarrow> pending_valid p"
  by (auto simp: pending_from_json_def PendingRegistration_eq_Inr pending_valid_def
      split: option.splits)

lemma require_eq_Inl [simp]:
  "require b m = Inl e \<longleftrightarrow> \<not> b \<and> e = Exn ValueError (S ''DBSC: '' @ m)"
  by (auto simp: require_def)

lemma unsafe_value_eq_Inl:
  "unsafe_value w r = Inl e \<Longrightarrow> (\<And>d. r = Inl d \<Longrightarrow> isinstance d ValueError) \<Longrightarrow>
     exn_cls e = CorruptStateError"
  by (cases r) (auto simp: unsafe_value_def split: if_splits)

lemma pending_from_json_corrupt:
  "pending_from_json depth raw = Inl e \<Longrightarrow> exn_cls e = CorruptStateError"
  by (auto simp: pending_from_json_def PendingRegistration_def bind_res_eq_Inl
      split: option.splits elim!: unsafe_value_eq_Inl)

lemma pending_codec: "1 \<le> depth \<Longrightarrow> record_codec pending_to_json (pending_from_json depth) pending_storable"
  by unfold_locales (auto simp: pending_from_json_decodes dest: pending_from_json_corrupt)

interpretation pending_records: record_codec pending_to_json "pending_from_json (Suc n)" pending_storable
  for n
  by (rule pending_codec) simp

end
