(* ===== verification/Binding.thy ===== *)
theory Binding
  imports Pending
begin

text \<open>
  \<open>src/dbsc/binding.py\<close>: the device-bound session record, its validation, its stored form and its
  three transitions. Every transition goes through the constructor, so it is validated again.
\<close>

section \<open>The record\<close>

record binding =
  b_user_id :: pystr
  b_session_identifier :: pystr
  b_cookie_value :: pystr
  b_public_key_pem :: pystr
  b_algorithm :: pystr
  b_challenge :: pystr
  b_challenge_time :: int
  b_created_at :: int
  b_cookie_issued_at :: int
  b_previous_cookie_value :: pystr
  b_previous_cookie_expires_at :: int
  b_has_refreshed :: bool
  b_previous_challenge :: pystr
  b_previous_challenge_time :: int
  b_challenge_advertised :: bool

text \<open>\<open>__post_init__\<close>: the constructor's checks, in the code's order.\<close>

definition require_sf :: "string \<Rightarrow> pystr \<Rightarrow> unit result" where
  "require_sf name value =
     require (is_sf_string_safe value) (S ''Binding.'' @ S name @ S '' is not header-safe.'')"

definition require_cookie :: "string \<Rightarrow> pystr \<Rightarrow> unit result" where
  "require_cookie name value =
     require (is_cookie_value value) (S ''Binding.'' @ S name @ S '' is not cookie-safe.'')"

definition Binding :: "binding \<Rightarrow> binding result" where
  "Binding b =
     bind_res (require_sf ''session_identifier'' (b_session_identifier b)) (\<lambda>_.
     bind_res (require_sf ''challenge'' (b_challenge b)) (\<lambda>_.
     bind_res (require_sf ''previous_challenge'' (b_previous_challenge b)) (\<lambda>_.
     bind_res (require_cookie ''cookie_value'' (b_cookie_value b)) (\<lambda>_.
     bind_res (require_cookie ''previous_cookie_value'' (b_previous_cookie_value b)) (\<lambda>_.
     Inr b)))))"

text \<open>The dict that \<open>to_json\<close> prints, with the camelCase keys of the stored format.\<close>

definition binding_members :: "binding \<Rightarrow> (pystr \<times> json) list" where
  "binding_members b =
       [(S ''userId'', JStr (b_user_id b)),
        (S ''sessionIdentifier'', JStr (b_session_identifier b)),
        (S ''cookieValue'', JStr (b_cookie_value b)),
        (S ''publicKeyPem'', JStr (b_public_key_pem b)),
        (S ''algorithm'', JStr (b_algorithm b)),
        (S ''challenge'', JStr (b_challenge b)),
        (S ''challengeTime'', JInt (b_challenge_time b)),
        (S ''createdAt'', JInt (b_created_at b)),
        (S ''cookieIssuedAt'', JInt (b_cookie_issued_at b)),
        (S ''previousCookieValue'', JStr (b_previous_cookie_value b)),
        (S ''previousCookieExpiresAt'', JInt (b_previous_cookie_expires_at b)),
        (S ''hasRefreshed'', JBool (b_has_refreshed b)),
        (S ''previousChallenge'', JStr (b_previous_challenge b)),
        (S ''previousChallengeTime'', JInt (b_previous_challenge_time b)),
        (S ''challengeAdvertised'', JBool (b_challenge_advertised b))]"

definition binding_to_json :: "binding \<Rightarrow> pystr" where
  "binding_to_json b = dumps (JObj (binding_members b))"

definition binding_from_json :: "nat \<Rightarrow> pystr \<Rightarrow> binding result" where
  "binding_from_json depth raw =
     (case loads_object depth raw of
        None \<Rightarrow> Inl (Exn CorruptStateError (S ''Binding record is not a JSON object''))
      | Some data \<Rightarrow>
          (case (as_str (get_member data ''userId''), as_str (get_member data ''sessionIdentifier''),
                 as_str (get_member data ''cookieValue''), as_str (get_member data ''publicKeyPem''),
                 as_str (get_member data ''algorithm''), as_str (get_member data ''challenge''),
                 as_int (get_member data ''challengeTime''), as_int (get_member data ''createdAt'')) of
             (Some user_id, Some session_identifier, Some cookie_value, Some public_key_pem,
              Some algorithm, Some challenge, Some challenge_time, Some created_at) \<Rightarrow>
               unsafe_value (S ''Binding'')
                 (Binding
                   \<lparr>b_user_id = user_id,
                    b_session_identifier = session_identifier,
                    b_cookie_value = cookie_value,
                    b_public_key_pem = public_key_pem,
                    b_algorithm = algorithm,
                    b_challenge = challenge,
                    b_challenge_time = challenge_time,
                    b_created_at = created_at,
                    b_cookie_issued_at =
                      or_else (as_int (get_member data ''cookieIssuedAt'')) created_at,
                    b_previous_cookie_value =
                      or_else (as_str (get_member data ''previousCookieValue'')) [],
                    b_previous_cookie_expires_at =
                      or_else (as_int (get_member data ''previousCookieExpiresAt'')) 0,
                    b_has_refreshed = (get_member data ''hasRefreshed'' = JBool True),
                    b_previous_challenge =
                      or_else (as_str (get_member data ''previousChallenge'')) [],
                    b_previous_challenge_time =
                      or_else (as_int (get_member data ''previousChallengeTime'')) 0,
                    b_challenge_advertised =
                      (get_member data ''challengeAdvertised'' = JBool True)\<rparr>)
           | _ \<Rightarrow> Inl (Exn CorruptStateError (S ''Binding record has missing or wrong-typed fields''))))"

section \<open>Transitions\<close>

definition with_challenge :: "binding \<Rightarrow> pystr \<Rightarrow> int \<Rightarrow> binding result" where
  "with_challenge b challenge challenge_time =
     Binding (b
       \<lparr>b_challenge := challenge,
        b_challenge_time := challenge_time,
        b_previous_challenge := b_challenge b,
        b_previous_challenge_time := b_challenge_time b\<rparr>)"

definition mark_challenge_advertised :: "binding \<Rightarrow> binding result" where
  "mark_challenge_advertised b = Binding (b\<lparr>b_challenge_advertised := True\<rparr>)"

definition with_rotated_cookie_and_challenge ::
  "binding \<Rightarrow> pystr \<Rightarrow> pystr \<Rightarrow> int \<Rightarrow> int \<Rightarrow> int \<Rightarrow> binding result" where
  "with_rotated_cookie_and_challenge b cookie_value challenge challenge_time now
       cookie_max_age_seconds =
     Binding (b
       \<lparr>b_cookie_value := cookie_value,
        b_challenge := challenge,
        b_challenge_time := challenge_time,
        b_cookie_issued_at := now,
        b_previous_cookie_value := b_cookie_value b,
        b_previous_cookie_expires_at := b_cookie_issued_at b + cookie_max_age_seconds,
        b_has_refreshed := True,
        b_previous_challenge := [],
        b_previous_challenge_time := 0\<rparr>)"

section \<open>Validity\<close>

definition binding_valid :: "binding \<Rightarrow> bool" where
  "binding_valid b \<longleftrightarrow>
     is_sf_string_safe (b_session_identifier b) \<and> is_sf_string_safe (b_challenge b) \<and>
     is_sf_string_safe (b_previous_challenge b) \<and> is_cookie_value (b_cookie_value b) \<and>
     is_cookie_value (b_previous_cookie_value b)"

lemma Binding_eq_Inr: "Binding b = Inr c \<longleftrightarrow> binding_valid b \<and> c = b"
  by (auto simp: Binding_def bind_res_eq_Inr require_sf_def require_cookie_def binding_valid_def)

lemma Binding_valid [simp]: "binding_valid b \<Longrightarrow> Binding b = Inr b"
  by (simp add: Binding_eq_Inr)

lemma Binding_eq_Inl: "Binding b = Inl e \<Longrightarrow> \<not> binding_valid b \<and> exn_cls e = ValueError"
  by (auto simp: Binding_def bind_res_eq_Inl require_sf_def require_cookie_def binding_valid_def)

lemma is_sf_string_safe_Nil [simp]: "is_sf_string_safe []"
  by (simp add: is_sf_string_safe_iff)

lemma is_cookie_value_Nil [simp]: "is_cookie_value []"
  by (simp add: is_cookie_value_iff)

text \<open>A transition of a valid record to valid new values succeeds and keeps validity.\<close>

lemma with_challenge_ok:
  "binding_valid b \<Longrightarrow> is_sf_string_safe c \<Longrightarrow>
     with_challenge b c t = Inr (b\<lparr>b_challenge := c, b_challenge_time := t,
       b_previous_challenge := b_challenge b, b_previous_challenge_time := b_challenge_time b\<rparr>)"
  by (simp add: with_challenge_def binding_valid_def)

lemma mark_challenge_advertised_ok:
  "binding_valid b \<Longrightarrow> mark_challenge_advertised b = Inr (b\<lparr>b_challenge_advertised := True\<rparr>)"
  by (simp add: mark_challenge_advertised_def binding_valid_def)

lemma with_rotated_ok:
  "binding_valid b \<Longrightarrow> is_cookie_value v \<Longrightarrow> is_sf_string_safe c \<Longrightarrow>
     with_rotated_cookie_and_challenge b v c t n m = Inr (b
       \<lparr>b_cookie_value := v, b_challenge := c, b_challenge_time := t, b_cookie_issued_at := n,
        b_previous_cookie_value := b_cookie_value b,
        b_previous_cookie_expires_at := b_cookie_issued_at b + m, b_has_refreshed := True,
        b_previous_challenge := [], b_previous_challenge_time := 0\<rparr>)"
  by (simp add: with_rotated_cookie_and_challenge_def binding_valid_def)

lemma with_challenge_eq_Inr:
  "with_challenge b c t = Inr b' \<Longrightarrow> binding_valid b' \<and>
     b' = b\<lparr>b_challenge := c, b_challenge_time := t,
       b_previous_challenge := b_challenge b, b_previous_challenge_time := b_challenge_time b\<rparr>"
  by (auto simp: with_challenge_def Binding_eq_Inr)

lemma with_rotated_eq_Inr:
  "with_rotated_cookie_and_challenge b v c t n m = Inr b' \<Longrightarrow> binding_valid b' \<and>
     b' = b\<lparr>b_cookie_value := v, b_challenge := c, b_challenge_time := t, b_cookie_issued_at := n,
        b_previous_cookie_value := b_cookie_value b,
        b_previous_cookie_expires_at := b_cookie_issued_at b + m, b_has_refreshed := True,
        b_previous_challenge := [], b_previous_challenge_time := 0\<rparr>"
  by (auto simp: with_rotated_cookie_and_challenge_def Binding_eq_Inr)

lemma mark_advertised_eq_Inr:
  "mark_challenge_advertised b = Inr b' \<Longrightarrow>
     binding_valid b' \<and> b' = b\<lparr>b_challenge_advertised := True\<rparr>"
  by (auto simp: mark_challenge_advertised_def Binding_eq_Inr)

section \<open>The stored form\<close>

definition binding_storable :: "binding \<Rightarrow> bool" where
  "binding_storable b \<longleftrightarrow>
     binding_valid b \<and> str_ok (b_user_id b) \<and> str_ok (b_public_key_pem b) \<and> str_ok (b_algorithm b) \<and>
     int_ok (b_challenge_time b) \<and> int_ok (b_created_at b) \<and> int_ok (b_cookie_issued_at b) \<and>
     int_ok (b_previous_cookie_expires_at b) \<and> int_ok (b_previous_challenge_time b)"

lemma binding_fields [simp]:
  "\<lparr>b_user_id = b_user_id b,
    b_session_identifier = b_session_identifier b,
    b_cookie_value = b_cookie_value b,
    b_public_key_pem = b_public_key_pem b,
    b_algorithm = b_algorithm b,
    b_challenge = b_challenge b,
    b_challenge_time = b_challenge_time b,
    b_created_at = b_created_at b,
    b_cookie_issued_at = b_cookie_issued_at b,
    b_previous_cookie_value = b_previous_cookie_value b,
    b_previous_cookie_expires_at = b_previous_cookie_expires_at b,
    b_has_refreshed = b_has_refreshed b,
    b_previous_challenge = b_previous_challenge b,
    b_previous_challenge_time = b_previous_challenge_time b,
    b_challenge_advertised = b_challenge_advertised b\<rparr> = b"
  by (cases b) simp

lemma binding_from_json_decodes:
  assumes "binding_storable b" and "1 \<le> depth"
  shows "binding_from_json depth (binding_to_json b) = Inr b"
proof -
  have ok: "json_ok (JObj (binding_members b))" "json_depth (JObj (binding_members b)) \<le> depth"
    using assms
    by (auto simp: binding_members_def binding_storable_def binding_valid_def
        sf_safe_str_ok cookie_value_str_ok)
  have "loads_object depth (binding_to_json b) = Some (binding_members b)"
    unfolding binding_to_json_def by (rule loads_object_dumps [OF ok])
  with assms(1) show ?thesis
    by (simp add: binding_from_json_def binding_members_def json_rules binding_storable_def)
qed

lemma binding_from_json_valid: "binding_from_json depth raw = Inr b \<Longrightarrow> binding_valid b"
  by (auto simp: binding_from_json_def Binding_eq_Inr split: option.splits)

lemma binding_from_json_corrupt:
  "binding_from_json depth raw = Inl e \<Longrightarrow> exn_cls e = CorruptStateError"
  by (auto simp: binding_from_json_def isinstance_def split: option.splits
      elim!: unsafe_value_eq_Inl dest!: Binding_eq_Inl)

lemma binding_codec: "1 \<le> depth \<Longrightarrow> record_codec binding_to_json (binding_from_json depth) binding_storable"
  by unfold_locales (auto simp: binding_from_json_decodes dest: binding_from_json_corrupt)

interpretation binding_records: record_codec binding_to_json "binding_from_json (Suc n)" binding_storable
  for n
  by (rule binding_codec) simp

end
