(* ===== verification/Store.thy ===== *)
theory Store
  imports Binding
begin

text \<open>
  \<open>src/dbsc/store.py\<close>: the \<open>Store\<close> protocol as a record of operations, its contract as a locale
  (records live under separate keys, absence and corruption are told apart, the two conditional
  writes are atomic), and the in-memory store, which is proved to meet the contract.

  An operation takes the readings \<open>clock()\<close> gives it, which need not be whole seconds. The two conditional writes read the clock for
  the liveness of the stored record and again for the new expiry.
\<close>

section \<open>The protocol\<close>

record 's store_ops =
  put_pending_registration :: "rat \<Rightarrow> pystr \<Rightarrow> pending_registration \<Rightarrow> 's \<Rightarrow> 's"
  get_pending_registration :: "rat \<Rightarrow> pystr \<Rightarrow> 's \<Rightarrow> pending_registration option result"
  delete_pending_registration :: "pystr \<Rightarrow> 's \<Rightarrow> 's"
  put_binding :: "rat \<Rightarrow> pystr \<Rightarrow> binding \<Rightarrow> 's \<Rightarrow> 's"
  get_binding :: "rat \<Rightarrow> pystr \<Rightarrow> 's \<Rightarrow> binding option result"
  delete_session :: "pystr \<Rightarrow> 's \<Rightarrow> 's"
  commit_registration ::
    "rat \<Rightarrow> rat \<Rightarrow> pystr \<Rightarrow> pending_registration \<Rightarrow> binding \<Rightarrow> 's \<Rightarrow> bool result \<times> 's"
  replace_binding :: "rat \<Rightarrow> rat \<Rightarrow> pystr \<Rightarrow> binding \<Rightarrow> binding \<Rightarrow> 's \<Rightarrow> bool result \<times> 's"

section \<open>The contract\<close>

locale valid_store =
  fixes so :: "'s store_ops"
  assumes get_binding_valid: "get_binding so t sid s = Inr (Some b) \<Longrightarrow> binding_valid b"
    and get_pending_valid: "get_pending_registration so t sid s = Inr (Some p) \<Longrightarrow> pending_valid p"

locale session_store = valid_store so
  for so :: "'s store_ops" +
  fixes pending_ttl binding_ttl :: int
  assumes get_put_pending:
      "pending_storable p \<Longrightarrow> t \<le> of_int (py_int t0 + pending_ttl) \<Longrightarrow>
       get_pending_registration so t sid (put_pending_registration so t0 sid p s) = Inr (Some p)"
    and get_put_pending_expired:
      "pending_storable p \<Longrightarrow>
       get_pending_registration so t sid (put_pending_registration so t0 sid p s) \<in>
         {Inr (Some p), Inr None}"
    and get_put_pending_other:
      "sid' \<noteq> sid \<Longrightarrow>
       get_pending_registration so t sid' (put_pending_registration so t0 sid p s) =
         get_pending_registration so t sid' s"
    and get_binding_put_pending:
      "get_binding so t sid' (put_pending_registration so t0 sid p s) = get_binding so t sid' s"
    and get_delete_pending:
      "get_pending_registration so t sid' (delete_pending_registration so sid s) =
         (if sid' = sid then Inr None else get_pending_registration so t sid' s)"
    and get_binding_delete_pending:
      "get_binding so t sid' (delete_pending_registration so sid s) = get_binding so t sid' s"
    and get_put_binding:
      "binding_storable b \<Longrightarrow> t \<le> of_int (py_int t0 + binding_ttl) \<Longrightarrow>
       get_binding so t sid (put_binding so t0 sid b s) = Inr (Some b)"
    and get_put_binding_expired:
      "binding_storable b \<Longrightarrow>
       get_binding so t sid (put_binding so t0 sid b s) \<in> {Inr (Some b), Inr None}"
    and get_put_binding_other:
      "sid' \<noteq> sid \<Longrightarrow> get_binding so t sid' (put_binding so t0 sid b s) = get_binding so t sid' s"
    and get_pending_put_binding:
      "get_pending_registration so t sid' (put_binding so t0 sid b s) =
         get_pending_registration so t sid' s"
    and get_delete:
      "get_binding so t sid' (delete_session so sid s) =
         (if sid' = sid then Inr None else get_binding so t sid' s)"
    and get_pending_delete:
      "get_pending_registration so t sid' (delete_session so sid s) =
         (if sid' = sid then Inr None else get_pending_registration so t sid' s)"
    and commit_atomic:
      "commit_registration so t1 t2 sid offer b s =
         (case get_pending_registration so t1 sid s of
            Inl e \<Rightarrow> (Inl e, s)
          | Inr p \<Rightarrow>
              if p = Some offer
              then (Inr True, put_binding so t2 sid b (delete_pending_registration so sid s))
              else (Inr False, s))"
    and replace_atomic:
      "replace_binding so t1 t2 sid expected new s =
         (case get_binding so t1 sid s of
            Inl e \<Rightarrow> (Inl e, s)
          | Inr b \<Rightarrow>
              if b = Some expected then (Inr True, put_binding so t2 sid new s)
              else (Inr False, s))"
    and get_binding_corrupt: "get_binding so t sid s = Inl e \<Longrightarrow> exn_cls e = CorruptStateError"
    and get_pending_corrupt:
      "get_pending_registration so t sid s = Inl e \<Longrightarrow> exn_cls e = CorruptStateError"
    and binding_expiry:
      "t \<le> t' \<Longrightarrow> get_binding so t' sid s \<in> {get_binding so t sid s, Inr None}"
    and pending_expiry:
      "t \<le> t' \<Longrightarrow>
       get_pending_registration so t' sid s \<in> {get_pending_registration so t sid s, Inr None}"
begin

lemmas views =
  get_put_pending_other get_binding_put_pending get_delete_pending get_binding_delete_pending
  get_put_binding_other get_pending_put_binding get_delete get_pending_delete

text \<open>A conditional write against a record that is gone changes nothing.\<close>

lemma replace_after_delete:
  "replace_binding so t1 t2 sid expected new (delete_session so sid s) =
     (Inr False, delete_session so sid s)"
  by (simp add: replace_atomic get_delete)

lemma commit_after_delete:
  "commit_registration so t1 t2 sid offer b (delete_session so sid s) =
     (Inr False, delete_session so sid s)"
  by (simp add: commit_atomic get_pending_delete)

text \<open>Of two conditional writes against the same record, only one changes the store.\<close>

lemma replace_once:
  assumes "replace_binding so t1 t2 sid expected new s = (Inr True, s')"
    and "binding_storable new" and "new \<noteq> expected"
  shows "replace_binding so t3 t4 sid expected new' s' = (Inr False, s')"
proof -
  from assms(1) have "s' = put_binding so t2 sid new s"
    by (auto simp: replace_atomic split: sum.splits if_splits)
  then have "get_binding so t3 sid s' \<in> {Inr (Some new), Inr None}"
    using get_put_binding_expired [OF assms(2)] by simp
  with assms(3) show ?thesis by (auto simp: replace_atomic)
qed

lemma commit_once:
  assumes "commit_registration so t1 t2 sid offer b s = (Inr True, s')"
  shows "commit_registration so t3 t4 sid offer' b' s' = (Inr False, s')"
proof -
  from assms have "s' = put_binding so t2 sid b (delete_pending_registration so sid s)"
    by (auto simp: commit_atomic split: sum.splits if_splits)
  then have "get_pending_registration so t3 sid s' = Inr None"
    by (simp add: get_pending_put_binding get_delete_pending)
  then show ?thesis by (simp add: commit_atomic)
qed

text \<open>A newer offer supersedes the one a registration started from.\<close>

lemma commit_superseded:
  assumes "pending_storable p" and "p \<noteq> offer"
  shows "commit_registration so t1 t2 sid offer b (put_pending_registration so t0 sid p s) =
    (Inr False, put_pending_registration so t0 sid p s)"
proof -
  have "get_pending_registration so t1 sid (put_pending_registration so t0 sid p s)
      \<in> {Inr (Some p), Inr None}" by (rule get_put_pending_expired [OF assms(1)])
  with assms(2) show ?thesis by (auto simp: commit_atomic)
qed

lemma commit_result:
  "commit_registration so t1 t2 sid offer b s = (Inr True, s') \<longleftrightarrow>
     get_pending_registration so t1 sid s = Inr (Some offer) \<and>
     s' = put_binding so t2 sid b (delete_pending_registration so sid s)"
  by (auto simp: commit_atomic split: sum.splits if_splits)

lemma commit_unchanged:
  "commit_registration so t1 t2 sid offer b s = (r, s') \<Longrightarrow> r \<noteq> Inr True \<Longrightarrow> s' = s"
  by (auto simp: commit_atomic split: sum.splits if_splits)

lemma replace_result:
  "replace_binding so t1 t2 sid expected new s = (Inr True, s') \<longleftrightarrow>
     get_binding so t1 sid s = Inr (Some expected) \<and> s' = put_binding so t2 sid new s"
  by (auto simp: replace_atomic split: sum.splits if_splits)

lemma replace_unchanged:
  "replace_binding so t1 t2 sid expected new s = (r, s') \<Longrightarrow> r \<noteq> Inr True \<Longrightarrow> s' = s"
  by (auto simp: replace_atomic split: sum.splits if_splits)

end

section \<open>The in-memory store\<close>

type_synonym bucket = "pystr \<rightharpoonup> pystr \<times> int"

record mem_store =
  ms_reg :: bucket
  ms_bind :: bucket

definition mem_empty :: mem_store where
  "mem_empty = \<lparr>ms_reg = Map.empty, ms_bind = Map.empty\<rparr>"

definition mem_live :: "rat \<Rightarrow> bucket \<Rightarrow> pystr \<Rightarrow> pystr option" where
  "mem_live now bucket session_id =
     (case bucket session_id of
        None \<Rightarrow> None
      | Some (value, expires_at) \<Rightarrow> if expires_at < py_int now then None else Some value)"

definition mem_put_pending :: "int \<Rightarrow> rat \<Rightarrow> pystr \<Rightarrow> pending_registration \<Rightarrow> mem_store \<Rightarrow> mem_store" where
  "mem_put_pending challenge_ttl now session_id pending s =
     s\<lparr>ms_reg := (ms_reg s)(session_id \<mapsto> (pending_to_json pending, py_int now + challenge_ttl))\<rparr>"

definition mem_get_pending :: "nat \<Rightarrow> rat \<Rightarrow> pystr \<Rightarrow> mem_store \<Rightarrow> pending_registration option result" where
  "mem_get_pending depth now session_id s =
     (case mem_live now (ms_reg s) session_id of
        None \<Rightarrow> Inr None
      | Some raw \<Rightarrow> bind_res (pending_from_json depth raw) (\<lambda>p. Inr (Some p)))"

definition mem_delete_pending :: "pystr \<Rightarrow> mem_store \<Rightarrow> mem_store" where
  "mem_delete_pending session_id s = s\<lparr>ms_reg := (ms_reg s)(session_id := None)\<rparr>"

definition mem_put_binding :: "int \<Rightarrow> rat \<Rightarrow> pystr \<Rightarrow> binding \<Rightarrow> mem_store \<Rightarrow> mem_store" where
  "mem_put_binding session_lifetime now session_id binding s =
     s\<lparr>ms_bind := (ms_bind s)(session_id \<mapsto> (binding_to_json binding, py_int now + session_lifetime))\<rparr>"

definition mem_get_binding :: "nat \<Rightarrow> rat \<Rightarrow> pystr \<Rightarrow> mem_store \<Rightarrow> binding option result" where
  "mem_get_binding depth now session_id s =
     (case mem_live now (ms_bind s) session_id of
        None \<Rightarrow> Inr None
      | Some raw \<Rightarrow> bind_res (binding_from_json depth raw) (\<lambda>b. Inr (Some b)))"

definition mem_delete :: "pystr \<Rightarrow> mem_store \<Rightarrow> mem_store" where
  "mem_delete session_id s =
     s\<lparr>ms_bind := (ms_bind s)(session_id := None), ms_reg := (ms_reg s)(session_id := None)\<rparr>"

definition mem_commit_registration ::
  "nat \<Rightarrow> int \<Rightarrow> rat \<Rightarrow> rat \<Rightarrow> pystr \<Rightarrow> pending_registration \<Rightarrow> binding \<Rightarrow> mem_store \<Rightarrow>
   bool result \<times> mem_store" where
  "mem_commit_registration depth session_lifetime t_live t_put session_id offer binding s =
     (case mem_live t_live (ms_reg s) session_id of
        None \<Rightarrow> (Inr False, s)
      | Some raw \<Rightarrow>
          (case pending_from_json depth raw of
             Inl e \<Rightarrow> (Inl e, s)
           | Inr p \<Rightarrow>
               if p \<noteq> offer then (Inr False, s)
               else (Inr True,
                 s\<lparr>ms_reg := (ms_reg s)(session_id := None),
                   ms_bind := (ms_bind s)(session_id \<mapsto>
                     (binding_to_json binding, py_int t_put + session_lifetime))\<rparr>)))"

definition mem_replace_binding ::
  "nat \<Rightarrow> int \<Rightarrow> rat \<Rightarrow> rat \<Rightarrow> pystr \<Rightarrow> binding \<Rightarrow> binding \<Rightarrow> mem_store \<Rightarrow>
   bool result \<times> mem_store" where
  "mem_replace_binding depth session_lifetime t_live t_put session_id expected new s =
     (case mem_live t_live (ms_bind s) session_id of
        None \<Rightarrow> (Inr False, s)
      | Some raw \<Rightarrow>
          (case binding_from_json depth raw of
             Inl e \<Rightarrow> (Inl e, s)
           | Inr b \<Rightarrow>
               if b \<noteq> expected then (Inr False, s)
               else (Inr True,
                 s\<lparr>ms_bind := (ms_bind s)(session_id \<mapsto>
                     (binding_to_json new, py_int t_put + session_lifetime))\<rparr>)))"

definition mem_store_ops :: "nat \<Rightarrow> int \<Rightarrow> int \<Rightarrow> mem_store store_ops" where
  "mem_store_ops depth challenge_ttl session_lifetime =
     \<lparr>put_pending_registration = mem_put_pending challenge_ttl,
      get_pending_registration = mem_get_pending depth,
      delete_pending_registration = mem_delete_pending,
      put_binding = mem_put_binding session_lifetime,
      get_binding = mem_get_binding depth,
      delete_session = mem_delete,
      commit_registration = mem_commit_registration depth session_lifetime,
      replace_binding = mem_replace_binding depth session_lifetime\<rparr>"

section \<open>The in-memory store meets the contract\<close>

lemmas mem_defs = mem_put_pending_def mem_get_pending_def mem_delete_pending_def
  mem_put_binding_def mem_get_binding_def mem_delete_def mem_commit_registration_def
  mem_replace_binding_def

lemma mem_live_update [store_rules]:
  "mem_live now (b(sid \<mapsto> (v, x))) sid' =
     (if sid' = sid then (if x < py_int now then None else Some v) else mem_live now b sid')"
  by (simp add: mem_live_def)

lemma mem_live_remove [store_rules]:
  "mem_live now (b(sid := None)) sid' = (if sid' = sid then None else mem_live now b sid')"
  by (simp add: mem_live_def)

lemma mem_live_expiry: "t \<le> t' \<Longrightarrow> mem_live t' b sid \<in> {mem_live t b sid, None}"
  by (auto simp: mem_live_def split: option.splits dest: py_int_mono)

lemma mem_get_binding_expiry:
  "t \<le> t' \<Longrightarrow> mem_get_binding d t' sid s \<in> {mem_get_binding d t sid s, Inr None}"
  using mem_live_expiry [of t t' "ms_bind s" sid] by (auto simp: mem_get_binding_def)

lemma mem_get_pending_expiry:
  "t \<le> t' \<Longrightarrow> mem_get_pending d t' sid s \<in> {mem_get_pending d t sid s, Inr None}"
  using mem_live_expiry [of t t' "ms_reg s" sid] by (auto simp: mem_get_pending_def)

lemma mem_commit_atomic:
  "mem_commit_registration d life t1 t2 sid offer b s =
     (case mem_get_pending d t1 sid s of
        Inl e \<Rightarrow> (Inl e, s)
      | Inr p \<Rightarrow>
          if p = Some offer
          then (Inr True, mem_put_binding life t2 sid b (mem_delete_pending sid s))
          else (Inr False, s))"
  by (auto simp: mem_defs bind_res_def split: option.splits sum.splits)

lemma mem_replace_atomic:
  "mem_replace_binding d life t1 t2 sid expected new s =
     (case mem_get_binding d t1 sid s of
        Inl e \<Rightarrow> (Inl e, s)
      | Inr b \<Rightarrow> if b = Some expected then (Inr True, mem_put_binding life t2 sid new s)
          else (Inr False, s))"
  by (auto simp: mem_defs bind_res_def split: option.splits sum.splits)

lemma mem_get_put_pending:
  "pending_storable p \<Longrightarrow> 1 \<le> d \<Longrightarrow>
     mem_get_pending d t sid (mem_put_pending ttl t0 sid p s) =
       (if py_int t0 + ttl < py_int t then Inr None else Inr (Some p))"
  by (simp add: mem_defs store_rules pending_from_json_decodes)

lemma mem_get_put_binding:
  "binding_storable b \<Longrightarrow> 1 \<le> d \<Longrightarrow>
     mem_get_binding d t sid (mem_put_binding life t0 sid b s) =
       (if py_int t0 + life < py_int t then Inr None else Inr (Some b))"
  by (simp add: mem_defs store_rules binding_from_json_decodes)

text \<open>Reads of the other key space, or of another session, do not see a write.\<close>

lemma mem_frames [store_rules]:
  "sid' \<noteq> sid \<Longrightarrow>
     mem_get_pending d t sid' (mem_put_pending ttl t0 sid p s) = mem_get_pending d t sid' s"
  "mem_get_binding d t sid' (mem_put_pending ttl t0 sid p s) = mem_get_binding d t sid' s"
  "mem_get_pending d t sid' (mem_delete_pending sid s) =
     (if sid' = sid then Inr None else mem_get_pending d t sid' s)"
  "mem_get_binding d t sid' (mem_delete_pending sid s) = mem_get_binding d t sid' s"
  "sid' \<noteq> sid \<Longrightarrow>
     mem_get_binding d t sid' (mem_put_binding life t0 sid b s) = mem_get_binding d t sid' s"
  "mem_get_pending d t sid' (mem_put_binding life t0 sid b s) = mem_get_pending d t sid' s"
  "mem_get_binding d t sid' (mem_delete sid s) =
     (if sid' = sid then Inr None else mem_get_binding d t sid' s)"
  "mem_get_pending d t sid' (mem_delete sid s) =
     (if sid' = sid then Inr None else mem_get_pending d t sid' s)"
  by (simp_all add: mem_defs store_rules)

lemma mem_get_binding_eq_Inr:
  "mem_get_binding d t sid s = Inr (Some b) \<Longrightarrow> binding_valid b"
  by (auto simp: mem_get_binding_def bind_res_eq_Inr split: option.splits
      dest: binding_from_json_valid)

lemma mem_get_pending_eq_Inr:
  "mem_get_pending d t sid s = Inr (Some p) \<Longrightarrow> pending_valid p"
  by (auto simp: mem_get_pending_def bind_res_eq_Inr split: option.splits
      dest: pending_from_json_valid)

lemma mem_get_eq_Inl:
  "mem_get_binding d t sid s = Inl e \<Longrightarrow> exn_cls e = CorruptStateError"
  "mem_get_pending d t sid s = Inl e \<Longrightarrow> exn_cls e = CorruptStateError"
  by (auto simp: mem_get_binding_def mem_get_pending_def bind_res_eq_Inl split: option.splits
      dest: binding_from_json_corrupt pending_from_json_corrupt)

lemma mem_meets_contract:
  "1 \<le> depth \<Longrightarrow> session_store (mem_store_ops depth ttl life) ttl life"
  by unfold_locales
    (simp_all add: mem_store_ops_def mem_get_put_pending mem_get_put_binding store_rules
      mem_get_binding_eq_Inr mem_get_pending_eq_Inr mem_get_eq_Inl
      mem_commit_atomic mem_replace_atomic not_less py_int_le
      mem_get_binding_expiry [simplified] mem_get_pending_expiry [simplified]
      split: sum.split)

interpretation mem: session_store "mem_store_ops (Suc n) ttl life" ttl life
  for n ttl life
  by (rule mem_meets_contract) simp

end
