(* ===== verification/Settings.thy ===== *)
theory Settings
  imports JsonRoundtrip
begin

text \<open>
  \<open>src/dbsc/scope.py\<close> and \<open>src/dbsc/config.py\<close>: the scope rules and the static configuration, with
  the checks their constructors make, and what a configuration that was accepted guarantees.
\<close>

section \<open>Scope rules\<close>

datatype scope_rule_type = INCLUDE | EXCLUDE

definition scope_type_value :: "scope_rule_type \<Rightarrow> pystr" where
  "scope_type_value t = (case t of INCLUDE \<Rightarrow> S ''include'' | EXCLUDE \<Rightarrow> S ''exclude'')"

definition ScopeRuleType :: "pystr \<Rightarrow> scope_rule_type option" where
  "ScopeRuleType v =
     (if v = S ''include'' then Some INCLUDE else if v = S ''exclude'' then Some EXCLUDE else None)"

record scope_rule =
  sr_type :: scope_rule_type
  sr_domain :: "pystr option"
  sr_path :: "pystr option"

definition ScopeRule :: "pystr \<Rightarrow> pystr option \<Rightarrow> pystr option \<Rightarrow> scope_rule result" where
  "ScopeRule type domain path =
     (case ScopeRuleType type of
        None \<Rightarrow> Inl (Exn ValueError (S ''DBSC: scope rule type must be '' @ [34] @ S ''include'' @ [34] @
          S '' or '' @ [34] @ S ''exclude'' @ [34] @ S ''.''))
      | Some t \<Rightarrow>
          bind_res (require (domain \<noteq> None \<or> path \<noteq> None)
            (S ''a scope rule needs a domain, a path, or both.'')) (\<lambda>_.
          bind_res (require (case path of None \<Rightarrow> True | Some p \<Rightarrow> is_path p)
            (S ''a scope rule path must be an absolute URL path (no '' @ [39] @ S ''//'' @ [39] @
             S '' prefix).'')) (\<lambda>_.
          bind_res (require (case domain of None \<Rightarrow> True | Some d \<Rightarrow> is_host_pattern d)
            (S ''a scope rule domain must be a host pattern (no scheme or path).'')) (\<lambda>_.
          Inr \<lparr>sr_type = t, sr_domain = domain, sr_path = path\<rparr>))))"

definition scope_include :: "pystr option \<Rightarrow> pystr option \<Rightarrow> scope_rule result" where
  "scope_include path domain = ScopeRule (scope_type_value INCLUDE) domain path"

definition scope_exclude :: "pystr option \<Rightarrow> pystr option \<Rightarrow> scope_rule result" where
  "scope_exclude path domain = ScopeRule (scope_type_value EXCLUDE) domain path"

definition scope_to_dict :: "scope_rule \<Rightarrow> (pystr \<times> json) list" where
  "scope_to_dict r =
     [(S ''type'', JStr (scope_type_value (sr_type r)))] @
     (case sr_domain r of None \<Rightarrow> [] | Some d \<Rightarrow> [(S ''domain'', JStr d)]) @
     (case sr_path r of None \<Rightarrow> [] | Some p \<Rightarrow> [(S ''path'', JStr p)])"

definition scope_rule_valid :: "scope_rule \<Rightarrow> bool" where
  "scope_rule_valid r \<longleftrightarrow>
     (sr_domain r \<noteq> None \<or> sr_path r \<noteq> None) \<and>
     pred_option is_path (sr_path r) \<and> pred_option is_host_pattern (sr_domain r)"

lemma ScopeRule_eq_Inr:
  "ScopeRule t d p = Inr r \<longleftrightarrow> scope_rule_valid r \<and> scope_type_value (sr_type r) = t \<and>
     sr_domain r = d \<and> sr_path r = p"
  by (cases r)
    (auto simp: ScopeRule_def bind_res_eq_Inr scope_rule_valid_def ScopeRuleType_def
      scope_type_value_def split: option.splits scope_rule_type.splits if_splits)

section \<open>Configuration\<close>

definition MAX_COOKIE_MAX_AGE_SECONDS :: int where
  "MAX_COOKIE_MAX_AGE_SECONDS = 3600"

definition MAX_CHALLENGE_TTL_SECONDS :: int where
  "MAX_CHALLENGE_TTL_SECONDS = 86400"

definition MAX_REGISTRATION_GRACE_SECONDS :: int where
  "MAX_REGISTRATION_GRACE_SECONDS = 60"

record config =
  cfg_cookie_name :: pystr
  cfg_cookie_max_age_seconds :: int
  cfg_register_path :: pystr
  cfg_refresh_path :: pystr
  cfg_challenge_ttl_seconds :: int
  cfg_registration_grace_seconds :: int
  cfg_cookie_same_site :: pystr
  cfg_allowed_refresh_initiators :: "pystr list"
  cfg_scope_specification :: "scope_rule list"

definition config_defaults :: config where
  "config_defaults =
     \<lparr>cfg_cookie_name = S ''__Host-dbsc'',
      cfg_cookie_max_age_seconds = 300,
      cfg_register_path = S ''/dbsc/register'',
      cfg_refresh_path = S ''/dbsc/refresh'',
      cfg_challenge_ttl_seconds = 900,
      cfg_registration_grace_seconds = 5,
      cfg_cookie_same_site = S ''Lax'',
      cfg_allowed_refresh_initiators = [],
      cfg_scope_specification = []\<rparr>"

definition path_message :: "string \<Rightarrow> pystr" where
  "path_message name = S name @ S '' must be an absolute path of URL path characters (no '' @
     [39] @ S ''//'' @ [39] @ S '' prefix).''"

definition Config :: "config \<Rightarrow> config result" where
  "Config c =
     bind_res (require (is_cookie_name (cfg_cookie_name c))
       (S ''cookie_name must be a cookie-name token with the __Host- prefix.'')) (\<lambda>_.
     bind_res (require (is_path (cfg_register_path c)) (path_message ''register_path'')) (\<lambda>_.
     bind_res (require (is_path (cfg_refresh_path c)) (path_message ''refresh_path'')) (\<lambda>_.
     bind_res (require (cfg_cookie_same_site c \<in> set SAME_SITE_VALUES)
       (S ''cookie_same_site must be one of ['' @ [39] @ S ''Lax'' @ [39] @ S '', '' @ [39] @
        S ''None'' @ [39] @ S '', '' @ [39] @ S ''Strict'' @ [39] @ S ''].'')) (\<lambda>_.
     bind_res (require
       (1 \<le> cfg_cookie_max_age_seconds c \<and> cfg_cookie_max_age_seconds c \<le> MAX_COOKIE_MAX_AGE_SECONDS)
       (S ''cookie_max_age_seconds must be 1-'' @ py_int_str MAX_COOKIE_MAX_AGE_SECONDS @ S ''.'')) (\<lambda>_.
     bind_res (require (cfg_challenge_ttl_seconds c \<le> MAX_CHALLENGE_TTL_SECONDS)
       (S ''challenge_ttl_seconds must be at most '' @ py_int_str MAX_CHALLENGE_TTL_SECONDS @
        S ''.'')) (\<lambda>_.
     bind_res (require (cfg_challenge_ttl_seconds c > cfg_cookie_max_age_seconds c)
       (S ''challenge_ttl_seconds must exceed cookie_max_age_seconds, else the browser'' @ [39] @
        S ''s cached challenge expires before it can use it just before cookie expiry.'')) (\<lambda>_.
     bind_res (require
       (0 \<le> cfg_registration_grace_seconds c \<and>
        cfg_registration_grace_seconds c \<le> MAX_REGISTRATION_GRACE_SECONDS)
       (S ''registration_grace_seconds must be 0-'' @ py_int_str MAX_REGISTRATION_GRACE_SECONDS @
        S ''.'')) (\<lambda>_.
     bind_res (host_patterns (cfg_allowed_refresh_initiators c) (S ''allowed_refresh_initiators''))
       (\<lambda>hosts.
     Inr (c\<lparr>cfg_allowed_refresh_initiators := hosts\<rparr>))))))))))"

definition config_valid :: "config \<Rightarrow> bool" where
  "config_valid c \<longleftrightarrow>
     is_cookie_name (cfg_cookie_name c) \<and> is_path (cfg_register_path c) \<and>
     is_path (cfg_refresh_path c) \<and> cfg_cookie_same_site c \<in> set SAME_SITE_VALUES \<and>
     1 \<le> cfg_cookie_max_age_seconds c \<and> cfg_cookie_max_age_seconds c \<le> 3600 \<and>
     cfg_cookie_max_age_seconds c < cfg_challenge_ttl_seconds c \<and>
     cfg_challenge_ttl_seconds c \<le> 86400 \<and>
     0 \<le> cfg_registration_grace_seconds c \<and> cfg_registration_grace_seconds c \<le> 60 \<and>
     list_all is_host_pattern (cfg_allowed_refresh_initiators c)"

lemma Config_eq_Inr_valid: "Config c = Inr d \<Longrightarrow> config_valid d"
  by (auto simp: Config_def bind_res_eq_Inr config_valid_def host_patterns_eq_Inr
      MAX_COOKIE_MAX_AGE_SECONDS_def MAX_CHALLENGE_TTL_SECONDS_def MAX_REGISTRATION_GRACE_SECONDS_def)

lemma Config_valid_accepts:
  assumes "config_valid c" and "list_all (\<lambda>h. py_strip h = h \<and> h \<noteq> []) (cfg_allowed_refresh_initiators c)"
  shows "Config c = Inr c"
proof -
  have "map py_strip (cfg_allowed_refresh_initiators c) = cfg_allowed_refresh_initiators c"
    using assms(2) by (auto simp: list_all_iff intro: map_idI)
  then have "host_patterns (cfg_allowed_refresh_initiators c) w = Inr (cfg_allowed_refresh_initiators c)" for w
    using assms by (auto simp: host_patterns_eq_Inr config_valid_def list_all_iff intro!: filter_True [symmetric])
  with assms(1) show ?thesis
    by (auto simp: Config_def config_valid_def require_def
      MAX_COOKIE_MAX_AGE_SECONDS_def MAX_CHALLENGE_TTL_SECONDS_def MAX_REGISTRATION_GRACE_SECONDS_def)
qed

lemma config_defaults_valid: "config_valid config_defaults"
  by code_simp

end
