(* ===== verification/Wire.thy ===== *)
theory Wire
  imports Settings
begin

text \<open>
  \<open>src/dbsc/request.py\<close>, \<open>src/dbsc/response.py\<close> and \<open>src/dbsc/audit.py\<close>: the request the host hands
  in, the response it must emit, and the audit events.
\<close>

section \<open>Requests\<close>

record request_context =
  rc_session_id :: pystr
  rc_user_id :: pystr
  rc_origin_host_url :: pystr
  rc_headers :: "pystr \<rightharpoonup> pystr"
  rc_cookies :: "pystr \<rightharpoonup> pystr"
  rc_allowed_refresh_initiators :: "pystr list option"
  rc_scope_specification :: "scope_rule list option"

text \<open>
  The constructor takes the items of the host's mappings in their order; lower-casing may make two
  header names equal, and then the later item wins, as in the code's dict comprehension.
\<close>

definition dict_of_items :: "(pystr \<times> pystr) list \<Rightarrow> pystr \<rightharpoonup> pystr" where
  "dict_of_items items = map_of (rev items)"

definition RequestContext ::
  "pystr \<Rightarrow> pystr \<Rightarrow> pystr \<Rightarrow> (pystr \<times> pystr) list \<Rightarrow> (pystr \<times> pystr) list \<Rightarrow>
   pystr list option \<Rightarrow> scope_rule list option \<Rightarrow> request_context result" where
  "RequestContext session_id user_id origin_host_url headers cookies initiators scope =
     bind_res (require (is_origin origin_host_url)
       (S ''origin_host_url must be an https origin (scheme://host[:port], no path); '' @
        S ''plain http is only allowed on loopback.'')) (\<lambda>_.
     bind_res
       (case initiators of
          None \<Rightarrow> Inr None
        | Some hs \<Rightarrow> bind_res (host_patterns hs (S ''allowed_refresh_initiators'')) (\<lambda>h. Inr (Some h)))
       (\<lambda>initiators'.
     Inr \<lparr>rc_session_id = session_id,
          rc_user_id = user_id,
          rc_origin_host_url = origin_host_url,
          rc_headers = dict_of_items (map (\<lambda>(name, value). (py_lower name, value)) headers),
          rc_cookies = dict_of_items cookies,
          rc_allowed_refresh_initiators = initiators',
          rc_scope_specification = scope\<rparr>))"

definition header :: "request_context \<Rightarrow> pystr \<Rightarrow> pystr option" where
  "header ctx name = rc_headers ctx (py_lower name)"

definition cookie :: "request_context \<Rightarrow> pystr \<Rightarrow> pystr option" where
  "cookie ctx name = rc_cookies ctx name"

lemma header_case_insensitive: "py_lower m = py_lower n \<Longrightarrow> header ctx m = header ctx n"
  by (simp add: header_def)

lemma RequestContext_eq_Inr_origin:
  "RequestContext sid u org hs cs i sc = Inr ctx \<Longrightarrow> is_origin (rc_origin_host_url ctx)"
  by (auto simp: RequestContext_def bind_res_eq_Inr)

section \<open>Responses\<close>

record set_cookie =
  ck_name :: pystr
  ck_value :: pystr
  ck_expires_at :: int
  ck_delete :: bool
  ck_path :: pystr
  ck_secure :: bool
  ck_http_only :: bool
  ck_same_site :: pystr

definition Cookie :: "pystr \<Rightarrow> pystr \<Rightarrow> int \<Rightarrow> pystr \<Rightarrow> set_cookie" where
  "Cookie name value expires_at same_site =
     \<lparr>ck_name = name, ck_value = value, ck_expires_at = expires_at, ck_delete = False,
      ck_path = S ''/'', ck_secure = True, ck_http_only = True, ck_same_site = same_site\<rparr>"

definition cookie_deletion :: "pystr \<Rightarrow> set_cookie" where
  "cookie_deletion name =
     \<lparr>ck_name = name, ck_value = [], ck_expires_at = 0, ck_delete = True,
      ck_path = S ''/'', ck_secure = True, ck_http_only = True, ck_same_site = S ''Lax''\<rparr>"

record dbsc_response =
  rs_headers :: "(pystr \<times> pystr) list"
  rs_cookies :: "set_cookie list"
  rs_status :: "int option"
  rs_body :: "pystr option"
  rs_content_type :: "pystr option"

definition empty_response :: dbsc_response where
  "empty_response =
     \<lparr>rs_headers = [], rs_cookies = [], rs_status = None, rs_body = None, rs_content_type = None\<rparr>"

section \<open>Audit events\<close>

datatype audit_event =
    REGISTERED
  | REGISTRATION_FAILED
  | REFRESHED
  | REFRESH_FAILED
  | REFRESH_RETRYABLE
  | REVOKED
  | ENFORCEMENT_TERMINATED

fun audit_value :: "audit_event \<Rightarrow> pystr" where
  "audit_value REGISTERED = S ''dbscRegistered''"
| "audit_value REGISTRATION_FAILED = S ''dbscRegistrationFailed''"
| "audit_value REFRESHED = S ''dbscRefreshed''"
| "audit_value REFRESH_FAILED = S ''dbscRefreshFailed''"
| "audit_value REFRESH_RETRYABLE = S ''dbscRefreshRetryable''"
| "audit_value REVOKED = S ''dbscRevoked''"
| "audit_value ENFORCEMENT_TERMINATED = S ''dbscEnforcementTerminated''"

lemma audit_value_inject: "audit_value a = audit_value b \<longleftrightarrow> a = b"
  by (cases a; cases b) simp_all

end
