(* ===== verification/Prog.thy ===== *)
theory Prog
  imports Store Wire
begin

text \<open>
  How the server's coroutines are modelled. A coroutine is a tree of the effects it awaits or
  calls: reading the clock, drawing a random token, writing an audit entry, and the store's
  operations, each with the continuation for its reply. One tree gives both semantics: \<open>exec\<close> runs
  it alone in a world, and \<open>gsteps\<close> interleaves any number of them at every effect, which is at
  least as often as the event loop can switch at an \<open>await\<close>.
\<close>

section \<open>Coroutines\<close>

datatype 'a prog =
    Return 'a
  | Raise exn
  | Now "int \<Rightarrow> 'a prog"
  | TokenHex nat "pystr \<Rightarrow> 'a prog"
  | Log audit_event pystr pystr "'a prog"
  | PutPending pystr pending_registration "'a prog"
  | GetPending pystr "pending_registration option result \<Rightarrow> 'a prog"
  | GetBinding pystr "binding option result \<Rightarrow> 'a prog"
  | DeleteSession pystr "'a prog"
  | CommitRegistration pystr pending_registration binding "bool result \<Rightarrow> 'a prog"
  | ReplaceBinding pystr binding binding "bool result \<Rightarrow> 'a prog"

text \<open>Calling a function that may raise: the exception propagates.\<close>

definition lift_res :: "'a result \<Rightarrow> ('a \<Rightarrow> 'b prog) \<Rightarrow> 'b prog" where
  "lift_res r k = (case r of Inl e \<Rightarrow> Raise e | Inr x \<Rightarrow> k x)"

lemma lift_res_simps [simp]: "lift_res (Inl e) k = Raise e" "lift_res (Inr x) k = k x"
  by (simp_all add: lift_res_def)

text \<open>Awaiting a coroutine, and \<open>try: ... except\<close> around one.\<close>

primrec bind :: "'a prog \<Rightarrow> ('a \<Rightarrow> 'b prog) \<Rightarrow> 'b prog" where
  "bind (Return x) f = f x"
| "bind (Raise e) f = Raise e"
| "bind (Now k) f = Now (\<lambda>t. bind (k t) f)"
| "bind (TokenHex n k) f = TokenHex n (\<lambda>v. bind (k v) f)"
| "bind (Log ev m u p) f = Log ev m u (bind p f)"
| "bind (PutPending sid r p) f = PutPending sid r (bind p f)"
| "bind (GetPending sid k) f = GetPending sid (\<lambda>r. bind (k r) f)"
| "bind (GetBinding sid k) f = GetBinding sid (\<lambda>r. bind (k r) f)"
| "bind (DeleteSession sid p) f = DeleteSession sid (bind p f)"
| "bind (CommitRegistration sid r b k) f = CommitRegistration sid r b (\<lambda>x. bind (k x) f)"
| "bind (ReplaceBinding sid e n k) f = ReplaceBinding sid e n (\<lambda>x. bind (k x) f)"

primrec try_catch :: "'a prog \<Rightarrow> (exn \<Rightarrow> 'b prog) \<Rightarrow> ('a \<Rightarrow> 'b prog) \<Rightarrow> 'b prog" where
  "try_catch (Return x) h f = f x"
| "try_catch (Raise e) h f = h e"
| "try_catch (Now k) h f = Now (\<lambda>t. try_catch (k t) h f)"
| "try_catch (TokenHex n k) h f = TokenHex n (\<lambda>v. try_catch (k v) h f)"
| "try_catch (Log ev m u p) h f = Log ev m u (try_catch p h f)"
| "try_catch (PutPending sid r p) h f = PutPending sid r (try_catch p h f)"
| "try_catch (GetPending sid k) h f = GetPending sid (\<lambda>r. try_catch (k r) h f)"
| "try_catch (GetBinding sid k) h f = GetBinding sid (\<lambda>r. try_catch (k r) h f)"
| "try_catch (DeleteSession sid p) h f = DeleteSession sid (try_catch p h f)"
| "try_catch (CommitRegistration sid r b k) h f =
     CommitRegistration sid r b (\<lambda>x. try_catch (k x) h f)"
| "try_catch (ReplaceBinding sid e n k) h f = ReplaceBinding sid e n (\<lambda>x. try_catch (k x) h f)"

section \<open>The world\<close>

text \<open>
  The store, the clock as the sequence of readings it will give (the server's clock and the store's
  clock together, so nothing is assumed about how they relate), the random bytes to come, and the
  audit log.
\<close>

record 's world =
  w_store :: 's
  w_clock :: "nat \<Rightarrow> rat"
  w_ticks :: nat
  w_entropy :: "nat \<Rightarrow> nat"
  w_drawn :: nat
  w_audit :: "(audit_event \<times> pystr \<times> pystr) list"

definition reading :: "'s world \<Rightarrow> nat \<Rightarrow> rat" where
  "reading w i = w_clock w (w_ticks w + i)"

definition tick :: "'s world \<Rightarrow> nat \<Rightarrow> int" where
  "tick w i = py_int (reading w i)"

definition pass :: "nat \<Rightarrow> 's world \<Rightarrow> 's world" where
  "pass n w = w\<lparr>w_ticks := w_ticks w + n\<rparr>"

definition token_hex :: "nat \<Rightarrow> 's world \<Rightarrow> pystr \<times> 's world" where
  "token_hex n w =
     (hexlify (map (w_entropy w) [w_drawn w ..< w_drawn w + n]), w\<lparr>w_drawn := w_drawn w + n\<rparr>)"

definition log_entry :: "audit_event \<Rightarrow> pystr \<Rightarrow> pystr \<Rightarrow> 's world \<Rightarrow> 's world" where
  "log_entry ev m u w = w\<lparr>w_audit := w_audit w @ [(ev, m, u)]\<rparr>"

definition on_store :: "('s \<Rightarrow> 's) \<Rightarrow> 's world \<Rightarrow> 's world" where
  "on_store f w = w\<lparr>w_store := f (w_store w)\<rparr>"

section \<open>Running alone\<close>

primrec exec :: "'s store_ops \<Rightarrow> 'a prog \<Rightarrow> 's world \<Rightarrow> 'a result \<times> 's world" where
  "exec so (Return x) w = (Inr x, w)"
| "exec so (Raise e) w = (Inl e, w)"
| "exec so (Now k) w = exec so (k (tick w 0)) (pass 1 w)"
| "exec so (TokenHex n k) w = exec so (k (fst (token_hex n w))) (snd (token_hex n w))"
| "exec so (Log ev m u p) w = exec so p (log_entry ev m u w)"
| "exec so (PutPending sid r p) w =
     exec so p (on_store (put_pending_registration so (reading w 0) sid r) (pass 1 w))"
| "exec so (GetPending sid k) w =
     exec so (k (get_pending_registration so (reading w 0) sid (w_store w))) (pass 1 w)"
| "exec so (GetBinding sid k) w =
     exec so (k (get_binding so (reading w 0) sid (w_store w))) (pass 1 w)"
| "exec so (DeleteSession sid p) w = exec so p (on_store (delete_session so sid) w)"
| "exec so (CommitRegistration sid r b k) w =
     exec so (k (fst (commit_registration so (reading w 0) (reading w 1) sid r b (w_store w))))
       (on_store (\<lambda>s. snd (commit_registration so (reading w 0) (reading w 1) sid r b s)) (pass 2 w))"
| "exec so (ReplaceBinding sid e n k) w =
     exec so (k (fst (replace_binding so (reading w 0) (reading w 1) sid e n (w_store w))))
       (on_store (\<lambda>s. snd (replace_binding so (reading w 0) (reading w 1) sid e n s)) (pass 2 w))"

lemma py_int_reading [simp]: "py_int (reading w i) = tick w i"
  by (simp add: tick_def)

lemma world_simps [simp]:
  "w_store (pass n w) = w_store w" "w_store (log_entry ev m u w) = w_store w"
  "w_store (on_store f w) = f (w_store w)" "w_store (snd (token_hex n w)) = w_store w"
  "reading (pass n w) i = reading w (n + i)" "reading (log_entry ev m u w) i = reading w i"
  "reading (on_store f w) i = reading w i" "reading (snd (token_hex n w)) i = reading w i"
  "tick (pass n w) i = tick w (n + i)" "tick (log_entry ev m u w) i = tick w i"
  "tick (on_store f w) i = tick w i" "tick (snd (token_hex n w)) i = tick w i"
  "w_audit (pass n w) = w_audit w" "w_audit (log_entry ev m u w) = w_audit w @ [(ev, m, u)]"
  "w_audit (on_store f w) = w_audit w" "w_audit (snd (token_hex n w)) = w_audit w"
  "w_entropy (pass n w) = w_entropy w" "w_entropy (log_entry ev m u w) = w_entropy w"
  "w_entropy (on_store f w) = w_entropy w" "w_entropy (snd (token_hex n w)) = w_entropy w"
  "w_drawn (pass n w) = w_drawn w" "w_drawn (log_entry ev m u w) = w_drawn w"
  "w_drawn (on_store f w) = w_drawn w" "w_drawn (snd (token_hex n w)) = w_drawn w + n"
  by (simp_all add: pass_def log_entry_def on_store_def token_hex_def tick_def reading_def ac_simps)

lemma exec_bind:
  "exec so (bind p f) w =
     (case exec so p w of (Inl e, w') \<Rightarrow> (Inl e, w') | (Inr x, w') \<Rightarrow> exec so (f x) w')"
  by (induction p arbitrary: w) auto

lemma exec_try_catch:
  "exec so (try_catch p h f) w =
     (case exec so p w of (Inl e, w') \<Rightarrow> exec so (h e) w' | (Inr x, w') \<Rightarrow> exec so (f x) w')"
  by (induction p arbitrary: w) auto

section \<open>Effects as events\<close>

datatype event =
    ENow int
  | EToken nat pystr
  | ELog audit_event pystr pystr
  | EPutPending pystr pending_registration
  | EGetPending pystr "pending_registration option result"
  | EGetBinding pystr "binding option result"
  | EDelete pystr
  | ECommit pystr pending_registration binding "bool result"
  | EReplace pystr binding binding "bool result"

text \<open>
  \<open>runs p evs out\<close>: with the replies the events record, \<open>p\<close> performs exactly these effects in this
  order and ends with \<open>out\<close>. Nothing is assumed about where the replies come from.
\<close>

primrec runs :: "'a prog \<Rightarrow> event list \<Rightarrow> 'a result \<Rightarrow> bool" where
  "runs (Return x) evs out = (evs = [] \<and> out = Inr x)"
| "runs (Raise e) evs out = (evs = [] \<and> out = Inl e)"
| "runs (Now k) evs out = (case evs of ENow t # es \<Rightarrow> runs (k t) es out | _ \<Rightarrow> False)"
| "runs (TokenHex n k) evs out =
     (case evs of EToken m v # es \<Rightarrow> m = n \<and> runs (k v) es out | _ \<Rightarrow> False)"
| "runs (Log ev m u p) evs out = (case evs of e # es \<Rightarrow> e = ELog ev m u \<and> runs p es out | _ \<Rightarrow> False)"
| "runs (PutPending sid r p) evs out =
     (case evs of e # es \<Rightarrow> e = EPutPending sid r \<and> runs p es out | _ \<Rightarrow> False)"
| "runs (GetPending sid k) evs out =
     (case evs of EGetPending i r # es \<Rightarrow> i = sid \<and> runs (k r) es out | _ \<Rightarrow> False)"
| "runs (GetBinding sid k) evs out =
     (case evs of EGetBinding i r # es \<Rightarrow> i = sid \<and> runs (k r) es out | _ \<Rightarrow> False)"
| "runs (DeleteSession sid p) evs out =
     (case evs of e # es \<Rightarrow> e = EDelete sid \<and> runs p es out | _ \<Rightarrow> False)"
| "runs (CommitRegistration sid q b k) evs out =
     (case evs of ECommit i q' b' r # es \<Rightarrow> i = sid \<and> q' = q \<and> b' = b \<and> runs (k r) es out | _ \<Rightarrow> False)"
| "runs (ReplaceBinding sid e n k) evs out =
     (case evs of EReplace i e' n' r # es \<Rightarrow> i = sid \<and> e' = e \<and> n' = n \<and> runs (k r) es out | _ \<Rightarrow> False)"

text \<open>One effect of a coroutine in a world.\<close>

fun step :: "'s store_ops \<Rightarrow> 'a prog \<Rightarrow> 's world \<Rightarrow> (event \<times> 'a prog \<times> 's world) option" where
  "step so (Return x) w = None"
| "step so (Raise e) w = None"
| "step so (Now k) w = Some (ENow (tick w 0), k (tick w 0), pass 1 w)"
| "step so (TokenHex n k) w =
     (let (v, w') = token_hex n w in Some (EToken n v, k v, w'))"
| "step so (Log ev m u p) w = Some (ELog ev m u, p, log_entry ev m u w)"
| "step so (PutPending sid r p) w =
     Some (EPutPending sid r, p, on_store (put_pending_registration so (reading w 0) sid r) (pass 1 w))"
| "step so (GetPending sid k) w =
     (let r = get_pending_registration so (reading w 0) sid (w_store w) in
      Some (EGetPending sid r, k r, pass 1 w))"
| "step so (GetBinding sid k) w =
     (let r = get_binding so (reading w 0) sid (w_store w) in Some (EGetBinding sid r, k r, pass 1 w))"
| "step so (DeleteSession sid p) w = Some (EDelete sid, p, on_store (delete_session so sid) w)"
| "step so (CommitRegistration sid q b k) w =
     (let (r, s) = commit_registration so (reading w 0) (reading w 1) sid q b (w_store w) in
      Some (ECommit sid q b r, k r, on_store (\<lambda>_. s) (pass 2 w)))"
| "step so (ReplaceBinding sid e n k) w =
     (let (r, s) = replace_binding so (reading w 0) (reading w 1) sid e n (w_store w) in
      Some (EReplace sid e n r, k r, on_store (\<lambda>_. s) (pass 2 w)))"

text \<open>Running alone is repeated stepping.\<close>

lemma exec_step:
  "exec so p w = (case step so p w of None \<Rightarrow> exec so p w | Some (ev, q, w') \<Rightarrow> exec so q w')"
  by (cases p) (auto simp: Let_def on_store_def pass_def reading_def split: prod.splits)

section \<open>Interleaving\<close>

text \<open>
  \<open>gsteps so P w tr Q w'\<close>: from coroutines \<open>P\<close> (one per request) in world \<open>w\<close>, the schedule \<open>tr\<close> of
  who performed which effect leads to \<open>Q\<close> and \<open>w'\<close>.
\<close>

inductive gsteps ::
  "'s store_ops \<Rightarrow> (nat \<Rightarrow> 'a prog) \<Rightarrow> 's world \<Rightarrow> (nat \<times> event) list \<Rightarrow> (nat \<Rightarrow> 'a prog) \<Rightarrow>
   's world \<Rightarrow> bool" for so P w where
  gdone: "gsteps so P w [] P w"
| gnext: "gsteps so P w tr Q w' \<Longrightarrow> step so (Q i) w' = Some (ev, q, w'') \<Longrightarrow>
     gsteps so P w (tr @ [(i, ev)]) (Q(i := q)) w''"

text \<open>The effects one request performed.\<close>

definition events_of :: "nat \<Rightarrow> (nat \<times> event) list \<Rightarrow> event list" where
  "events_of i tr = map snd (filter (\<lambda>(j, _). j = i) tr)"

lemma events_of_simps [simp]:
  "events_of i [] = []"
  "events_of i (tr @ [(j, ev)]) = (if j = i then events_of i tr @ [ev] else events_of i tr)"
  by (auto simp: events_of_def)

text \<open>What is left of a coroutine after some of its effects.\<close>

inductive reaches :: "'a prog \<Rightarrow> event list \<Rightarrow> 'a prog \<Rightarrow> bool" where
  reach_done: "reaches p [] p"
| reach_now: "reaches (k t) es q \<Longrightarrow> reaches (Now k) (ENow t # es) q"
| reach_token: "reaches (k v) es q \<Longrightarrow> reaches (TokenHex n k) (EToken n v # es) q"
| reach_log: "reaches p es q \<Longrightarrow> reaches (Log ev m u p) (ELog ev m u # es) q"
| reach_put_pending: "reaches p es q \<Longrightarrow> reaches (PutPending sid r p) (EPutPending sid r # es) q"
| reach_get_pending: "reaches (k r) es q \<Longrightarrow> reaches (GetPending sid k) (EGetPending sid r # es) q"
| reach_get_binding: "reaches (k r) es q \<Longrightarrow> reaches (GetBinding sid k) (EGetBinding sid r # es) q"
| reach_delete: "reaches p es q \<Longrightarrow> reaches (DeleteSession sid p) (EDelete sid # es) q"
| reach_commit: "reaches (k r) es q \<Longrightarrow>
     reaches (CommitRegistration sid o' b k) (ECommit sid o' b r # es) q"
| reach_replace: "reaches (k r) es q \<Longrightarrow>
     reaches (ReplaceBinding sid e n k) (EReplace sid e n r # es) q"

lemma reaches_runs: "reaches p es q \<Longrightarrow> runs q fs out \<Longrightarrow> runs p (es @ fs) out"
  by (induction rule: reaches.induct) auto

lemma reaches_step:
  "reaches p es q \<Longrightarrow> step so q w = Some (ev, q', w') \<Longrightarrow> reaches p (es @ [ev]) q'"
proof (induction rule: reaches.induct)
  case (reach_done p)
  then show ?case
    by (cases p) (auto simp: Let_def split: prod.splits intro: reaches.intros)
qed (auto intro: reaches.intros)

lemma gsteps_reaches: "gsteps so P w tr Q w' \<Longrightarrow> reaches (P i) (events_of i tr) (Q i)"
  by (induction rule: gsteps.induct) (auto intro: reaches.intros reaches_step)

text \<open>A request that has ended ran through exactly the effects the schedule gave it.\<close>

lemma gsteps_runs:
  "gsteps so P w tr Q w' \<Longrightarrow> Q i = Return x \<Longrightarrow> runs (P i) (events_of i tr) (Inr x)"
  "gsteps so P w tr Q w' \<Longrightarrow> Q i = Raise e \<Longrightarrow> runs (P i) (events_of i tr) (Inl e)"
  using gsteps_reaches [of so P w tr Q w' i]
    reaches_runs [of "P i" "events_of i tr" "Q i" "[]"] by auto


end
