(* ===== verification/Codec.thy ===== *)
theory Codec
  imports JsonRoundtrip
begin

text \<open>
  Bytes on their way into the JWT verifier: base64url as \<open>_b64url_decode\<close> of \<open>src/dbsc/jwt.py\<close> reads
  it (through Python's strict \<open>base64.b64decode\<close>), and the text decoding \<open>json.loads\<close> applies to a
  \<open>bytes\<close> argument (UTF-8, -16 or -32 by its first bytes, lone surrogates passed through).
\<close>

section \<open>base64\<close>

definition b64_val :: "nat \<Rightarrow> nat option" where
  "b64_val c =
     (if 65 \<le> c \<and> c \<le> 90 then Some (c - 65)
      else if 97 \<le> c \<and> c \<le> 122 then Some (c - 71)
      else if 48 \<le> c \<and> c \<le> 57 then Some (c + 4)
      else if c = 43 then Some 62
      else if c = 47 then Some 63
      else None)"

fun b64_vals :: "pystr \<Rightarrow> nat list option" where
  "b64_vals [] = Some []"
| "b64_vals (c # cs) =
     (case b64_val c of None \<Rightarrow> None | Some v \<Rightarrow> map_option (\<lambda>vs. v # vs) (b64_vals cs))"

fun b64_bytes :: "nat list \<Rightarrow> bytes" where
  "b64_bytes (a # b # c # d # r) =
     [a * 4 + b div 16, (b mod 16) * 16 + c div 4, (c mod 4) * 64 + d] @ b64_bytes r"
| "b64_bytes [a, b, c] = [a * 4 + b div 16, (b mod 16) * 16 + c div 4]"
| "b64_bytes [a, b] = [a * 4 + b div 16]"
| "b64_bytes _ = []"

text \<open>
  \<open>base64.b64decode(s, validate=True)\<close>: data characters, then exactly the padding that completes
  the last group of four; anything else is a \<open>ValueError\<close>, here \<open>None\<close>, as the documentation of
  \<open>binascii\<close> has it. Releases of CPython that let padding pass after a complete group read such text
  as the same text without that padding.
\<close>

definition b64decode :: "pystr \<Rightarrow> bytes option" where
  "b64decode s =
     (let dat = takeWhile (\<lambda>c. c \<noteq> 61) s; pad = dropWhile (\<lambda>c. c \<noteq> 61) s in
      case b64_vals dat of
        None \<Rightarrow> None
      | Some vs \<Rightarrow>
          if length vs mod 4 \<noteq> 1 \<and> pad = replicate ((4 - length vs mod 4) mod 4) 61
          then Some (b64_bytes vs) else None)"

definition urlsafe_to_std :: "nat \<Rightarrow> nat" where
  "urlsafe_to_std c = (if c = 45 then 43 else if c = 95 then 47 else c)"

definition b64url_decode :: "pystr \<Rightarrow> bytes" where
  "b64url_decode data =
     (let padded = map urlsafe_to_std data @ replicate (nat ((- int (length data)) mod 4)) 61 in
      case b64decode padded of None \<Rightarrow> [] | Some bs \<Rightarrow> bs)"

text \<open>The unpadded base64url text of RFC 7515, which the browser sends.\<close>

definition b64url_char :: "nat \<Rightarrow> nat" where
  "b64url_char v =
     (if v < 26 then v + 65 else if v < 52 then v + 71 else if v < 62 then v - 4
      else if v = 62 then 45 else 95)"

fun b64url_sextets :: "bytes \<Rightarrow> nat list" where
  "b64url_sextets (x # y # z # r) =
     [x div 4, (x mod 4) * 16 + y div 16, (y mod 16) * 4 + z div 64, z mod 64] @ b64url_sextets r"
| "b64url_sextets [x, y] = [x div 4, (x mod 4) * 16 + y div 16, (y mod 16) * 4]"
| "b64url_sextets [x] = [x div 4, (x mod 4) * 16]"
| "b64url_sextets [] = []"

definition b64url_encode :: "bytes \<Rightarrow> pystr" where
  "b64url_encode bs = map b64url_char (b64url_sextets bs)"

lemma neg_mod4: "nat ((- int n) mod 4) = (4 - n mod 4) mod 4"
proof -
  have "n mod 4 \<in> {0, 1, 2, 3}" by auto
  moreover have "int n mod 4 = int (n mod 4)" by (simp add: zmod_int)
  moreover have "(- int n) mod 4 = (- (int n mod 4)) mod 4" by (simp add: mod_minus_eq)
  ultimately show ?thesis by auto
qed

lemma b64_val_char: "v < 64 \<Longrightarrow> b64_val (urlsafe_to_std (b64url_char v)) = Some v"
  by (auto simp: b64_val_def b64url_char_def urlsafe_to_std_def)

lemma b64_vals_chars:
  "list_all (\<lambda>v. v < 64) vs \<Longrightarrow> b64_vals (map (urlsafe_to_std \<circ> b64url_char) vs) = Some vs"
  by (induction vs) (auto simp: b64_val_char)

lemma sextets_small:
  "list_all (\<lambda>b. b < 256) bs \<Longrightarrow> list_all (\<lambda>v. v < 64) (b64url_sextets bs)"
proof (induction bs rule: b64url_sextets.induct)
  case (1 x y z r)
  then have "x div 4 < 64" "y div 16 < 16" "z div 64 < 4" by (auto simp: less_mult_imp_div_less)
  with 1 show ?case by (auto simp: less_mult_imp_div_less)
next
  case (2 x y)
  then have "x div 4 < 64" "y div 16 < 16" by (auto simp: less_mult_imp_div_less)
  then show ?case by auto
qed (auto simp: less_mult_imp_div_less)

lemma b64_bytes_sextets: "list_all (\<lambda>b. b < 256) bs \<Longrightarrow> b64_bytes (b64url_sextets bs) = bs"
proof (induction bs rule: b64url_sextets.induct)
  case (1 x y z r)
  then have "y div 16 < 16" "z div 64 < 4" by (auto simp: less_mult_imp_div_less)
  then show ?case using 1 by (auto simp: div_mult2_eq)
next
  case (2 x y)
  then have "y div 16 < 16" by (auto simp: less_mult_imp_div_less)
  then show ?case using 2 by auto
qed auto

lemma length_sextets_mod4: "length (b64url_sextets bs) mod 4 \<noteq> 1"
  by (induction bs rule: b64url_sextets.induct) auto

lemma urlsafe_char_not_pad: "urlsafe_to_std (b64url_char v) \<noteq> 61 \<or> 64 \<le> v"
  by (auto simp: b64url_char_def urlsafe_to_std_def)

lemma b64url_decode_encode:
  assumes "list_all (\<lambda>b. b < 256) bs"
  shows "b64url_decode (b64url_encode bs) = bs"
proof -
  let ?vs = "b64url_sextets bs" and ?s = "map (urlsafe_to_std \<circ> b64url_char) (b64url_sextets bs)"
  let ?pad = "replicate ((4 - length ?vs mod 4) mod 4) (61::nat)"
  have small: "list_all (\<lambda>v. v < 64) ?vs" using assms by (rule sextets_small)
  have "list_all (\<lambda>c. c \<noteq> 61) ?s"
    using small urlsafe_char_not_pad by (fastforce simp: list_all_iff)
  moreover have "?pad = [] \<or> \<not> hd ?pad \<noteq> 61" by (cases "(4 - length ?vs mod 4) mod 4") auto
  ultimately have "takeWhile (\<lambda>c. c \<noteq> 61) (?s @ ?pad) = ?s" "dropWhile (\<lambda>c. c \<noteq> 61) (?s @ ?pad) = ?pad"
    by (rule takeWhile_append_stop, rule dropWhile_append_stop)
  then have "b64decode (?s @ ?pad) = Some (b64_bytes ?vs)"
    using length_sextets_mod4 [of bs] by (simp add: b64decode_def b64_vals_chars small)
  then show ?thesis
    using assms by (simp add: b64url_decode_def b64url_encode_def neg_mod4 b64_bytes_sextets)
qed

text \<open>Decoding something from a string means the string is ASCII.\<close>

lemma b64_vals_ascii: "b64_vals s = Some vs \<Longrightarrow> list_all (\<lambda>c. c < 128) s"
  by (induction s arbitrary: vs) (auto simp: b64_val_def split: option.splits if_splits)

lemma b64url_decode_ascii:
  assumes "b64url_decode data \<noteq> []"
  shows "list_all (\<lambda>c. c < 128) data"
proof -
  let ?p = "map urlsafe_to_std data @ replicate (nat ((- int (length data)) mod 4)) 61"
  obtain bs where "b64decode ?p = Some bs"
    using assms by (auto simp: b64url_decode_def Let_def split: option.splits)
  then obtain vs n where "b64_vals (takeWhile (\<lambda>c. c \<noteq> 61) ?p) = Some vs"
    "dropWhile (\<lambda>c. c \<noteq> 61) ?p = replicate n 61"
    by (auto simp: b64decode_def Let_def split: option.splits if_splits)
  then have "list_all (\<lambda>c. c < 128) (takeWhile (\<lambda>c. c \<noteq> 61) ?p)"
    "list_all (\<lambda>c. c < 128) (dropWhile (\<lambda>c. c \<noteq> 61) ?p)"
    by (auto simp: list_all_iff dest: b64_vals_ascii)
  then have "list_all (\<lambda>c. c < 128) (takeWhile (\<lambda>c. c \<noteq> 61) ?p @ dropWhile (\<lambda>c. c \<noteq> 61) ?p)"
    by (simp only: list_all_append)
  then have "list_all (\<lambda>c. urlsafe_to_std c < 128) data"
    by (simp only: takeWhile_dropWhile_id list_all_append list.pred_map o_def)
  then show ?thesis by (auto simp: list_all_iff urlsafe_to_std_def split: if_splits)
qed

section \<open>Text of a bytes document\<close>

definition is_cont :: "nat \<Rightarrow> bool" where
  "is_cont b \<longleftrightarrow> 128 \<le> b \<and> b < 192"

text \<open>\<open>bs.decode("utf-8", "surrogatepass")\<close>\<close>

fun utf8_decode :: "bytes \<Rightarrow> pystr option" where
  "utf8_decode [] = Some []"
| "utf8_decode (a # r) =
     (if a < 128 then map_option (\<lambda>s. a # s) (utf8_decode r)
      else if 194 \<le> a \<and> a < 224 then
        (case r of
           b # r' \<Rightarrow>
             if is_cont b
             then map_option (\<lambda>s. ((a - 192) * 64 + (b - 128)) # s) (utf8_decode r') else None
         | _ \<Rightarrow> None)
      else if 224 \<le> a \<and> a < 240 then
        (case r of
           b # c # r' \<Rightarrow>
             let v = ((a - 224) * 64 + (b - 128)) * 64 + (c - 128) in
             if is_cont b \<and> is_cont c \<and> 2048 \<le> v
             then map_option (\<lambda>s. v # s) (utf8_decode r') else None
         | _ \<Rightarrow> None)
      else if 240 \<le> a \<and> a < 245 then
        (case r of
           b # c # d # r' \<Rightarrow>
             let v = (((a - 240) * 64 + (b - 128)) * 64 + (c - 128)) * 64 + (d - 128) in
             if is_cont b \<and> is_cont c \<and> is_cont d \<and> 65536 \<le> v \<and> v < 1114112
             then map_option (\<lambda>s. v # s) (utf8_decode r') else None
         | _ \<Rightarrow> None)
      else None)"

fun units16 :: "bool \<Rightarrow> bytes \<Rightarrow> nat list option" where
  "units16 big [] = Some []"
| "units16 big [a] = None"
| "units16 big (a # b # r) =
     map_option (\<lambda>us. (if big then a * 256 + b else b * 256 + a) # us) (units16 big r)"

fun join_units :: "nat list \<Rightarrow> pystr" where
  "join_units (h # l # r) =
     (if high_surrogate h \<and> low_surrogate l
      then (65536 + (h - 55296) * 1024 + (l - 56320)) # join_units r
      else h # join_units (l # r))"
| "join_units us = us"

definition utf16_decode :: "bool \<Rightarrow> bytes \<Rightarrow> pystr option" where
  "utf16_decode big bs = map_option join_units (units16 big bs)"

fun utf32_decode :: "bool \<Rightarrow> bytes \<Rightarrow> pystr option" where
  "utf32_decode big [] = Some []"
| "utf32_decode big (a # b # c # d # r) =
     (let v = (if big then ((a * 256 + b) * 256 + c) * 256 + d
               else ((d * 256 + c) * 256 + b) * 256 + a) in
      if v < 1114112 then map_option (\<lambda>s. v # s) (utf32_decode big r) else None)"
| "utf32_decode big _ = None"

text \<open>\<open>s.decode(json.detect_encoding(s), "surrogatepass")\<close>: byte-order marks first, then zero bytes.\<close>

definition json_text :: "bytes \<Rightarrow> pystr option" where
  "json_text bs =
     (if take 4 bs = [0, 0, 254, 255] then utf32_decode True (drop 4 bs)
      else if take 4 bs = [255, 254, 0, 0] then utf32_decode False (drop 4 bs)
      else if take 2 bs = [254, 255] then utf16_decode True (drop 2 bs)
      else if take 2 bs = [255, 254] then utf16_decode False (drop 2 bs)
      else if take 3 bs = [239, 187, 191] then utf8_decode (drop 3 bs)
      else (case bs of
          b0 # b1 # b2 # b3 # _ \<Rightarrow>
            if b0 = 0 then (if b1 \<noteq> 0 then utf16_decode True bs else utf32_decode True bs)
            else if b1 = 0 then
              (if b2 \<noteq> 0 \<or> b3 \<noteq> 0 then utf16_decode False bs else utf32_decode False bs)
            else utf8_decode bs
        | [b0, b1] \<Rightarrow>
            if b0 = 0 then utf16_decode True bs
            else if b1 = 0 then utf16_decode False bs
            else utf8_decode bs
        | _ \<Rightarrow> utf8_decode bs))"

definition loads_object_bytes :: "nat \<Rightarrow> bytes \<Rightarrow> (pystr \<times> json) list option" where
  "loads_object_bytes depth raw =
     (case json_text raw of None \<Rightarrow> None | Some s \<Rightarrow> loads_object depth s)"

lemma utf8_decode_ascii: "list_all (\<lambda>c. c < 128) s \<Longrightarrow> utf8_decode s = Some s"
  by (induction s) auto

lemma loads_object_bytes_Nil [simp]: "loads_object_bytes depth [] = None"
  by (simp add: loads_object_bytes_def json_text_def loads_object_def json_loads_def json_loads_with_def)

text \<open>ASCII text without NUL bytes is read as itself.\<close>

lemma json_text_ascii:
  assumes "list_all (\<lambda>c. 0 < c \<and> c < 128) s"
  shows "json_text s = Some s"
proof -
  have a: "list_all (\<lambda>c. c < 128) s" using assms by (auto simp: list_all_iff)
  have u: "utf8_decode s = Some s" using a by (rule utf8_decode_ascii)
  consider "s = []" | b0 where "s = [b0]" | b0 b1 where "s = [b0, b1]" | b0 b1 b2 where "s = [b0, b1, b2]"
    | b0 b1 b2 b3 r where "s = b0 # b1 # b2 # b3 # r"
    by (metis list.exhaust)
  then show ?thesis
    using assms u by cases (simp_all add: json_text_def)
qed

end
