(* ===== verification/Jwt.thy ===== *)
theory Jwt
  imports Codec
begin

text \<open>
  \<open>src/dbsc/jwt.py\<close>: parsing a compact JWS and verifying the registration and refresh tokens. The
  elliptic-curve library (the third-party package \<open>cryptography\<close>) is a parameter: a record of the
  functions the verifier calls, over its own type of keys.
\<close>

section \<open>The cryptography library as a parameter\<close>

text \<open>
  \<open>load_pem_public_key\<close> is \<open>None\<close> where the call raises \<open>ValueError\<close> or \<open>UnsupportedAlgorithm\<close>,
  \<open>from_encoded_point\<close> where it raises \<open>ValueError\<close>; \<open>is_p256_key\<close> is the pair of \<open>isinstance\<close>
  tests; \<open>public_pem\<close> is \<open>public_bytes(PEM, SubjectPublicKeyInfo).decode()\<close>; \<open>ec_verify\<close> is
  \<open>key.verify(der, data, ECDSA(SHA256()))\<close> with \<open>False\<close> for \<open>InvalidSignature\<close>.
\<close>

record 'k crypto =
  load_pem_public_key :: "bytes \<Rightarrow> 'k option"
  is_p256_key :: "'k \<Rightarrow> bool"
  from_encoded_point :: "bytes \<Rightarrow> 'k option"
  public_pem :: "'k \<Rightarrow> pystr"
  encode_dss_signature :: "nat \<Rightarrow> nat \<Rightarrow> bytes"
  ec_verify :: "'k \<Rightarrow> bytes \<Rightarrow> bytes \<Rightarrow> bool"

section \<open>Data\<close>

definition SUPPORTED_ALG :: pystr where
  "SUPPORTED_ALG = S ''ES256''"

definition MAX_JWT_LENGTH :: nat where
  "MAX_JWT_LENGTH = 8192"

definition P256_COORDINATE_BYTES :: nat where
  "P256_COORDINATE_BYTES = 32"

definition ES256_SIGNATURE_BYTES :: nat where
  "ES256_SIGNATURE_BYTES = 2 * P256_COORDINATE_BYTES"

record parsed_jwt =
  pj_header :: "(pystr \<times> json) list"
  pj_payload :: "(pystr \<times> json) list"
  pj_signing_input :: pystr
  pj_signature :: bytes

record registration_result =
  rr_public_key_pem :: pystr
  rr_algorithm :: pystr
  rr_challenge :: pystr

definition jwt_error :: "string \<Rightarrow> 'a result" where
  "jwt_error m = Inl (Exn JwtInvalidError (S m))"

section \<open>Parsing\<close>

definition parse :: "nat \<Rightarrow> pystr \<Rightarrow> parsed_jwt result" where
  "parse depth jwt =
     (if length jwt > MAX_JWT_LENGTH then jwt_error ''JWT is too large''
      else (case py_split 46 jwt of
          [header_b64, payload_b64, signature_b64] \<Rightarrow>
            (case (loads_object_bytes depth (b64url_decode header_b64),
                   loads_object_bytes depth (b64url_decode payload_b64)) of
               (Some header, Some payload) \<Rightarrow>
                 let signature = b64url_decode signature_b64 in
                 if signature = [] then jwt_error ''JWT signature is empty''
                 else Inr \<lparr>pj_header = header, pj_payload = payload,
                           pj_signing_input = header_b64 @ [46] @ payload_b64,
                           pj_signature = signature\<rparr>
             | _ \<Rightarrow> jwt_error ''JWT header or payload is not a JSON object'')
        | _ \<Rightarrow> jwt_error ''JWT must have three parts''))"

section \<open>Checks\<close>

definition check_header :: "(pystr \<times> json) list \<Rightarrow> unit result" where
  "check_header header =
     (if get_member header ''alg'' \<noteq> JStr SUPPORTED_ALG then jwt_error ''Unsupported algorithm''
      else if map_of header (S ''crit'') \<noteq> None then
        jwt_error ''Unsupported critical header (crit)''
      else Inr ())"

definition require_jti :: "(pystr \<times> json) list \<Rightarrow> pystr result" where
  "require_jti payload =
     (case as_str (get_member payload ''jti'') of
        None \<Rightarrow> jwt_error ''JWT payload is missing jti''
      | Some jti \<Rightarrow> if jti = [] then jwt_error ''JWT payload is missing jti'' else Inr jti)"

text \<open>\<open>int.from_bytes\<close>, big-endian.\<close>

definition int_from_bytes :: "bytes \<Rightarrow> nat" where
  "int_from_bytes bs = foldl (\<lambda>n b. n * 256 + b) 0 bs"

text \<open>
  \<open>pem.encode()\<close> is inside the first \<open>try\<close>, whose clause for \<open>ValueError\<close> also catches
  \<open>UnicodeEncodeError\<close>; \<open>signing_input.encode()\<close> is inside the second, which does not.
\<close>

definition verify_signature :: "'k crypto \<Rightarrow> pystr \<Rightarrow> bytes \<Rightarrow> pystr \<Rightarrow> bool result" where
  "verify_signature lib signing_input raw_signature pem =
     (if length raw_signature \<noteq> ES256_SIGNATURE_BYTES then Inr False
      else (case py_encode pem of
          Inl _ \<Rightarrow> Inr False
        | Inr pem_bytes \<Rightarrow>
            (case load_pem_public_key lib pem_bytes of
               None \<Rightarrow> Inr False
             | Some key \<Rightarrow>
                 if \<not> is_p256_key lib key then Inr False
                 else
                   let r = int_from_bytes (take P256_COORDINATE_BYTES raw_signature);
                       s = int_from_bytes (drop P256_COORDINATE_BYTES raw_signature) in
                   bind_res (py_encode signing_input) (\<lambda>dat.
                     Inr (ec_verify lib key (encode_dss_signature lib r s) dat)))))"

definition jwk_to_pem :: "'k crypto \<Rightarrow> (pystr \<times> json) list \<Rightarrow> pystr result" where
  "jwk_to_pem lib jwk =
     (if get_member jwk ''kty'' \<noteq> JStr (S ''EC'') \<or> get_member jwk ''crv'' \<noteq> JStr (S ''P-256'')
      then jwt_error ''Unsupported JWK key type or curve''
      else
        let x = (case as_str (get_member jwk ''x'') of None \<Rightarrow> [] | Some b \<Rightarrow> b64url_decode b);
            y = (case as_str (get_member jwk ''y'') of None \<Rightarrow> [] | Some b \<Rightarrow> b64url_decode b) in
        if length x \<noteq> P256_COORDINATE_BYTES \<or> length y \<noteq> P256_COORDINATE_BYTES
        then jwt_error ''JWK x/y coordinates are the wrong length''
        else (case from_encoded_point lib ([4] @ x @ y) of
            None \<Rightarrow> jwt_error ''JWK is not a valid P-256 public key''
          | Some key \<Rightarrow> Inr (public_pem lib key)))"

section \<open>Verification\<close>

definition verify_registration_jwt :: "'k crypto \<Rightarrow> parsed_jwt \<Rightarrow> registration_result result" where
  "verify_registration_jwt lib parsed =
     bind_res (check_header (pj_header parsed)) (\<lambda>_.
       (case get_member (pj_header parsed) ''jwk'' of
          JObj jwk \<Rightarrow>
            bind_res (jwk_to_pem lib jwk) (\<lambda>pem.
            bind_res (verify_signature lib (pj_signing_input parsed) (pj_signature parsed) pem) (\<lambda>ok.
              if \<not> ok then jwt_error ''JWT signature verification failed''
              else bind_res (require_jti (pj_payload parsed)) (\<lambda>jti.
                Inr \<lparr>rr_public_key_pem = pem, rr_algorithm = SUPPORTED_ALG, rr_challenge = jti\<rparr>)))
        | _ \<Rightarrow> jwt_error ''JWT header is missing jwk''))"

definition verify_refresh_jwt :: "'k crypto \<Rightarrow> parsed_jwt \<Rightarrow> pystr \<Rightarrow> pystr result" where
  "verify_refresh_jwt lib parsed pem =
     bind_res (check_header (pj_header parsed)) (\<lambda>_.
     bind_res (verify_signature lib (pj_signing_input parsed) (pj_signature parsed) pem) (\<lambda>ok.
       if \<not> ok then jwt_error ''JWT signature verification failed''
       else require_jti (pj_payload parsed)))"

section \<open>Lemmas\<close>

lemma jwt_error_simps [simp]:
  "jwt_error m \<noteq> Inr x" "jwt_error m = Inl e \<longleftrightarrow> e = Exn JwtInvalidError (S m)"
  by (auto simp: jwt_error_def)

lemma parse_eq_Inr:
  "parse depth jwt = Inr p \<longleftrightarrow>
     length jwt \<le> MAX_JWT_LENGTH \<and>
     (\<exists>h b s. py_split 46 jwt = [h, b, s] \<and>
        loads_object_bytes depth (b64url_decode h) = Some (pj_header p) \<and>
        loads_object_bytes depth (b64url_decode b) = Some (pj_payload p) \<and>
        b64url_decode s \<noteq> [] \<and> pj_signature p = b64url_decode s \<and>
        pj_signing_input p = h @ [46] @ b)"
  by (cases p) (auto simp: parse_def Let_def split: list.splits option.splits)

lemma parse_eq_Inl: "parse depth jwt = Inl e \<Longrightarrow> exn_cls e = JwtInvalidError"
  by (auto simp: parse_def Let_def split: list.splits option.splits if_splits)

lemma ascii_encodable: "list_all (\<lambda>c. c < 128) s \<Longrightarrow> py_encode s = Inr (utf8 s) \<and> encodable s"
  by (auto simp: py_encode_def encodable_def is_surrogate_def list_ex_iff list_all_iff)

text \<open>The signed text of a parsed token is ASCII, so encoding it never raises.\<close>

lemma parse_signing_input:
  assumes "parse depth jwt = Inr p"
  shows "py_encode (pj_signing_input p) = Inr (utf8 (pj_signing_input p))"
proof -
  from assms obtain h b where p: "pj_signing_input p = h @ [46] @ b"
    "loads_object_bytes depth (b64url_decode h) = Some (pj_header p)"
    "loads_object_bytes depth (b64url_decode b) = Some (pj_payload p)"
    unfolding parse_eq_Inr by blast
  then have "b64url_decode h \<noteq> []" "b64url_decode b \<noteq> []" by auto
  with p(1) have "list_all (\<lambda>c. c < 128) (pj_signing_input p)"
    using b64url_decode_ascii [of h] b64url_decode_ascii [of b] by simp
  then show ?thesis by (simp add: ascii_encodable)
qed

text \<open>The proof of possession: a P-256 key whose signature over the text verifies.\<close>

definition signed_by :: "'k crypto \<Rightarrow> pystr \<Rightarrow> bytes \<Rightarrow> pystr \<Rightarrow> bool" where
  "signed_by lib signing_input raw_signature pem \<longleftrightarrow>
     length raw_signature = 64 \<and>
     (\<exists>pem_bytes key dat.
        py_encode pem = Inr pem_bytes \<and> load_pem_public_key lib pem_bytes = Some key \<and>
        is_p256_key lib key \<and> py_encode signing_input = Inr dat \<and>
        ec_verify lib key
          (encode_dss_signature lib (int_from_bytes (take 32 raw_signature))
            (int_from_bytes (drop 32 raw_signature))) dat)"

lemma verify_signature_True:
  "verify_signature lib inp sig pem = Inr True \<longleftrightarrow> signed_by lib inp sig pem"
  by (auto simp: verify_signature_def signed_by_def ES256_SIGNATURE_BYTES_def
      P256_COORDINATE_BYTES_def Let_def bind_res_eq_Inr split: sum.splits option.splits)

lemma verify_signature_no_raise:
  "py_encode inp = Inr d \<Longrightarrow> verify_signature lib inp sig pem \<noteq> Inl e"
  by (auto simp: verify_signature_def Let_def split: sum.splits option.splits)

lemma check_header_eq_Inr:
  "check_header h = Inr u \<longleftrightarrow> get_member h ''alg'' = JStr (S ''ES256'') \<and> map_of h (S ''crit'') = None"
  by (auto simp: check_header_def SUPPORTED_ALG_def)

lemma require_jti_eq_Inr:
  "require_jti p = Inr j \<longleftrightarrow> get_member p ''jti'' = JStr j \<and> j \<noteq> []"
  by (auto simp: require_jti_def as_str_eq_Some split: option.splits)

lemma check_header_eq_Inl: "check_header h = Inl e \<Longrightarrow> exn_cls e = JwtInvalidError"
  by (auto simp: check_header_def split: if_splits)

lemma require_jti_eq_Inl: "require_jti p = Inl e \<Longrightarrow> exn_cls e = JwtInvalidError"
  by (auto simp: require_jti_def split: option.splits if_splits)

lemma jwk_to_pem_eq_Inl: "jwk_to_pem lib j = Inl e \<Longrightarrow> exn_cls e = JwtInvalidError"
  by (auto simp: jwk_to_pem_def Let_def split: option.splits if_splits)

lemma verify_refresh_jwt_eq_Inr:
  "verify_refresh_jwt lib p pem = Inr j \<longleftrightarrow>
     get_member (pj_header p) ''alg'' = JStr (S ''ES256'') \<and> map_of (pj_header p) (S ''crit'') = None \<and>
     signed_by lib (pj_signing_input p) (pj_signature p) pem \<and>
     get_member (pj_payload p) ''jti'' = JStr j \<and> j \<noteq> []"
  by (auto simp: verify_refresh_jwt_def bind_res_eq_Inr check_header_eq_Inr require_jti_eq_Inr
      simp flip: verify_signature_True split: if_splits)

lemma verify_registration_jwt_eq_Inr:
  "verify_registration_jwt lib p = Inr r \<longleftrightarrow>
     get_member (pj_header p) ''alg'' = JStr (S ''ES256'') \<and> map_of (pj_header p) (S ''crit'') = None \<and>
     (\<exists>jwk. get_member (pj_header p) ''jwk'' = JObj jwk \<and>
        jwk_to_pem lib jwk = Inr (rr_public_key_pem r)) \<and>
     signed_by lib (pj_signing_input p) (pj_signature p) (rr_public_key_pem r) \<and>
     rr_algorithm r = S ''ES256'' \<and>
     get_member (pj_payload p) ''jti'' = JStr (rr_challenge r) \<and> rr_challenge r \<noteq> []"
  by (cases r)
    (auto simp: verify_registration_jwt_def bind_res_eq_Inr check_header_eq_Inr require_jti_eq_Inr
      SUPPORTED_ALG_def simp flip: verify_signature_True split: if_splits json.splits)

text \<open>Whatever bytes arrive, parsing and verifying raise nothing but \<open>JwtInvalidError\<close>.\<close>

definition parse_and_verify_registration ::
  "'k crypto \<Rightarrow> nat \<Rightarrow> pystr \<Rightarrow> registration_result result" where
  "parse_and_verify_registration lib depth jwt =
     bind_res (parse depth jwt) (verify_registration_jwt lib)"

definition parse_and_verify_refresh :: "'k crypto \<Rightarrow> nat \<Rightarrow> pystr \<Rightarrow> pystr \<Rightarrow> pystr result" where
  "parse_and_verify_refresh lib depth jwt pem =
     bind_res (parse depth jwt) (\<lambda>parsed. verify_refresh_jwt lib parsed pem)"

lemma registration_errors:
  "parse_and_verify_registration lib depth jwt = Inl e \<Longrightarrow> exn_cls e = JwtInvalidError"
  unfolding parse_and_verify_registration_def bind_res_eq_Inl
proof (elim disjE exE conjE)
  fix p assume p: "parse depth jwt = Inr p" "verify_registration_jwt lib p = Inl e"
  then show "exn_cls e = JwtInvalidError"
    using verify_signature_no_raise [OF parse_signing_input [OF p(1)]]
    by (auto simp: verify_registration_jwt_def bind_res_eq_Inl split: json.splits if_splits
        dest: check_header_eq_Inl jwk_to_pem_eq_Inl require_jti_eq_Inl)
qed (rule parse_eq_Inl)

lemma refresh_errors:
  "parse_and_verify_refresh lib depth jwt pem = Inl e \<Longrightarrow> exn_cls e = JwtInvalidError"
  unfolding parse_and_verify_refresh_def bind_res_eq_Inl
proof (elim disjE exE conjE)
  fix p assume p: "parse depth jwt = Inr p" "verify_refresh_jwt lib p pem = Inl e"
  then show "exn_cls e = JwtInvalidError"
    using verify_signature_no_raise [OF parse_signing_input [OF p(1)]]
    by (auto simp: verify_refresh_jwt_def bind_res_eq_Inl split: if_splits
        dest: check_header_eq_Inl require_jti_eq_Inl)
qed (rule parse_eq_Inl)

text \<open>The three parts of a token that parses, and the members of what it says.\<close>

lemma split_parts: "py_split d s = [a, b, c] \<Longrightarrow> s = a @ [d] @ b @ [d] @ c"
  using py_join_split [of d s] by simp

lemma parsed_parts:
  assumes "parse depth jwt = Inr q"
  shows "\<exists>h p s. jwt = h @ [46] @ p @ [46] @ s \<and> length jwt \<le> 8192 \<and>
    loads_object_bytes depth (b64url_decode h) = Some (pj_header q) \<and>
    loads_object_bytes depth (b64url_decode p) = Some (pj_payload q) \<and>
    pj_signing_input q = h @ [46] @ p \<and> pj_signature q = b64url_decode s"
proof -
  obtain h p s where "py_split 46 jwt = [h, p, s]" and "length jwt \<le> MAX_JWT_LENGTH"
    and "loads_object_bytes depth (b64url_decode h) = Some (pj_header q)"
    "loads_object_bytes depth (b64url_decode p) = Some (pj_payload q)"
    "pj_signing_input q = h @ [46] @ p" "pj_signature q = b64url_decode s"
    using assms unfolding parse_eq_Inr by blast
  then show ?thesis using split_parts [of 46 jwt] unfolding MAX_JWT_LENGTH_def by blast
qed

lemma get_member_present: "v \<noteq> JNull \<Longrightarrow> get_member data key = v \<longleftrightarrow> map_of data (S key) = Some v"
  by (auto simp: get_member_def split: option.splits)

lemma object_bytes_distinct: "loads_object_bytes depth bs = Some ms \<Longrightarrow> distinct (map fst ms)"
  by (auto simp: loads_object_bytes_def dest!: loads_object_unique split: option.splits if_splits)

end
