(* ===== verification/Server.thy ===== *)
theory Server
  imports Prog Jwt
begin

text \<open>
  \<open>src/dbsc/server.py\<close>: \<open>DbscServer\<close>. Each method is a coroutine (theory \<open>Prog\<close>) with the
  code's guards, messages and order of effects. The store, the clock, the token source and the
  audit log belong to the world the coroutine runs in; what is left of the object is its
  configuration and its verifier, which is the elliptic-curve library and the depth to which the
  interpreter's recursion limit lets JSON nest.
\<close>

section \<open>The object\<close>

record 'k server =
  sv_config :: config
  sv_lib :: "'k crypto"
  sv_depth :: nat

definition ALGORITHM :: pystr where
  "ALGORITHM = S ''ES256''"

definition NONCE_BYTES :: nat where
  "NONCE_BYTES = 32"

definition SESSION_ID_BYTES :: nat where
  "SESSION_ID_BYTES = 32"

definition COOKIE_VALUE_BYTES :: nat where
  "COOKIE_VALUE_BYTES = 32"

definition MAX_UPDATE_ATTEMPTS :: nat where
  "MAX_UPDATE_ATTEMPTS = 3"

definition NO_STORE :: "(pystr \<times> pystr) list" where
  "NO_STORE = [(S ''Cache-Control'', S ''no-store'')]"

section \<open>Helpers\<close>

definition same_user :: "pystr \<Rightarrow> pystr \<Rightarrow> bool" where
  "same_user recorded current \<longleftrightarrow> recorded = [] \<or> current = [] \<or> recorded = current"

definition quoted :: "pystr \<Rightarrow> pystr" where
  "quoted s = [34] @ s @ [34]"

definition challenge_headers :: "pystr \<Rightarrow> pystr \<Rightarrow> (pystr \<times> pystr) list" where
  "challenge_headers session_identifier challenge =
     (let id_param = (if session_identifier \<noteq> [] then S ''; id='' @ quoted session_identifier else []) in
      [(S ''Secure-Session-Challenge'', quoted challenge @ id_param)] @
      (if session_identifier \<noteq> [] then [(S ''Sec-Secure-Session-Id'', session_identifier)] else []))"

definition bare_403 :: dbsc_response where
  "bare_403 = empty_response
     \<lparr>rs_headers := NO_STORE, rs_status := Some 403, rs_content_type := Some (S ''application/json'')\<rparr>"

definition challenge_403 :: "pystr \<Rightarrow> pystr \<Rightarrow> dbsc_response" where
  "challenge_403 session_identifier challenge = empty_response
     \<lparr>rs_headers := challenge_headers session_identifier challenge @ NO_STORE,
      rs_status := Some 403, rs_content_type := Some (S ''application/json'')\<rparr>"

definition fail :: "audit_event \<Rightarrow> pystr \<Rightarrow> request_context \<Rightarrow> 'a prog \<Rightarrow> 'a prog" where
  "fail event message ctx k = Log event message (rc_user_id ctx) k"

definition raise :: "exn_class \<Rightarrow> string \<Rightarrow> 'a prog" where
  "raise c message = Raise (Exn c (S message))"

definition scope_specification :: "'k server \<Rightarrow> request_context \<Rightarrow> scope_rule list" where
  "scope_specification sv ctx =
     or_else (rc_scope_specification ctx) (cfg_scope_specification (sv_config sv))"

definition allowed_refresh_initiators :: "'k server \<Rightarrow> request_context \<Rightarrow> pystr list" where
  "allowed_refresh_initiators sv ctx =
     or_else (rc_allowed_refresh_initiators ctx) (cfg_allowed_refresh_initiators (sv_config sv))"

definition instructions :: "'k server \<Rightarrow> pystr \<Rightarrow> request_context \<Rightarrow> (pystr \<times> json) list" where
  "instructions sv session_identifier ctx =
     (let scope_rules = scope_specification sv ctx;
          initiators = allowed_refresh_initiators sv ctx in
      [(S ''session_identifier'', JStr session_identifier),
       (S ''refresh_url'', JStr (cfg_refresh_path (sv_config sv))),
       (S ''scope'', JObj (
          [(S ''origin'', JStr (rc_origin_host_url ctx)), (S ''include_site'', JBool False)] @
          (if scope_rules \<noteq> []
           then [(S ''scope_specification'', JArr (map (\<lambda>r. JObj (scope_to_dict r)) scope_rules))]
           else []))),
       (S ''credentials'', JArr [JObj
          [(S ''type'', JStr (S ''cookie'')),
           (S ''name'', JStr (cfg_cookie_name (sv_config sv))),
           (S ''attributes'', JStr (S ''Path=/; Secure; HttpOnly; SameSite='' @
              cfg_cookie_same_site (sv_config sv)))]])] @
      (if initiators \<noteq> [] then [(S ''allowed_refresh_initiators'', JArr (map JStr initiators))] else []))"

definition instructions_json :: "'k server \<Rightarrow> pystr \<Rightarrow> request_context \<Rightarrow> pystr" where
  "instructions_json sv session_identifier ctx = dumps (JObj (instructions sv session_identifier ctx))"

definition bound_cookie :: "'k server \<Rightarrow> pystr \<Rightarrow> set_cookie prog" where
  "bound_cookie sv value = Now (\<lambda>now.
     Return (Cookie (cfg_cookie_name (sv_config sv)) value
       (now + cfg_cookie_max_age_seconds (sv_config sv)) (cfg_cookie_same_site (sv_config sv))))"

definition nonce :: "nat \<Rightarrow> (pystr \<Rightarrow> 'a prog) \<Rightarrow> 'a prog" where
  "nonce num_bytes k = TokenHex num_bytes k"

section \<open>Registration\<close>

definition registration_header :: "'k server \<Rightarrow> pystr \<Rightarrow> pystr" where
  "registration_header sv challenge =
     S ''('' @ ALGORITHM @ S ''); path='' @ quoted (cfg_register_path (sv_config sv)) @
     S ''; challenge='' @ quoted challenge"

definition build_registration_header_response ::
  "'k server \<Rightarrow> request_context \<Rightarrow> dbsc_response prog" where
  "build_registration_header_response sv ctx =
     nonce NONCE_BYTES (\<lambda>challenge.
     Now (\<lambda>now.
     lift_res (PendingRegistration (rc_user_id ctx) challenge now) (\<lambda>pending.
     PutPending (rc_session_id ctx) pending (
     Return (empty_response
       \<lparr>rs_headers := [(S ''Secure-Session-Registration'', registration_header sv challenge)] @
          NO_STORE\<rparr>)))))"

definition register :: "'k server \<Rightarrow> pystr \<Rightarrow> request_context \<Rightarrow> dbsc_response prog" where
  "register sv jwt ctx =
     GetPending (rc_session_id ctx) (\<lambda>read. lift_res read (\<lambda>found.
     case found of
       None \<Rightarrow> fail REGISTRATION_FAILED (S ''No pending registration challenge.'') ctx
                 (raise MissingChallengeError ''No pending registration challenge'')
     | Some pending \<Rightarrow>
     if \<not> same_user (p_user_id pending) (rc_user_id ctx) then
       fail REGISTRATION_FAILED (S ''Offer was made to a different user.'') ctx
         (raise SessionNotFoundError ''Registration offer belongs to a different user'')
     else Now (\<lambda>t.
     if t - p_reg_challenge_time pending > cfg_challenge_ttl_seconds (sv_config sv) then
       fail REGISTRATION_FAILED (S ''Registration challenge expired.'') ctx
         (raise ChallengeExpiredError ''Registration challenge expired'')
     else
     case parse_and_verify_registration (sv_lib sv) (sv_depth sv) jwt of
       Inl e \<Rightarrow>
         if isinstance e JwtInvalidError
         then fail REGISTRATION_FAILED (S ''Invalid JWT: '' @ exn_msg e) ctx (Raise e)
         else Raise e
     | Inr res \<Rightarrow>
     lift_res (constant_time_equals (p_reg_challenge pending) (rr_challenge res)) (\<lambda>equal.
     if \<not> equal then
       fail REGISTRATION_FAILED (S ''Challenge mismatch.'') ctx (raise JwtInvalidError ''Challenge mismatch'')
     else Now (\<lambda>now.
     nonce SESSION_ID_BYTES (\<lambda>session_identifier.
     nonce COOKIE_VALUE_BYTES (\<lambda>cookie_value.
     nonce NONCE_BYTES (\<lambda>challenge.
     lift_res (Binding
       \<lparr>b_user_id = (if p_user_id pending \<noteq> [] then p_user_id pending else rc_user_id ctx),
        b_session_identifier = session_identifier,
        b_cookie_value = cookie_value,
        b_public_key_pem = rr_public_key_pem res,
        b_algorithm = rr_algorithm res,
        b_challenge = challenge,
        b_challenge_time = now,
        b_created_at = now,
        b_cookie_issued_at = now,
        b_previous_cookie_value = [],
        b_previous_cookie_expires_at = 0,
        b_has_refreshed = False,
        b_previous_challenge = [],
        b_previous_challenge_time = 0,
        b_challenge_advertised = False\<rparr>) (\<lambda>binding.
     CommitRegistration (rc_session_id ctx) pending binding (\<lambda>reply. lift_res reply (\<lambda>committed.
     if \<not> committed then
       fail REGISTRATION_FAILED (S ''Offer withdrawn or used concurrently.'') ctx
         (raise MissingChallengeError ''Registration offer is no longer live'')
     else Log REGISTERED (S ''DBSC session registered.'') (rc_user_id ctx) (
     bind (bound_cookie sv cookie_value) (\<lambda>ck.
     Return
       \<lparr>rs_headers = [(S ''Sec-Secure-Session-Id'', session_identifier)] @ NO_STORE,
        rs_cookies = [ck],
        rs_status = Some 200,
        rs_body = Some (instructions_json sv session_identifier ctx),
        rs_content_type = Some (S ''application/json'')\<rparr>)))))))))))))"

section \<open>Refresh\<close>

primrec issue_attempts :: "nat \<Rightarrow> request_context \<Rightarrow> dbsc_response prog" where
  "issue_attempts 0 ctx =
     GetBinding (rc_session_id ctx) (\<lambda>read. lift_res read (\<lambda>found.
     case found of
       None \<Rightarrow> Return bare_403
     | Some binding \<Rightarrow> Return (challenge_403 (b_session_identifier binding) (b_challenge binding))))"
| "issue_attempts (Suc n) ctx =
     GetBinding (rc_session_id ctx) (\<lambda>read. lift_res read (\<lambda>found.
     case found of
       None \<Rightarrow> Return bare_403
     | Some binding \<Rightarrow>
     nonce NONCE_BYTES (\<lambda>challenge.
     Now (\<lambda>now.
     lift_res (with_challenge binding challenge now) (\<lambda>rotated.
     ReplaceBinding (rc_session_id ctx) binding rotated (\<lambda>reply. lift_res reply (\<lambda>replaced.
     if replaced then Return (challenge_403 (b_session_identifier rotated) challenge)
     else issue_attempts n ctx)))))))"

definition issue_refresh_challenge :: "request_context \<Rightarrow> dbsc_response prog" where
  "issue_refresh_challenge ctx = issue_attempts MAX_UPDATE_ATTEMPTS ctx"

text \<open>The current challenge, or the previous one until its own time-to-live ends.\<close>

definition challenge_matches :: "config \<Rightarrow> binding \<Rightarrow> pystr \<Rightarrow> bool prog" where
  "challenge_matches cfg binding jti =
     lift_res (constant_time_equals (b_challenge binding) jti) (\<lambda>current.
     if current then Return True
     else if b_previous_challenge binding = [] then Return False
     else Now (\<lambda>t.
       if t - b_previous_challenge_time binding \<le> cfg_challenge_ttl_seconds cfg
       then lift_res (constant_time_equals (b_previous_challenge binding) jti) Return
       else Return False))"

definition session_id_presented :: "binding \<Rightarrow> request_context \<Rightarrow> bool result" where
  "session_id_presented binding ctx =
     (let presented_id = or_else (header ctx (S ''Sec-Secure-Session-Id'')) [] in
      if presented_id = [] then Inr True
      else constant_time_equals (b_session_identifier binding) presented_id)"

definition binding_proved_by :: "'k server \<Rightarrow> pystr \<Rightarrow> request_context \<Rightarrow> binding prog" where
  "binding_proved_by sv jwt ctx =
     GetBinding (rc_session_id ctx) (\<lambda>read. lift_res read (\<lambda>found.
     case found of
       None \<Rightarrow> fail REFRESH_FAILED (S ''No DBSC session bound.'') ctx
                 (raise SessionNotFoundError ''No DBSC session bound to this user'')
     | Some binding \<Rightarrow>
     if \<not> same_user (b_user_id binding) (rc_user_id ctx) then
       fail REFRESH_FAILED (S ''Binding belongs to a different user.'') ctx
         (raise SessionNotFoundError ''DBSC session belongs to a different user'')
     else lift_res (session_id_presented binding ctx) (\<lambda>id_ok.
     if \<not> id_ok then
       fail REFRESH_FAILED (S ''Session identifier mismatch.'') ctx
         (raise SessionNotFoundError ''DBSC session identifier mismatch'')
     else if b_challenge binding = [] then
       fail REFRESH_RETRYABLE (S ''No pending challenge.'') ctx
         (raise MissingChallengeError ''No pending challenge'')
     else Now (\<lambda>t.
     if t - b_challenge_time binding > cfg_challenge_ttl_seconds (sv_config sv) then
       fail REFRESH_RETRYABLE (S ''Challenge expired.'') ctx (raise ChallengeExpiredError ''Challenge expired'')
     else
     case parse_and_verify_refresh (sv_lib sv) (sv_depth sv) jwt (b_public_key_pem binding) of
       Inl e \<Rightarrow>
         if isinstance e JwtInvalidError
         then fail REFRESH_FAILED (S ''Invalid JWT: '' @ exn_msg e) ctx (Raise e)
         else Raise e
     | Inr jti \<Rightarrow>
     bind (challenge_matches (sv_config sv) binding jti) (\<lambda>matches.
     if \<not> matches then
       fail REFRESH_RETRYABLE (S ''Challenge mismatch.'') ctx (raise ChallengeMismatchError ''Challenge mismatch'')
     else Return binding)))))"

primrec refresh_attempts :: "nat \<Rightarrow> 'k server \<Rightarrow> pystr \<Rightarrow> request_context \<Rightarrow> dbsc_response prog" where
  "refresh_attempts 0 sv jwt ctx =
     fail REFRESH_RETRYABLE (S ''Binding changed concurrently.'') ctx
       (raise ChallengeMismatchError ''Binding changed concurrently'')"
| "refresh_attempts (Suc n) sv jwt ctx =
     bind (binding_proved_by sv jwt ctx) (\<lambda>binding.
     Now (\<lambda>now.
     nonce COOKIE_VALUE_BYTES (\<lambda>new_cookie.
     nonce NONCE_BYTES (\<lambda>new_challenge.
     lift_res (with_rotated_cookie_and_challenge binding new_cookie new_challenge now now
       (cfg_cookie_max_age_seconds (sv_config sv))) (\<lambda>rotated.
     ReplaceBinding (rc_session_id ctx) binding rotated (\<lambda>reply. lift_res reply (\<lambda>replaced.
     if replaced then
       Log REFRESHED (S ''DBSC cookie refreshed.'') (rc_user_id ctx) (
       bind (bound_cookie sv new_cookie) (\<lambda>ck.
       Return
         \<lparr>rs_headers = challenge_headers (b_session_identifier rotated) new_challenge @ NO_STORE,
          rs_cookies = [ck],
          rs_status = Some 200,
          rs_body = Some (instructions_json sv (b_session_identifier rotated) ctx),
          rs_content_type = Some (S ''application/json'')\<rparr>))
     else refresh_attempts n sv jwt ctx)))))))"

definition refresh :: "'k server \<Rightarrow> pystr \<Rightarrow> request_context \<Rightarrow> dbsc_response prog" where
  "refresh sv jwt ctx = refresh_attempts MAX_UPDATE_ATTEMPTS sv jwt ctx"

section \<open>Revocation\<close>

definition was_bound :: "request_context \<Rightarrow> bool prog" where
  "was_bound ctx =
     try_catch
       (GetBinding (rc_session_id ctx) (\<lambda>read. lift_res read (\<lambda>found. Return (found \<noteq> None))))
       (\<lambda>e. if isinstance e CorruptStateError then Return True else Raise e)
       Return"

definition revoke :: "'k server \<Rightarrow> request_context \<Rightarrow> bool \<Rightarrow> dbsc_response prog" where
  "revoke sv ctx enforcement_terminated =
     bind (was_bound ctx) (\<lambda>bound.
     DeleteSession (rc_session_id ctx) (
     let resp = empty_response
           \<lparr>rs_headers := NO_STORE, rs_cookies := [cookie_deletion (cfg_cookie_name (sv_config sv))]\<rparr> in
     if bound then
       if enforcement_terminated then
         Log ENFORCEMENT_TERMINATED
           (S ''DBSC enforcement terminated session (cookie missing or mismatched).'')
           (rc_user_id ctx) (Return resp)
       else Log REVOKED (S ''DBSC session revoked.'') (rc_user_id ctx) (Return resp)
     else Return resp))"

section \<open>The primitives of the enforcement gate\<close>

definition session_binding :: "request_context \<Rightarrow> binding option prog" where
  "session_binding ctx = GetBinding (rc_session_id ctx) (\<lambda>read. lift_res read Return)"

definition bound_cookie_matches :: "'k server \<Rightarrow> binding \<Rightarrow> request_context \<Rightarrow> bool prog" where
  "bound_cookie_matches sv binding ctx =
     (if \<not> same_user (b_user_id binding) (rc_user_id ctx) then Return False
      else
        let presented = or_else (cookie ctx (cfg_cookie_name (sv_config sv))) [] in
        if presented = [] then Return False
        else lift_res
          (if b_cookie_value binding = [] then Inr False
           else constant_time_equals (b_cookie_value binding) presented) (\<lambda>current.
          if current then Return True
          else if b_previous_cookie_value binding = [] then Return False
          else Now (\<lambda>t.
            if t < b_previous_cookie_expires_at binding
            then lift_res (constant_time_equals (b_previous_cookie_value binding) presented) Return
            else Return False)))"

definition is_document_request :: "request_context \<Rightarrow> bool" where
  "is_document_request ctx \<longleftrightarrow> header ctx (S ''Sec-Fetch-Dest'') = Some (S ''document'')"

definition is_within_registration_grace :: "'k server \<Rightarrow> binding \<Rightarrow> bool prog" where
  "is_within_registration_grace sv binding = Now (\<lambda>t.
     Return (t - b_created_at binding < cfg_registration_grace_seconds (sv_config sv)))"

definition advertise_refresh_challenge ::
  "'k server \<Rightarrow> binding \<Rightarrow> request_context \<Rightarrow> dbsc_response prog" where
  "advertise_refresh_challenge sv binding ctx =
     (if \<not> same_user (b_user_id binding) (rc_user_id ctx) \<or> b_challenge_advertised binding \<or>
         b_has_refreshed binding \<or> b_challenge binding = []
      then Return empty_response
      else Now (\<lambda>t.
        if t - b_challenge_time binding > cfg_challenge_ttl_seconds (sv_config sv)
        then Return empty_response
        else lift_res (mark_challenge_advertised binding) (\<lambda>marked.
        ReplaceBinding (rc_session_id ctx) binding marked (\<lambda>reply. lift_res reply (\<lambda>replaced.
        if \<not> replaced then Return empty_response
        else Return (empty_response
          \<lparr>rs_headers :=
             challenge_headers (b_session_identifier binding) (b_challenge binding) @ NO_STORE\<rparr>))))))"

definition session_instructions_json :: "'k server \<Rightarrow> request_context \<Rightarrow> pystr prog" where
  "session_instructions_json sv ctx =
     GetBinding (rc_session_id ctx) (\<lambda>read. lift_res read (\<lambda>found.
     case found of
       None \<Rightarrow> Return (S ''{}'')
     | Some binding \<Rightarrow>
         if b_session_identifier binding = [] then Return (S ''{}'')
         else Return (instructions_json sv (b_session_identifier binding) ctx)))"

end
