(* ===== verification/Conduct.thy ===== *)
theory Conduct
  imports Server
begin

text \<open>
  Reasoning about coroutines. \<open>runs_iff\<close> unfolds what a finished run did, effect by effect.
  \<open>obeys R G Q h p\<close> is a rely-guarantee judgement: after the effects \<open>h\<close>, as long as the replies
  satisfy \<open>R\<close>, every further effect of \<open>p\<close> satisfies \<open>G\<close> (given the effects before it) and every
  outcome satisfies \<open>Q\<close> (given all effects). It holds of unfinished runs too, which is what the
  interleaving of requests needs.
\<close>

section \<open>Finished runs\<close>

named_theorems runs_iff \<open>what a finished run did\<close>

lemma runs_effects [runs_iff]:
  "runs (Now k) evs out \<longleftrightarrow> (\<exists>t es. evs = ENow t # es \<and> runs (k t) es out)"
  "runs (TokenHex n d) evs out \<longleftrightarrow> (\<exists>v es. evs = EToken n v # es \<and> runs (d v) es out)"
  "runs (Log ev m u p) evs out \<longleftrightarrow> (\<exists>es. evs = ELog ev m u # es \<and> runs p es out)"
  "runs (PutPending sid r p) evs out \<longleftrightarrow> (\<exists>es. evs = EPutPending sid r # es \<and> runs p es out)"
  "runs (GetPending sid j) evs out \<longleftrightarrow> (\<exists>x es. evs = EGetPending sid x # es \<and> runs (j x) es out)"
  "runs (GetBinding sid g) evs out \<longleftrightarrow> (\<exists>y es. evs = EGetBinding sid y # es \<and> runs (g y) es out)"
  "runs (DeleteSession sid p) evs out \<longleftrightarrow> (\<exists>es. evs = EDelete sid # es \<and> runs p es out)"
  "runs (CommitRegistration sid q b c) evs out \<longleftrightarrow>
     (\<exists>z es. evs = ECommit sid q b z # es \<and> runs (c z) es out)"
  "runs (ReplaceBinding sid e n' c) evs out \<longleftrightarrow>
     (\<exists>z es. evs = EReplace sid e n' z # es \<and> runs (c z) es out)"
  by (auto split: list.splits event.splits)

lemma runs_lift_res [runs_iff]:
  "runs (lift_res r k) evs out \<longleftrightarrow>
     (\<exists>e. r = Inl e \<and> evs = [] \<and> out = Inl e) \<or> (\<exists>x. r = Inr x \<and> runs (k x) evs out)"
  by (cases r) auto

text \<open>Branches, as disjunctions of the cases.\<close>

lemma runs_branch [runs_iff]:
  "runs (if c then p else q) evs out \<longleftrightarrow> c \<and> runs p evs out \<or> \<not> c \<and> runs q evs out"
  "runs (case v of None \<Rightarrow> p | Some x \<Rightarrow> f x) evs out \<longleftrightarrow>
     v = None \<and> runs p evs out \<or> (\<exists>x. v = Some x \<and> runs (f x) evs out)"
  "runs (case r of Inl e \<Rightarrow> g e | Inr y \<Rightarrow> j y) evs out \<longleftrightarrow>
     (\<exists>e. r = Inl e \<and> runs (g e) evs out) \<or> (\<exists>y. r = Inr y \<and> runs (j y) evs out)"
  by (auto split: option.split sum.split)

declare runs.simps(3-11) [simp del]

lemma runs_bindI:
  "runs p es (Inr x) \<Longrightarrow> runs (f x) fs out \<Longrightarrow> runs (bind p f) (es @ fs) out"
  by (induction p arbitrary: es) (auto simp: runs_iff)

lemma runs_bind_raises: "runs p es (Inl e) \<Longrightarrow> runs (bind p f) es (Inl e)"
  by (induction p arbitrary: es) (auto simp: runs_iff)

text \<open>Where a sequence of effects ends the first coroutine and starts the second.\<close>

definition splits ::
  "(event list \<Rightarrow> 'a result \<Rightarrow> bool) \<Rightarrow> ('a \<Rightarrow> event list \<Rightarrow> bool) \<Rightarrow> 'b result \<Rightarrow> event list \<Rightarrow> bool" where
  "splits A B out evs \<longleftrightarrow>
     (\<exists>es fs x. evs = es @ fs \<and> A es (Inr x) \<and> B x fs) \<or> (\<exists>e. A evs (Inl e) \<and> out = Inl e)"

lemma splits_Cons: "splits A B out evs \<Longrightarrow> (\<And>es r. A es r \<Longrightarrow> A' (ev # es) r) \<Longrightarrow> splits A' B out (ev # evs)"
  unfolding splits_def by (metis append_Cons)

lemma runs_bindE:
  "runs (bind p f) evs out \<Longrightarrow> splits (runs p) (\<lambda>x fs. runs (f x) fs out) out evs"
proof (induction p arbitrary: evs)
  case (Return x) then show ?case by (auto simp: splits_def)
next
  case (Raise e) then show ?case by (auto simp: splits_def)
qed (clarsimp simp: runs_iff, rule splits_Cons, blast intro: rangeI, simp add: runs_iff)+

lemma runs_bind:
  "runs (bind p f) evs out \<longleftrightarrow>
     (\<exists>es fs x. evs = es @ fs \<and> runs p es (Inr x) \<and> runs (f x) fs out) \<or>
     (\<exists>e. runs p evs (Inl e) \<and> out = Inl e)"
  using runs_bindE [of p f evs out] runs_bindI [of p] runs_bind_raises [of p]
  unfolding splits_def by blast

section \<open>Rely and guarantee\<close>

primrec obeys ::
  "(event \<Rightarrow> bool) \<Rightarrow> (event list \<Rightarrow> event \<Rightarrow> bool) \<Rightarrow> (event list \<Rightarrow> 'a result \<Rightarrow> bool) \<Rightarrow>
   event list \<Rightarrow> 'a prog \<Rightarrow> bool" where
  "obeys R G Q h (Return x) = Q h (Inr x)"
| "obeys R G Q h (Raise e) = Q h (Inl e)"
| "obeys R G Q h (Now k) =
     (\<forall>t. R (ENow t) \<longrightarrow> G h (ENow t) \<and> obeys R G Q (h @ [ENow t]) (k t))"
| "obeys R G Q h (TokenHex n k) =
     (\<forall>v. R (EToken n v) \<longrightarrow> G h (EToken n v) \<and> obeys R G Q (h @ [EToken n v]) (k v))"
| "obeys R G Q h (Log ev m u p) =
     (R (ELog ev m u) \<longrightarrow> G h (ELog ev m u) \<and> obeys R G Q (h @ [ELog ev m u]) p)"
| "obeys R G Q h (PutPending sid r p) =
     (R (EPutPending sid r) \<longrightarrow> G h (EPutPending sid r) \<and> obeys R G Q (h @ [EPutPending sid r]) p)"
| "obeys R G Q h (GetPending sid k) =
     (\<forall>r. R (EGetPending sid r) \<longrightarrow>
        G h (EGetPending sid r) \<and> obeys R G Q (h @ [EGetPending sid r]) (k r))"
| "obeys R G Q h (GetBinding sid k) =
     (\<forall>r. R (EGetBinding sid r) \<longrightarrow>
        G h (EGetBinding sid r) \<and> obeys R G Q (h @ [EGetBinding sid r]) (k r))"
| "obeys R G Q h (DeleteSession sid p) =
     (R (EDelete sid) \<longrightarrow> G h (EDelete sid) \<and> obeys R G Q (h @ [EDelete sid]) p)"
| "obeys R G Q h (CommitRegistration sid q b k) =
     (\<forall>r. R (ECommit sid q b r) \<longrightarrow>
        G h (ECommit sid q b r) \<and> obeys R G Q (h @ [ECommit sid q b r]) (k r))"
| "obeys R G Q h (ReplaceBinding sid e n k) =
     (\<forall>r. R (EReplace sid e n r) \<longrightarrow>
        G h (EReplace sid e n r) \<and> obeys R G Q (h @ [EReplace sid e n r]) (k r))"

lemma obeys_lift_res [simp]:
  "obeys R G Q h (lift_res r k) =
     (case r of Inl e \<Rightarrow> Q h (Inl e) | Inr x \<Rightarrow> obeys R G Q h (k x))"
  by (cases r) auto

lemma obeys_bind:
  "obeys R G Q h (bind p f) =
     obeys R G (\<lambda>h r. case r of Inl e \<Rightarrow> Q h (Inl e) | Inr x \<Rightarrow> obeys R G Q h (f x)) h p"
  by (induction p arbitrary: h) auto

lemma obeys_try_catch:
  "obeys R G Q h (try_catch p k f) =
     obeys R G (\<lambda>h r. case r of Inl e \<Rightarrow> obeys R G Q h (k e) | Inr x \<Rightarrow> obeys R G Q h (f x)) h p"
  by (induction p arbitrary: h) auto

lemma obeys_mono:
  assumes "obeys R G Q h p"
    and "\<And>h ev. R ev \<Longrightarrow> G h ev \<Longrightarrow> G' h ev" and "\<And>h r. Q h r \<Longrightarrow> Q' h r"
  shows "obeys R G' Q' h p"
  using assms(1) by (induction p arbitrary: h) (auto intro: assms(2,3))

lemma obeys_conj:
  "obeys R G Q h p \<Longrightarrow> obeys R G' Q' h p \<Longrightarrow>
     obeys R (\<lambda>h ev. G h ev \<and> G' h ev) (\<lambda>h r. Q h r \<and> Q' h r) h p"
  by (induction p arbitrary: h) auto

text \<open>One effect of a coroutine that obeys a judgement.\<close>

lemma obeys_step:
  "obeys R G Q h p \<Longrightarrow> step so p w = Some (ev, q, w') \<Longrightarrow> R ev \<Longrightarrow>
     G h ev \<and> obeys R G Q (h @ [ev]) q"
  by (cases p) (auto simp: Let_def split: prod.splits)

lemma obeys_runs:
  "obeys R G Q h p \<Longrightarrow> runs p evs out \<Longrightarrow> list_all R evs \<Longrightarrow> Q (h @ evs) out"
proof (induction p arbitrary: h evs)
  case (Return x) then show ?case by auto
next
  case (Raise e) then show ?case by auto
qed (auto simp: runs_iff; fastforce)+

end
