(* ===== verification/ServerLaws.thy ===== *)
theory ServerLaws
  imports Conduct
begin

text \<open>
  What each method of the server does, whatever else happens between its effects: the writes it
  makes, the audit entries it leaves, what a write was preceded by, and how outcome and writes
  relate. The replies are arbitrary, or \<open>reply_ok\<close> where a lemma needs what the contract of the
  store and \<open>secrets.token_hex\<close> promise.
\<close>

section \<open>Effects\<close>

text \<open>The effects that changed a record.\<close>

fun wrote :: "event \<Rightarrow> bool" where
  "wrote (EPutPending sid p) = True"
| "wrote (EDelete sid) = True"
| "wrote (ECommit sid q b r) = (r = Inr True)"
| "wrote (EReplace sid e n r) = (r = Inr True)"
| "wrote ev = False"

definition writes :: "event list \<Rightarrow> event list" where
  "writes evs = filter wrote evs"

fun audit_entry :: "event \<Rightarrow> (audit_event \<times> pystr \<times> pystr) list" where
  "audit_entry (ELog ev m u) = [(ev, m, u)]"
| "audit_entry ev = []"

definition audits :: "event list \<Rightarrow> (audit_event \<times> pystr \<times> pystr) list" where
  "audits evs = concat (map audit_entry evs)"

definition attempts :: "event list \<Rightarrow> nat" where
  "attempts evs = length (filter (\<lambda>ev. case ev of EReplace _ _ _ _ \<Rightarrow> True | _ \<Rightarrow> False) evs)"

lemma writes_simps [simp]:
  "writes [] = []" "writes (ev # evs) = (if wrote ev then [ev] else []) @ writes evs"
  "writes (evs @ fs) = writes evs @ writes fs"
  by (simp_all add: writes_def)

lemma audits_simps [simp]:
  "audits [] = []" "audits (ev # evs) = audit_entry ev @ audits evs"
  "audits (evs @ fs) = audits evs @ audits fs"
  by (simp_all add: audits_def)

lemma attempts_simps [simp]:
  "attempts [] = 0"
  "attempts (ev # evs) = (case ev of EReplace _ _ _ _ \<Rightarrow> 1 | _ \<Rightarrow> 0) + attempts evs"
  "attempts (evs @ fs) = attempts evs + attempts fs"
  by (simp_all add: attempts_def split: event.split)

text \<open>What the store's contract and \<open>secrets.token_hex\<close> promise of a reply.\<close>

fun reply_ok :: "event \<Rightarrow> bool" where
  "reply_ok (EToken n v) = (list_all is_hex_lower v \<and> length v = 2 * n)"
| "reply_ok (EGetPending sid r) =
     (case r of Inl e \<Rightarrow> exn_cls e = CorruptStateError | Inr p \<Rightarrow> pred_option pending_valid p)"
| "reply_ok (EGetBinding sid r) =
     (case r of Inl e \<Rightarrow> exn_cls e = CorruptStateError | Inr b \<Rightarrow> pred_option binding_valid b)"
| "reply_ok (ECommit sid q b r) = (case r of Inl e \<Rightarrow> exn_cls e = CorruptStateError | Inr _ \<Rightarrow> True)"
| "reply_ok (EReplace sid e n r) = (case r of Inl e \<Rightarrow> exn_cls e = CorruptStateError | Inr _ \<Rightarrow> True)"
| "reply_ok ev = True"

text \<open>What they promise if the store may also fail in some other way: only valid records.\<close>

fun reply_valid :: "event \<Rightarrow> bool" where
  "reply_valid (EToken n v) = (list_all is_hex_lower v \<and> length v = 2 * n)"
| "reply_valid (EGetPending sid r) = (case r of Inl e \<Rightarrow> True | Inr p \<Rightarrow> pred_option pending_valid p)"
| "reply_valid (EGetBinding sid r) = (case r of Inl e \<Rightarrow> True | Inr b \<Rightarrow> pred_option binding_valid b)"
| "reply_valid ev = True"

lemma hex_safe:
  assumes "list_all is_hex_lower v"
  shows "is_sf_string_safe v" and "is_cookie_value v"
  using assms
  by (auto simp: is_sf_string_safe_iff is_cookie_value_iff is_hex_lower_def is_digit_def
      sf_char_def cookie_octet_def elim!: list.pred_mono_strong)

lemma token_not_Nil: "reply_ok (EToken n v) \<Longrightarrow> 0 < n \<Longrightarrow> v \<noteq> []"
  by auto

lemmas byte_counts = NONCE_BYTES_def SESSION_ID_BYTES_def COOKIE_VALUE_BYTES_def

lemmas flat = nonce_def fail_def raise_def

section \<open>Registration\<close>

text \<open>The binding a verified registration creates.\<close>

definition new_binding ::
  "request_context \<Rightarrow> pending_registration \<Rightarrow> registration_result \<Rightarrow> int \<Rightarrow> pystr \<Rightarrow> pystr \<Rightarrow> pystr \<Rightarrow>
   binding" where
  "new_binding ctx pending res now session_identifier cookie_value challenge =
     \<lparr>b_user_id = (if p_user_id pending \<noteq> [] then p_user_id pending else rc_user_id ctx),
      b_session_identifier = session_identifier,
      b_cookie_value = cookie_value,
      b_public_key_pem = rr_public_key_pem res,
      b_algorithm = rr_algorithm res,
      b_challenge = challenge,
      b_challenge_time = now,
      b_created_at = now,
      b_cookie_issued_at = now,
      b_previous_cookie_value = [],
      b_previous_cookie_expires_at = 0,
      b_has_refreshed = False,
      b_previous_challenge = [],
      b_previous_challenge_time = 0,
      b_challenge_advertised = False\<rparr>"

lemma new_binding_simps [simp]:
  "b_session_identifier (new_binding ctx q res now i c h) = i"
  "b_cookie_value (new_binding ctx q res now i c h) = c"
  "b_public_key_pem (new_binding ctx q res now i c h) = rr_public_key_pem res"
  "b_algorithm (new_binding ctx q res now i c h) = rr_algorithm res"
  "b_challenge (new_binding ctx q res now i c h) = h"
  "b_challenge_time (new_binding ctx q res now i c h) = now"
  "b_created_at (new_binding ctx q res now i c h) = now"
  "b_cookie_issued_at (new_binding ctx q res now i c h) = now"
  "b_previous_cookie_value (new_binding ctx q res now i c h) = []"
  "b_previous_challenge (new_binding ctx q res now i c h) = []"
  "b_has_refreshed (new_binding ctx q res now i c h) = False"
  "b_challenge_advertised (new_binding ctx q res now i c h) = False"
  by (simp_all add: new_binding_def)

lemmas register_code = register_def [folded new_binding_def]

text \<open>The proof answers the offer: same user, and the device key signed the offered challenge.\<close>

definition answers :: "'k server \<Rightarrow> pystr \<Rightarrow> request_context \<Rightarrow> pending_registration \<Rightarrow>
    registration_result \<Rightarrow> bool" where
  "answers sv jwt ctx offer res \<longleftrightarrow>
     same_user (p_user_id offer) (rc_user_id ctx) \<and>
     parse_and_verify_registration (sv_lib sv) (sv_depth sv) jwt = Inr res \<and>
     constant_time_equals (p_reg_challenge offer) (rr_challenge res) = Inr True"

definition register_response ::
  "'k server \<Rightarrow> request_context \<Rightarrow> binding \<Rightarrow> int \<Rightarrow> dbsc_response" where
  "register_response sv ctx b t =
     \<lparr>rs_headers = [(S ''Sec-Secure-Session-Id'', b_session_identifier b)] @ NO_STORE,
      rs_cookies = [Cookie (cfg_cookie_name (sv_config sv)) (b_cookie_value b)
        (t + cfg_cookie_max_age_seconds (sv_config sv)) (cfg_cookie_same_site (sv_config sv))],
      rs_status = Some 200,
      rs_body = Some (instructions_json sv (b_session_identifier b) ctx),
      rs_content_type = Some (S ''application/json'')\<rparr>"

lemma register_success_iff:
  "runs (register sv jwt ctx) evs (Inr resp) \<longleftrightarrow>
     (\<exists>offer res read now ident ck ch issued.
        answers sv jwt ctx offer res \<and>
        read - p_reg_challenge_time offer \<le> cfg_challenge_ttl_seconds (sv_config sv) \<and>
        binding_valid (new_binding ctx offer res now ident ck ch) \<and>
        evs = [EGetPending (rc_session_id ctx) (Inr (Some offer)), ENow read, ENow now,
               EToken 32 ident, EToken 32 ck, EToken 32 ch,
               ECommit (rc_session_id ctx) offer (new_binding ctx offer res now ident ck ch) (Inr True),
               ELog REGISTERED (S ''DBSC session registered.'') (rc_user_id ctx), ENow issued] \<and>
        resp = register_response sv ctx (new_binding ctx offer res now ident ck ch) issued)"
  by (auto simp: register_code flat runs_iff runs_bind bound_cookie_def answers_def byte_counts
      Binding_eq_Inr register_response_def)

lemma new_binding_valid:
  "list_all is_hex_lower i \<Longrightarrow> list_all is_hex_lower c \<Longrightarrow> list_all is_hex_lower h \<Longrightarrow>
     binding_valid (new_binding ctx q res now i c h)"
  by (simp add: binding_valid_def hex_safe)

lemma constant_time_equals_raises:
  "constant_time_equals k p = Inl e \<longleftrightarrow>
     \<not> (encodable k \<and> encodable p) \<and> e = Exn UnicodeEncodeError (S ''surrogates not allowed'')"
  by (auto simp: constant_time_equals_iff)

lemma constant_time_equals_eq_Inr:
  "constant_time_equals k p = Inr b \<longleftrightarrow> encodable k \<and> encodable p \<and> b = (k = p)"
  by (auto simp: constant_time_equals_iff)

lemma register_failure:
  "runs (register sv jwt ctx) evs (Inl e) \<Longrightarrow> list_all reply_ok evs \<Longrightarrow>
     writes evs = [] \<and>
     (exn_cls e = CorruptStateError \<and> audits evs = [] \<or>
      exn_cls e = UnicodeEncodeError \<and> audits evs = [] \<and>
        (\<exists>res. parse_and_verify_registration (sv_lib sv) (sv_depth sv) jwt = Inr res \<and>
           \<not> encodable (rr_challenge res)) \<or>
      exn_cls e \<in> {JwtInvalidError, ChallengeExpiredError, MissingChallengeError, SessionNotFoundError} \<and>
        (\<exists>m. audits evs = [(REGISTRATION_FAILED, m, rc_user_id ctx)]))"
  by (auto simp: register_code flat runs_iff runs_bind bound_cookie_def isinstance_def
      new_binding_valid constant_time_equals_raises pending_valid_def sf_safe_encodable
      dest: registration_errors)

section \<open>Refresh\<close>

text \<open>The proof a refresh needs, and the two clock readings that time it.\<close>

definition proves ::
  "'k server \<Rightarrow> pystr \<Rightarrow> request_context \<Rightarrow> binding \<Rightarrow> int \<Rightarrow> event list \<Rightarrow> bool" where
  "proves sv jwt ctx b t later \<longleftrightarrow>
     same_user (b_user_id b) (rc_user_id ctx) \<and> session_id_presented b ctx = Inr True \<and>
     b_challenge b \<noteq> [] \<and> t - b_challenge_time b \<le> cfg_challenge_ttl_seconds (sv_config sv) \<and>
     (\<exists>jti. parse_and_verify_refresh (sv_lib sv) (sv_depth sv) jwt (b_public_key_pem b) = Inr jti \<and>
        encodable jti \<and> encodable (b_challenge b) \<and>
        (jti = b_challenge b \<and> later = [] \<or>
         jti \<noteq> b_challenge b \<and> jti = b_previous_challenge b \<and> jti \<noteq> [] \<and>
           (\<exists>t'. later = [ENow t'] \<and>
              t' - b_previous_challenge_time b \<le> cfg_challenge_ttl_seconds (sv_config sv))))"

lemma challenge_matches_True:
  "runs (challenge_matches cfg b jti) es (Inr True) \<longleftrightarrow>
     encodable jti \<and> encodable (b_challenge b) \<and>
     (jti = b_challenge b \<and> es = [] \<or>
      jti \<noteq> b_challenge b \<and> jti = b_previous_challenge b \<and> jti \<noteq> [] \<and>
        (\<exists>t. es = [ENow t] \<and> t - b_previous_challenge_time b \<le> cfg_challenge_ttl_seconds cfg))"
  by (auto simp: challenge_matches_def runs_iff constant_time_equals_eq_Inr)

lemma challenge_matches_quiet:
  "runs (challenge_matches cfg b jti) es (Inr m) \<Longrightarrow>
     es = [] \<or> (\<exists>t. es = [ENow t])"
  by (auto simp: challenge_matches_def runs_iff)

lemma challenge_matches_raises:
  "runs (challenge_matches cfg b jti) es (Inl e) \<Longrightarrow>
     exn_cls e = UnicodeEncodeError \<and> (es = [] \<or> (\<exists>t. es = [ENow t]))"
  by (auto simp: challenge_matches_def runs_iff constant_time_equals_raises)

lemma binding_proved_iff:
  "runs (binding_proved_by sv jwt ctx) evs (Inr b) \<longleftrightarrow>
     (\<exists>t later. evs = EGetBinding (rc_session_id ctx) (Inr (Some b)) # ENow t # later \<and>
        proves sv jwt ctx b t later)"
  by (auto simp: binding_proved_by_def flat runs_iff runs_bind proves_def ex_bool_eq
      challenge_matches_True)

lemma session_id_presented_raises:
  "session_id_presented b ctx = Inl e \<Longrightarrow> exn_cls e = UnicodeEncodeError"
  by (auto simp: session_id_presented_def constant_time_equals_raises Let_def split: if_splits)

lemma binding_proved_failure:
  "runs (binding_proved_by sv jwt ctx) evs (Inl e) \<Longrightarrow> list_all reply_ok evs \<Longrightarrow>
     writes evs = [] \<and> attempts evs = 0 \<and>
     (exn_cls e = CorruptStateError \<and> audits evs = [] \<or>
      exn_cls e = UnicodeEncodeError \<and> audits evs = [] \<or>
      exn_cls e \<in> {JwtInvalidError, SessionNotFoundError} \<and>
        (\<exists>m. audits evs = [(REFRESH_FAILED, m, rc_user_id ctx)]) \<or>
      exn_cls e \<in> {ChallengeExpiredError, ChallengeMismatchError, MissingChallengeError} \<and>
        (\<exists>m. audits evs = [(REFRESH_RETRYABLE, m, rc_user_id ctx)]))"
  by (auto simp: binding_proved_by_def flat runs_iff runs_bind isinstance_def
      dest!: refresh_errors session_id_presented_raises challenge_matches_raises challenge_matches_quiet)

text \<open>The binding a refresh writes, and its response.\<close>

definition rotated_binding :: "'k server \<Rightarrow> binding \<Rightarrow> int \<Rightarrow> pystr \<Rightarrow> pystr \<Rightarrow> binding" where
  "rotated_binding sv b now new_cookie new_challenge = b
     \<lparr>b_cookie_value := new_cookie, b_challenge := new_challenge, b_challenge_time := now,
      b_cookie_issued_at := now, b_previous_cookie_value := b_cookie_value b,
      b_previous_cookie_expires_at :=
        b_cookie_issued_at b + cfg_cookie_max_age_seconds (sv_config sv),
      b_has_refreshed := True, b_previous_challenge := [], b_previous_challenge_time := 0\<rparr>"

definition refresh_response ::
  "'k server \<Rightarrow> request_context \<Rightarrow> binding \<Rightarrow> int \<Rightarrow> dbsc_response" where
  "refresh_response sv ctx b t =
     \<lparr>rs_headers = challenge_headers (b_session_identifier b) (b_challenge b) @ NO_STORE,
      rs_cookies = [Cookie (cfg_cookie_name (sv_config sv)) (b_cookie_value b)
        (t + cfg_cookie_max_age_seconds (sv_config sv)) (cfg_cookie_same_site (sv_config sv))],
      rs_status = Some 200,
      rs_body = Some (instructions_json sv (b_session_identifier b) ctx),
      rs_content_type = Some (S ''application/json'')\<rparr>"

lemma rotated_binding_simps [simp]:
  "b_session_identifier (rotated_binding sv b now c h) = b_session_identifier b"
  "b_public_key_pem (rotated_binding sv b now c h) = b_public_key_pem b"
  "b_user_id (rotated_binding sv b now c h) = b_user_id b"
  "b_algorithm (rotated_binding sv b now c h) = b_algorithm b"
  "b_created_at (rotated_binding sv b now c h) = b_created_at b"
  "b_cookie_value (rotated_binding sv b now c h) = c"
  "b_challenge (rotated_binding sv b now c h) = h"
  "b_challenge_time (rotated_binding sv b now c h) = now"
  "b_cookie_issued_at (rotated_binding sv b now c h) = now"
  "b_previous_cookie_value (rotated_binding sv b now c h) = b_cookie_value b"
  "b_previous_cookie_expires_at (rotated_binding sv b now c h) =
     b_cookie_issued_at b + cfg_cookie_max_age_seconds (sv_config sv)"
  "b_previous_challenge (rotated_binding sv b now c h) = []"
  "b_previous_challenge_time (rotated_binding sv b now c h) = 0"
  "b_has_refreshed (rotated_binding sv b now c h) = True"
  "b_challenge_advertised (rotated_binding sv b now c h) = b_challenge_advertised b"
  by (simp_all add: rotated_binding_def)

lemma with_rotated_iff:
  "with_rotated_cookie_and_challenge b c h now now (cfg_cookie_max_age_seconds (sv_config sv)) = Inr b' \<longleftrightarrow>
     binding_valid (rotated_binding sv b now c h) \<and> b' = rotated_binding sv b now c h"
  by (simp add: with_rotated_cookie_and_challenge_def rotated_binding_def Binding_eq_Inr)

lemma rotated_binding_valid:
  "binding_valid b \<Longrightarrow> list_all is_hex_lower c \<Longrightarrow> list_all is_hex_lower h \<Longrightarrow>
     binding_valid (rotated_binding sv b now c h)"
  by (simp add: binding_valid_def hex_safe)

lemma proves_quiet: "proves sv jwt ctx b t later \<Longrightarrow> later = [] \<or> (\<exists>t'. later = [ENow t'])"
  by (auto simp: proves_def)

definition refreshed ::
  "nat \<Rightarrow> 'k server \<Rightarrow> pystr \<Rightarrow> request_context \<Rightarrow> event list \<Rightarrow> dbsc_response \<Rightarrow> bool" where
  "refreshed n sv jwt ctx evs resp \<longleftrightarrow>
     (\<exists>before b t later now ck ch issued.
        proves sv jwt ctx b t later \<and> binding_valid (rotated_binding sv b now ck ch) \<and>
        evs = before @ EGetBinding (rc_session_id ctx) (Inr (Some b)) # ENow t # later @
          [ENow now, EToken 32 ck, EToken 32 ch,
           EReplace (rc_session_id ctx) b (rotated_binding sv b now ck ch) (Inr True),
           ELog REFRESHED (S ''DBSC cookie refreshed.'') (rc_user_id ctx), ENow issued] \<and>
        writes before = [] \<and> audits before = [] \<and> attempts before < n \<and>
        resp = refresh_response sv ctx (rotated_binding sv b now ck ch) issued)"

lemma refreshed_later:
  "refreshed n sv jwt ctx evs resp \<Longrightarrow> writes pre = [] \<Longrightarrow> audits pre = [] \<Longrightarrow> attempts pre = 1 \<Longrightarrow>
     refreshed (Suc n) sv jwt ctx (pre @ evs) resp"
  unfolding refreshed_def
  apply (elim exE conjE)
  subgoal for before b t later now ck ch issued
    by (rule exI [of _ "pre @ before"], rule exI [of _ b], rule exI [of _ t], rule exI [of _ later],
        rule exI [of _ now], rule exI [of _ ck], rule exI [of _ ch], rule exI [of _ issued]) simp
  done

lemma refresh_success:
  "runs (refresh_attempts n sv jwt ctx) evs (Inr resp) \<Longrightarrow> refreshed n sv jwt ctx evs resp"
proof (induction n arbitrary: evs)
  case 0
  then show ?case by (simp add: flat runs_iff)
next
  case (Suc n)
  then obtain b t later now ck ch r es where
    prov: "proves sv jwt ctx b t later" and
    valid: "binding_valid (rotated_binding sv b now ck ch)" and
    evs: "evs = EGetBinding (rc_session_id ctx) (Inr (Some b)) # ENow t # later @
      [ENow now, EToken 32 ck, EToken 32 ch,
       EReplace (rc_session_id ctx) b (rotated_binding sv b now ck ch) (Inr r)] @ es" and
    rest: "if r
      then \<exists>issued. es = [ELog REFRESHED (S ''DBSC cookie refreshed.'') (rc_user_id ctx), ENow issued] \<and>
        resp = refresh_response sv ctx (rotated_binding sv b now ck ch) issued
      else runs (refresh_attempts n sv jwt ctx) es (Inr resp)"
    by (auto simp: runs_bind runs_iff flat binding_proved_iff with_rotated_iff byte_counts
        bound_cookie_def refresh_response_def)
  show ?case
  proof (cases r)
    case True
    with prov valid evs rest show ?thesis
      by (auto simp: refreshed_def intro!: exI [of _ "[]"])
  next
    case False
    with rest Suc.IH have "refreshed n sv jwt ctx es resp" by simp
    from refreshed_later [OF this, of "EGetBinding (rc_session_id ctx) (Inr (Some b)) # ENow t # later @
      [ENow now, EToken 32 ck, EToken 32 ch,
       EReplace (rc_session_id ctx) b (rotated_binding sv b now ck ch) (Inr False)]"] False evs
      proves_quiet [OF prov]
    show ?thesis by auto
  qed
qed

text \<open>How a failed refresh is classified: the error, and the audit entry that goes with it.\<close>

definition refresh_failed :: "request_context \<Rightarrow> event list \<Rightarrow> exn \<Rightarrow> bool" where
  "refresh_failed ctx evs e \<longleftrightarrow>
     exn_cls e = CorruptStateError \<and> audits evs = [] \<or>
     exn_cls e = UnicodeEncodeError \<and> audits evs = [] \<or>
     exn_cls e \<in> {JwtInvalidError, SessionNotFoundError} \<and>
       (\<exists>m. audits evs = [(REFRESH_FAILED, m, rc_user_id ctx)]) \<or>
     exn_cls e \<in> {ChallengeExpiredError, ChallengeMismatchError, MissingChallengeError} \<and>
       (\<exists>m. audits evs = [(REFRESH_RETRYABLE, m, rc_user_id ctx)])"

lemma refresh_failed_later:
  "refresh_failed ctx evs e \<Longrightarrow> audits pre = [] \<Longrightarrow> refresh_failed ctx (pre @ evs) e"
  by (simp add: refresh_failed_def)

text \<open>What follows the proof in one attempt.\<close>

definition rotation :: "nat \<Rightarrow> 'k server \<Rightarrow> pystr \<Rightarrow> request_context \<Rightarrow> binding \<Rightarrow> dbsc_response prog" where
  "rotation n sv jwt ctx b =
     Now (\<lambda>now. TokenHex 32 (\<lambda>ck. TokenHex 32 (\<lambda>ch.
     lift_res (with_rotated_cookie_and_challenge b ck ch now now
       (cfg_cookie_max_age_seconds (sv_config sv))) (\<lambda>rotated.
     ReplaceBinding (rc_session_id ctx) b rotated (\<lambda>reply. lift_res reply (\<lambda>replaced.
     if replaced then
       Log REFRESHED (S ''DBSC cookie refreshed.'') (rc_user_id ctx)
         (bind (bound_cookie sv ck) (\<lambda>c. Return
           \<lparr>rs_headers = challenge_headers (b_session_identifier rotated) ch @ NO_STORE,
            rs_cookies = [c],
            rs_status = Some 200,
            rs_body = Some (instructions_json sv (b_session_identifier rotated) ctx),
            rs_content_type = Some (S ''application/json'')\<rparr>))
     else refresh_attempts n sv jwt ctx))))))"

lemma refresh_attempts_Suc:
  "refresh_attempts (Suc n) sv jwt ctx = bind (binding_proved_by sv jwt ctx) (rotation n sv jwt ctx)"
  unfolding refresh_attempts.simps
  by (rule arg_cong [where f = "bind (binding_proved_by sv jwt ctx)"], rule ext)
    (simp only: rotation_def flat byte_counts)

lemma with_rotated_total:
  "binding_valid b \<Longrightarrow> list_all is_hex_lower c \<Longrightarrow> list_all is_hex_lower h \<Longrightarrow>
     with_rotated_cookie_and_challenge b c h now now (cfg_cookie_max_age_seconds (sv_config sv)) =
       Inr (rotated_binding sv b now c h)"
  by (simp add: with_rotated_iff rotated_binding_valid)

lemma rotation_failure:
  assumes "runs (rotation n sv jwt ctx b) evs (Inl e)" and "list_all reply_ok evs" and "binding_valid b"
  shows "\<exists>now ck ch r fs.
    evs = [ENow now, EToken 32 ck, EToken 32 ch,
      EReplace (rc_session_id ctx) b (rotated_binding sv b now ck ch) r] @ fs \<and>
    (r = Inl e \<and> fs = [] \<and> exn_cls e = CorruptStateError \<or>
     r = Inr False \<and> runs (refresh_attempts n sv jwt ctx) fs (Inl e))"
  using assms by (auto simp: rotation_def runs_iff runs_bind bound_cookie_def with_rotated_total)

lemma refresh_failure:
  "runs (refresh_attempts n sv jwt ctx) evs (Inl e) \<Longrightarrow> list_all reply_ok evs \<Longrightarrow>
     writes evs = [] \<and> attempts evs \<le> n \<and> refresh_failed ctx evs e"
proof (induction n arbitrary: evs)
  case 0
  then show ?case by (auto simp: flat runs_iff refresh_failed_def)
next
  case (Suc n)
  from Suc.prems(1) consider
      "runs (binding_proved_by sv jwt ctx) evs (Inl e)"
    | b es fs where "evs = es @ fs" "runs (binding_proved_by sv jwt ctx) es (Inr b)"
      "runs (rotation n sv jwt ctx b) fs (Inl e)"
    unfolding refresh_attempts_Suc by (auto simp: runs_bind)
  then show ?case
  proof cases
    case 1
    from binding_proved_failure [OF 1 Suc.prems(2)] show ?thesis
      by (simp add: refresh_failed_def)
  next
    case 2
    from 2(2) obtain t later where
      es: "es = EGetBinding (rc_session_id ctx) (Inr (Some b)) # ENow t # later" and
      "proves sv jwt ctx b t later"
      unfolding binding_proved_iff by blast
    from proves_quiet [OF this(2)] have later: "later = [] \<or> (\<exists>t'. later = [ENow t'])" .
    from 2(1) es Suc.prems(2) have "list_all reply_ok fs" "binding_valid b" by simp_all
    from rotation_failure [OF 2(3) this] obtain now ck ch r gs where
      fs: "fs = [ENow now, EToken 32 ck, EToken 32 ch,
        EReplace (rc_session_id ctx) b (rotated_binding sv b now ck ch) r] @ gs" and
      r: "r = Inl e \<and> gs = [] \<and> exn_cls e = CorruptStateError \<or>
        r = Inr False \<and> runs (refresh_attempts n sv jwt ctx) gs (Inl e)"
      by blast
    from r show ?thesis
    proof
      assume "r = Inl e \<and> gs = [] \<and> exn_cls e = CorruptStateError"
      with 2(1) es later fs show ?thesis by (auto simp: refresh_failed_def)
    next
      assume r: "r = Inr False \<and> runs (refresh_attempts n sv jwt ctx) gs (Inl e)"
      with Suc.IH [of gs] Suc.prems(2) 2(1) fs
      have "writes gs = [] \<and> attempts gs \<le> n \<and> refresh_failed ctx gs e" by simp
      with 2(1) es later fs r show ?thesis by (auto simp: refresh_failed_def)
    qed
  qed
qed

section \<open>Issuing a challenge\<close>

definition challenged_binding :: "binding \<Rightarrow> pystr \<Rightarrow> int \<Rightarrow> binding" where
  "challenged_binding b challenge now = b
     \<lparr>b_challenge := challenge, b_challenge_time := now,
      b_previous_challenge := b_challenge b, b_previous_challenge_time := b_challenge_time b\<rparr>"

lemma challenged_binding_simps [simp]:
  "b_session_identifier (challenged_binding b h now) = b_session_identifier b"
  "b_public_key_pem (challenged_binding b h now) = b_public_key_pem b"
  "b_user_id (challenged_binding b h now) = b_user_id b"
  "b_algorithm (challenged_binding b h now) = b_algorithm b"
  "b_created_at (challenged_binding b h now) = b_created_at b"
  "b_cookie_value (challenged_binding b h now) = b_cookie_value b"
  "b_cookie_issued_at (challenged_binding b h now) = b_cookie_issued_at b"
  "b_challenge (challenged_binding b h now) = h"
  "b_challenge_time (challenged_binding b h now) = now"
  "b_previous_challenge (challenged_binding b h now) = b_challenge b"
  "b_previous_challenge_time (challenged_binding b h now) = b_challenge_time b"
  "b_previous_cookie_value (challenged_binding b h now) = b_previous_cookie_value b"
  "b_has_refreshed (challenged_binding b h now) = b_has_refreshed b"
  "b_challenge_advertised (challenged_binding b h now) = b_challenge_advertised b"
  by (simp_all add: challenged_binding_def)

lemma with_challenge_iff:
  "with_challenge b h now = Inr b' \<longleftrightarrow>
     binding_valid (challenged_binding b h now) \<and> b' = challenged_binding b h now"
  by (simp add: with_challenge_def challenged_binding_def Binding_eq_Inr)

lemma challenged_binding_valid:
  "binding_valid b \<Longrightarrow> list_all is_hex_lower h \<Longrightarrow> binding_valid (challenged_binding b h now)"
  by (simp add: binding_valid_def hex_safe)

text \<open>
  A 403 names the challenge that the store holds at that moment: the one this request rotated in,
  or after lost races the stored one; it names none only where there is no binding.
\<close>

definition issued :: "nat \<Rightarrow> request_context \<Rightarrow> event list \<Rightarrow> dbsc_response \<Rightarrow> bool" where
  "issued n ctx evs resp \<longleftrightarrow>
     (\<exists>b h now pre. evs = pre @ [EGetBinding (rc_session_id ctx) (Inr (Some b)), EToken 32 h, ENow now,
        EReplace (rc_session_id ctx) b (challenged_binding b h now) (Inr True)] \<and>
        binding_valid (challenged_binding b h now) \<and>
        writes pre = [] \<and> attempts pre < n \<and> resp = challenge_403 (b_session_identifier b) h) \<or>
     (\<exists>b pre. evs = pre @ [EGetBinding (rc_session_id ctx) (Inr (Some b))] \<and>
        writes pre = [] \<and> attempts pre = n \<and>
        resp = challenge_403 (b_session_identifier b) (b_challenge b)) \<or>
     (\<exists>pre. evs = pre @ [EGetBinding (rc_session_id ctx) (Inr None)] \<and>
        writes pre = [] \<and> attempts pre \<le> n \<and> resp = bare_403)"

lemma with_challenge_total:
  "binding_valid b \<Longrightarrow> list_all is_hex_lower h \<Longrightarrow>
     with_challenge b h now = Inr (challenged_binding b h now)"
  by (simp add: with_challenge_iff challenged_binding_valid)

lemma issued_later:
  "issued n ctx evs resp \<Longrightarrow> writes pre = [] \<Longrightarrow> attempts pre = 1 \<Longrightarrow> issued (Suc n) ctx (pre @ evs) resp"
  unfolding issued_def
  apply (elim disjE exE conjE)
  subgoal for b h now before
    by (rule disjI1, rule exI [of _ b], rule exI [of _ h], rule exI [of _ now],
        rule exI [of _ "pre @ before"]) simp
  subgoal for b before
    by (rule disjI2, rule disjI1, rule exI [of _ b], rule exI [of _ "pre @ before"]) simp
  subgoal for before
    by (rule disjI2, rule disjI2, rule exI [of _ "pre @ before"]) simp
  done

lemma issue_success:
  "runs (issue_attempts n ctx) evs (Inr resp) \<Longrightarrow> issued n ctx evs resp"
proof (induction n arbitrary: evs)
  case 0
  then show ?case by (auto simp: runs_iff issued_def)
next
  case (Suc n)
  from Suc.prems consider
      "evs = [EGetBinding (rc_session_id ctx) (Inr None)]" "resp = bare_403"
    | b h now where "evs = [EGetBinding (rc_session_id ctx) (Inr (Some b)), EToken 32 h, ENow now,
        EReplace (rc_session_id ctx) b (challenged_binding b h now) (Inr True)]"
        "binding_valid (challenged_binding b h now)" "resp = challenge_403 (b_session_identifier b) h"
    | b h now es where "evs = [EGetBinding (rc_session_id ctx) (Inr (Some b)), EToken 32 h, ENow now,
        EReplace (rc_session_id ctx) b (challenged_binding b h now) (Inr False)] @ es"
        "runs (issue_attempts n ctx) es (Inr resp)"
    by (auto simp: runs_iff flat byte_counts with_challenge_iff)
  then show ?case
  proof cases
    case 3
    have "issued (Suc n) ctx ([EGetBinding (rc_session_id ctx) (Inr (Some b)), EToken 32 h, ENow now,
        EReplace (rc_session_id ctx) b (challenged_binding b h now) (Inr False)] @ es) resp"
      by (rule issued_later [OF Suc.IH [OF 3(2)]]) simp_all
    with 3(1) show ?thesis by simp
  qed (auto simp: issued_def intro!: exI [of _ "[]"])
qed

lemma issue_failure:
  "runs (issue_attempts n ctx) evs (Inl e) \<Longrightarrow> list_all reply_ok evs \<Longrightarrow>
     writes evs = [] \<and> attempts evs \<le> n \<and> exn_cls e = CorruptStateError"
proof (induction n arbitrary: evs)
  case 0
  then show ?case by (auto simp: runs_iff)
next
  case (Suc n)
  then show ?case
    by (auto simp: runs_iff flat byte_counts with_challenge_total)
qed

section \<open>Offering a registration\<close>

definition new_offer :: "request_context \<Rightarrow> pystr \<Rightarrow> int \<Rightarrow> pending_registration" where
  "new_offer ctx challenge now =
     \<lparr>p_user_id = rc_user_id ctx, p_reg_challenge = challenge, p_reg_challenge_time = now\<rparr>"

lemma offer_iff:
  "runs (build_registration_header_response sv ctx) evs (Inr resp) \<longleftrightarrow>
     (\<exists>c now. evs = [EToken 32 c, ENow now, EPutPending (rc_session_id ctx) (new_offer ctx c now)] \<and>
        is_sf_string_safe c \<and>
        resp = empty_response\<lparr>rs_headers :=
          (S ''Secure-Session-Registration'', registration_header sv c) # NO_STORE\<rparr>)"
  by (auto simp: build_registration_header_response_def flat runs_iff byte_counts
      PendingRegistration_eq_Inr new_offer_def)

lemma offer_never_fails:
  "runs (build_registration_header_response sv ctx) evs (Inl e) \<Longrightarrow> \<not> list_all reply_ok evs"
  by (auto simp: build_registration_header_response_def flat runs_iff byte_counts
      PendingRegistration_def hex_safe bind_res_eq_Inl require_def split: if_splits)

section \<open>Revocation\<close>

lemma was_bound_code:
  "was_bound ctx = GetBinding (rc_session_id ctx) (\<lambda>read.
     case read of
       Inl e \<Rightarrow> if isinstance e CorruptStateError then Return True else Raise e
     | Inr found \<Rightarrow> Return (found \<noteq> None))"
  by (auto simp: was_bound_def fun_eq_iff split: sum.splits)

definition revoke_response :: "'k server \<Rightarrow> dbsc_response" where
  "revoke_response sv = empty_response
     \<lparr>rs_headers := NO_STORE, rs_cookies := [cookie_deletion (cfg_cookie_name (sv_config sv))]\<rparr>"

definition revoke_entry :: "request_context \<Rightarrow> bool \<Rightarrow> event" where
  "revoke_entry ctx enforcement_terminated =
     (if enforcement_terminated
      then ELog ENFORCEMENT_TERMINATED
        (S ''DBSC enforcement terminated session (cookie missing or mismatched).'') (rc_user_id ctx)
      else ELog REVOKED (S ''DBSC session revoked.'') (rc_user_id ctx))"

definition torn_down :: "'k server \<Rightarrow> request_context \<Rightarrow> bool \<Rightarrow> bool \<Rightarrow> dbsc_response prog" where
  "torn_down sv ctx et bound = DeleteSession (rc_session_id ctx)
     (if bound
      then if et
        then Log ENFORCEMENT_TERMINATED
          (S ''DBSC enforcement terminated session (cookie missing or mismatched).'')
          (rc_user_id ctx) (Return (revoke_response sv))
        else Log REVOKED (S ''DBSC session revoked.'') (rc_user_id ctx) (Return (revoke_response sv))
      else Return (revoke_response sv))"

lemma revoke_code:
  "revoke sv ctx et = GetBinding (rc_session_id ctx) (\<lambda>read.
     case read of
       Inl e \<Rightarrow> if isinstance e CorruptStateError then torn_down sv ctx et True else Raise e
     | Inr found \<Rightarrow> torn_down sv ctx et (found \<noteq> None))"
  by (auto simp: revoke_def was_bound_code fun_eq_iff torn_down_def revoke_response_def Let_def
      split: sum.splits)

lemma torn_down_runs:
  "runs (torn_down sv ctx et bound) evs out \<longleftrightarrow>
     out = Inr (revoke_response sv) \<and>
     evs = EDelete (rc_session_id ctx) # (if bound then [revoke_entry ctx et] else [])"
  by (auto simp: torn_down_def runs_iff revoke_entry_def)

lemma revoke_success: "runs (revoke sv ctx et) evs (Inr d) \<Longrightarrow> d = revoke_response sv"
proof -
  assume "runs (revoke sv ctx et) evs (Inr d)"
  then obtain r es where "evs = EGetBinding (rc_session_id ctx) r # es" and "runs (case r of
       Inl e \<Rightarrow> if isinstance e CorruptStateError then torn_down sv ctx et True else Raise e
     | Inr found \<Rightarrow> torn_down sv ctx et (found \<noteq> None)) es (Inr d)"
    by (auto simp: revoke_code runs_effects)
  then show ?thesis by (cases r) (auto simp: torn_down_runs split: if_splits)
qed

lemma revoke_conduct:
  assumes "runs (revoke sv ctx et) evs out" and "list_all reply_ok evs"
  shows "out = Inr (revoke_response sv) \<and>
     (\<exists>r. evs = [EGetBinding (rc_session_id ctx) r, EDelete (rc_session_id ctx)] @
        (if r = Inr None then [] else [revoke_entry ctx et]))"
proof -
  from assms(1) obtain r es where evs: "evs = EGetBinding (rc_session_id ctx) r # es"
    and es: "runs (case r of
       Inl e \<Rightarrow> if isinstance e CorruptStateError then torn_down sv ctx et True else Raise e
     | Inr found \<Rightarrow> torn_down sv ctx et (found \<noteq> None)) es out"
    by (auto simp: revoke_code runs_effects)
  with assms(2) show ?thesis
    by (cases r) (auto simp: torn_down_runs isinstance_def)
qed

section \<open>The gate's primitives\<close>

text \<open>The comparison, for a stored binding and a cookie that is present.\<close>

lemma bound_cookie_matches_code:
  assumes "binding_valid b" and "same_user (b_user_id b) (rc_user_id ctx)"
    and "cookie ctx (cfg_cookie_name (sv_config sv)) = Some v" and "v \<noteq> []" and "encodable v"
  shows "bound_cookie_matches sv b ctx =
    (if v = b_cookie_value b then Return True
     else if b_previous_cookie_value b = [] then Return False
     else Now (\<lambda>t. Return (t < b_previous_cookie_expires_at b \<and> v = b_previous_cookie_value b)))"
  using assms
  by (auto simp: bound_cookie_matches_def Let_def constant_time_equals_iff binding_valid_def
      cookie_value_encodable)

lemma bound_cookie_matches_absent:
  assumes "\<not> same_user (b_user_id b) (rc_user_id ctx) \<or>
    cookie ctx (cfg_cookie_name (sv_config sv)) \<in> {None, Some []}"
  shows "bound_cookie_matches sv b ctx = Return False"
  using assms by (auto simp: bound_cookie_matches_def Let_def)

lemma bound_cookie_matches_unencodable:
  assumes "cookie ctx (cfg_cookie_name (sv_config sv)) = Some v" and "\<not> encodable v"
  shows "\<not> runs (bound_cookie_matches sv b ctx) evs (Inr True)"
  using assms
  by (cases "b_cookie_value b = []")
    (auto simp: bound_cookie_matches_def Let_def constant_time_equals_iff runs_iff)

lemma bound_cookie_matches_True:
  assumes "binding_valid b"
  shows "runs (bound_cookie_matches sv b ctx) evs (Inr True) \<longleftrightarrow>
    same_user (b_user_id b) (rc_user_id ctx) \<and>
    (\<exists>v. cookie ctx (cfg_cookie_name (sv_config sv)) = Some v \<and> v \<noteq> [] \<and>
       (v = b_cookie_value b \<and> evs = [] \<or>
        v \<noteq> b_cookie_value b \<and> v = b_previous_cookie_value b \<and>
          (\<exists>t. evs = [ENow t] \<and> t < b_previous_cookie_expires_at b)))"
proof (cases "same_user (b_user_id b) (rc_user_id ctx) \<and>
    cookie ctx (cfg_cookie_name (sv_config sv)) \<notin> {None, Some []}")
  case False
  then show ?thesis by (auto simp: bound_cookie_matches_absent)
next
  case True
  then obtain v where v: "cookie ctx (cfg_cookie_name (sv_config sv)) = Some v" "v \<noteq> []" by auto
  show ?thesis
  proof (cases "encodable v")
    case enc: True
    show ?thesis
      using True v bound_cookie_matches_code [OF assms _ v enc] by (auto simp: runs_iff)
  next
    case False
    with assms v bound_cookie_matches_unencodable [OF v(1)] show ?thesis
      by (auto simp: binding_valid_def dest: cookie_value_encodable)
  qed
qed

lemma bound_cookie_matches_raises:
  assumes "binding_valid b"
  shows "runs (bound_cookie_matches sv b ctx) evs (Inl e) \<Longrightarrow>
    exn_cls e = UnicodeEncodeError \<and>
    (\<exists>v. cookie ctx (cfg_cookie_name (sv_config sv)) = Some v \<and> \<not> encodable v)"
  using assms
  by (cases "cookie ctx (cfg_cookie_name (sv_config sv))"; cases "b_cookie_value b = []")
    (auto simp: bound_cookie_matches_def Let_def runs_iff constant_time_equals_raises
      binding_valid_def cookie_value_encodable)

lemma mark_advertised_iff:
  "mark_challenge_advertised b = Inr b' \<longleftrightarrow>
     binding_valid b \<and> b' = b\<lparr>b_challenge_advertised := True\<rparr>"
  by (auto simp: mark_challenge_advertised_def Binding_eq_Inr binding_valid_def)

definition advertisable :: "'k server \<Rightarrow> request_context \<Rightarrow> binding \<Rightarrow> int \<Rightarrow> bool" where
  "advertisable sv ctx b t \<longleftrightarrow>
     same_user (b_user_id b) (rc_user_id ctx) \<and> \<not> b_challenge_advertised b \<and> \<not> b_has_refreshed b \<and>
     b_challenge b \<noteq> [] \<and> t - b_challenge_time b \<le> cfg_challenge_ttl_seconds (sv_config sv)"

lemma advertise_conduct:
  "runs (advertise_refresh_challenge sv b ctx) evs (Inr resp) \<Longrightarrow>
     writes evs = [] \<and> resp = empty_response \<or>
     (\<exists>t. advertisable sv ctx b t \<and> binding_valid b \<and>
        evs = [ENow t, EReplace (rc_session_id ctx) b (b\<lparr>b_challenge_advertised := True\<rparr>) (Inr True)] \<and>
        resp = empty_response\<lparr>rs_headers :=
          challenge_headers (b_session_identifier b) (b_challenge b) @ NO_STORE\<rparr>)"
  by (auto simp: advertise_refresh_challenge_def runs_iff mark_advertised_iff advertisable_def
      split: if_splits)

lemma advertise_failure:
  "runs (advertise_refresh_challenge sv b ctx) evs (Inl e) \<Longrightarrow> list_all reply_ok evs \<Longrightarrow> binding_valid b \<Longrightarrow>
     writes evs = [] \<and> exn_cls e = CorruptStateError"
  by (auto simp: advertise_refresh_challenge_def runs_iff mark_challenge_advertised_ok split: if_splits)

end
