(* ===== verification/Requests.thy ===== *)
theory Requests
  imports ServerLaws
begin

text \<open>
  The requests a server handles at the same time, and what each of them may do to the store at any
  point of its run: the guarantee that the interleaving theorems of theory \<open>Concurrency\<close> rest on.
\<close>

section \<open>Requests\<close>

text \<open>
  The methods that can change a record. \<open>Advertise\<close> takes whatever binding its caller read, however
  long ago. The read-only methods are left out: they do nothing another request could notice.
\<close>

datatype request =
    Offer request_context
  | Register pystr request_context
  | IssueChallenge request_context
  | Refresh pystr request_context
  | Revoke request_context bool
  | Advertise binding request_context

fun serve :: "'k server \<Rightarrow> request \<Rightarrow> dbsc_response prog" where
  "serve sv (Offer ctx) = build_registration_header_response sv ctx"
| "serve sv (Register jwt ctx) = register sv jwt ctx"
| "serve sv (IssueChallenge ctx) = issue_refresh_challenge ctx"
| "serve sv (Refresh jwt ctx) = refresh sv jwt ctx"
| "serve sv (Revoke ctx et) = revoke sv ctx et"
| "serve sv (Advertise b ctx) = advertise_refresh_challenge sv b ctx"

section \<open>What a request may do\<close>

text \<open>Each request changes a record at most once, and every change has the reasons listed here.\<close>

fun write_ok :: "'k server \<Rightarrow> request \<Rightarrow> event list \<Rightarrow> event \<Rightarrow> bool" where
  "write_ok sv r h (EPutPending sid p) \<longleftrightarrow> writes h = [] \<and>
     (\<exists>ctx c now. r = Offer ctx \<and> sid = rc_session_id ctx \<and> p = new_offer ctx c now \<and>
        pending_valid p \<and> {EToken 32 c, ENow now} \<subseteq> set h)"
| "write_ok sv r h (EDelete sid) \<longleftrightarrow> writes h = [] \<and>
     (\<exists>ctx et. r = Revoke ctx et \<and> sid = rc_session_id ctx)"
| "write_ok sv r h (ECommit sid q b x) \<longleftrightarrow> writes h = [] \<and>
     (\<exists>jwt ctx res now i c ch. r = Register jwt ctx \<and> sid = rc_session_id ctx \<and>
        answers sv jwt ctx q res \<and> b = new_binding ctx q res now i c ch \<and> binding_valid b \<and>
        {EToken 32 i, EToken 32 c, EToken 32 ch, ENow now} \<subseteq> set h)"
| "write_ok sv r h (EReplace sid b n x) \<longleftrightarrow> writes h = [] \<and> binding_valid n \<and>
     ((\<exists>jwt ctx t later now c ch. r = Refresh jwt ctx \<and> sid = rc_session_id ctx \<and>
         proves sv jwt ctx b t later \<and> n = rotated_binding sv b now c ch \<and>
         {ENow t, EToken 32 c, EToken 32 ch, ENow now} \<union> set later \<subseteq> set h) \<or>
      (\<exists>ctx ch now. r = IssueChallenge ctx \<and> sid = rc_session_id ctx \<and>
         n = challenged_binding b ch now \<and> {EToken 32 ch, ENow now} \<subseteq> set h) \<or>
      (\<exists>ctx t. r = Advertise b ctx \<and> sid = rc_session_id ctx \<and> advertisable sv ctx b t \<and>
         n = b\<lparr>b_challenge_advertised := True\<rparr> \<and> ENow t \<in> set h))"
| "write_ok sv r h ev \<longleftrightarrow> True"

abbreviation behaves :: "'k server \<Rightarrow> request \<Rightarrow> event list \<Rightarrow> 'a prog \<Rightarrow> bool" where
  "behaves sv r h p \<equiv> obeys (\<lambda>_. True) (write_ok sv r) (\<lambda>_ _. True) h p"

lemma offer_behaves: "writes h = [] \<Longrightarrow> behaves sv (Offer ctx) h (build_registration_header_response sv ctx)"
  by (auto simp: build_registration_header_response_def flat byte_counts new_offer_def
      PendingRegistration_eq_Inr pending_valid_def split: sum.splits)

lemma register_behaves: "writes h = [] \<Longrightarrow> behaves sv (Register jwt ctx) h (register sv jwt ctx)"
  by (auto simp: register_code flat byte_counts answers_def obeys_bind bound_cookie_def
      Binding_eq_Inr split: sum.split option.split)

lemma revoke_behaves: "writes h = [] \<Longrightarrow> behaves sv (Revoke ctx et) h (revoke sv ctx et)"
  by (auto simp: revoke_code torn_down_def split: sum.split)

lemma advertise_behaves: "writes h = [] \<Longrightarrow> behaves sv (Advertise b ctx) h (advertise_refresh_challenge sv b ctx)"
  by (auto simp: advertise_refresh_challenge_def mark_advertised_iff advertisable_def binding_valid_def
      not_less split: sum.split)

lemma issue_behaves: "writes h = [] \<Longrightarrow> behaves sv (IssueChallenge ctx) h (issue_attempts n ctx)"
proof (induction n arbitrary: h)
  case 0
  then show ?case by (auto split: sum.split option.split)
next
  case (Suc n)
  then show ?case
    by (auto simp: flat byte_counts with_challenge_iff split: sum.split option.split)
qed

text \<open>A refresh only reads until it has its proof.\<close>

fun read_only :: "event \<Rightarrow> bool" where
  "read_only (EPutPending sid p) = False"
| "read_only (EDelete sid) = False"
| "read_only (ECommit sid q b x) = False"
| "read_only (EReplace sid b n x) = False"
| "read_only (EToken n v) = False"
| "read_only ev = True"

lemma read_only_write_ok: "read_only ev \<Longrightarrow> write_ok sv r h ev"
  by (cases ev) auto

lemma binding_proved_reads:
  "obeys (\<lambda>_. True) (\<lambda>_ ev. read_only ev) (\<lambda>_ _. True) h (binding_proved_by sv jwt ctx)"
  by (auto simp: binding_proved_by_def flat obeys_bind challenge_matches_def
      split: sum.split option.split)

lemma obeys_of_runs:
  "\<forall>evs out. runs p evs out \<longrightarrow> Q (h @ evs) out \<Longrightarrow> obeys R (\<lambda>_ _. True) Q h p"
proof (induction p arbitrary: h)
  case (Return x) then show ?case by auto
next
  case (Raise e) then show ?case by auto
qed (auto simp: runs_iff)

lemma rotation_behaves:
  assumes "\<And>h. writes h = [] \<Longrightarrow> behaves sv (Refresh jwt ctx) h (refresh_attempts n sv jwt ctx)"
    and "writes h = []"
    and "proves sv jwt ctx b t later" and "insert (ENow t) (set later) \<subseteq> set h"
  shows "behaves sv (Refresh jwt ctx) h (rotation n sv jwt ctx b)"
  using assms
  by (auto simp: rotation_def obeys_bind bound_cookie_def with_rotated_iff split: sum.split)
    (rule exI [of _ t], rule exI [of _ later], blast)

lemma refresh_behaves: "writes h = [] \<Longrightarrow> behaves sv (Refresh jwt ctx) h (refresh_attempts n sv jwt ctx)"
proof (induction n arbitrary: h)
  case 0
  then show ?case by (simp add: flat)
next
  case (Suc n)
  have "obeys (\<lambda>_. True) (\<lambda>_ _. True)
      (\<lambda>h out. case out of Inl e \<Rightarrow> True
         | Inr b \<Rightarrow> behaves sv (Refresh jwt ctx) h (rotation n sv jwt ctx b)) h
      (binding_proved_by sv jwt ctx)"
    by (rule obeys_of_runs)
      (auto simp: binding_proved_iff Suc.prems split: sum.split intro!: rotation_behaves [OF Suc.IH]
        dest: proves_quiet)
  from obeys_conj [OF this binding_proved_reads] show ?case
    unfolding refresh_attempts_Suc obeys_bind
    by (rule obeys_mono) (auto simp: read_only_write_ok split: sum.splits)
qed

theorem serve_behaves: "behaves sv r [] (serve sv r)"
  by (cases r) (simp_all add: offer_behaves register_behaves revoke_behaves advertise_behaves
      issue_behaves refresh_behaves issue_refresh_challenge_def refresh_def)

text \<open>Every write needs that none came before it, so there is at most one.\<close>

lemma single_write:
  "(\<forall>a ev b. es = a @ ev # b \<longrightarrow> write_ok sv r a ev) \<Longrightarrow> length (writes es) \<le> 1"
proof (induction es rule: rev_induct)
  case (snoc ev es)
  then have "write_ok sv r es ev" by blast
  then have "writes es = [] \<or> \<not> wrote ev" by (cases ev) auto
  with snoc show ?case by (auto simp: writes_def)
qed (simp add: writes_def)

end
