(* ===== verification/Concurrency.thy ===== *)
theory Concurrency
  imports Requests
begin

text \<open>
  Any number of requests, interleaved at every effect, over any store that meets the contract of
  theory \<open>Store\<close>: a revoked session stays revoked, an offer is used once, a stored binding goes back
  to a verified registration, a refresh proof is good for one refresh.
\<close>

section \<open>What a step does to the store\<close>

fun effect :: "'s store_ops \<Rightarrow> rat \<Rightarrow> rat \<Rightarrow> event \<Rightarrow> 's \<Rightarrow> 's \<Rightarrow> bool" where
  "effect so t1 t2 (EPutPending sid p) s s' \<longleftrightarrow> s' = put_pending_registration so t1 sid p s"
| "effect so t1 t2 (EDelete sid) s s' \<longleftrightarrow> s' = delete_session so sid s"
| "effect so t1 t2 (ECommit sid q b r) s s' \<longleftrightarrow> commit_registration so t1 t2 sid q b s = (r, s')"
| "effect so t1 t2 (EReplace sid b n r) s s' \<longleftrightarrow> replace_binding so t1 t2 sid b n s = (r, s')"
| "effect so t1 t2 (EGetPending sid r) s s' \<longleftrightarrow> s' = s \<and> r = get_pending_registration so t1 sid s"
| "effect so t1 t2 (EGetBinding sid r) s s' \<longleftrightarrow> s' = s \<and> r = get_binding so t1 sid s"
| "effect so t1 t2 (ENow t) s s' \<longleftrightarrow> s' = s \<and> t = py_int t1"
| "effect so t1 t2 ev s s' \<longleftrightarrow> s' = s"

lemma step_effect:
  "step so p w = Some (ev, q, w') \<Longrightarrow> effect so (reading w 0) (reading w 1) ev (w_store w) (w_store w')"
  by (cases p) (auto simp: Let_def token_hex_def split: prod.splits)

lemma step_clock: "step so p w = Some (ev, q, w') \<Longrightarrow> w_clock w' = w_clock w"
  by (cases p) (auto simp: Let_def token_hex_def pass_def log_entry_def on_store_def split: prod.splits)

lemma step_token: "step so p w = Some (EToken n v, q, w') \<Longrightarrow> list_all is_hex_lower v \<and> length v = 2 * n"
  by (cases p) (auto simp: Let_def token_hex_def hexlify_hex split: prod.splits)

lemma gsteps_snocE:
  assumes "gsteps so P w (tr @ [(i, ev)]) Q w'"
  obtains Q1 w1 where "gsteps so P w tr Q1 w1" and "\<exists>q. step so (Q1 i) w1 = Some (ev, q, w') \<and> Q = Q1(i := q)"
  using assms by (cases rule: gsteps.cases) auto

lemma gsteps_prefix:
  "gsteps so P w (tr @ us) Q w' \<Longrightarrow> \<exists>Q1 w1. gsteps so P w tr Q1 w1"
proof (induction us arbitrary: Q w' rule: rev_induct)
  case Nil
  then show ?case by auto
next
  case (snoc u us)
  then have "gsteps so P w ((tr @ us) @ [(fst u, snd u)]) Q w'" by simp
  then show ?case by (rule gsteps_snocE) (rule snoc.IH)
qed

abbreviation system :: "'s store_ops \<Rightarrow> 'k server \<Rightarrow> (nat \<Rightarrow> request) \<Rightarrow> 's world \<Rightarrow> (nat \<times> event) list \<Rightarrow>
    (nat \<Rightarrow> dbsc_response prog) \<Rightarrow> 's world \<Rightarrow> bool" where
  "system so sv rs \<equiv> gsteps so (\<lambda>i. serve sv (rs i))"

lemma system_behaves:
  "system so sv rs w tr Q w' \<Longrightarrow> behaves sv (rs i) (events_of i tr) (Q i)"
proof (induction rule: gsteps.induct)
  case gdone
  then show ?case by (simp add: serve_behaves)
next
  case (gnext tr Q w' j ev q w'')
  then show ?case using obeys_step [of _ _ _ _ "Q j" so w' ev q w''] by auto
qed

text \<open>
  The induction principle for properties of schedule and store: each step is one effect on the
  store, allowed to the request that makes it.
\<close>

lemma system_induct [consumes 1, case_names start step]:
  assumes "system so sv rs w tr Q w'"
    and "I [] (w_store w)"
    and "\<And>tr s i ev s' k. I tr s \<Longrightarrow>
      effect so (w_clock w k) (w_clock w (k + 1)) ev s s' \<Longrightarrow>
      write_ok sv (rs i) (events_of i tr) ev \<Longrightarrow> I (tr @ [(i, ev)]) s'"
  shows "I tr (w_store w')"
proof -
  have "I tr (w_store w') \<and> w_clock w' = w_clock w"
    using assms(1)
  proof (induction rule: gsteps.induct)
    case gdone
    then show ?case by (simp add: assms(2))
  next
    case (gnext tr Q w' i ev q w'')
    from gnext.hyps(1) have "write_ok sv (rs i) (events_of i tr) ev"
      using obeys_step [OF _ gnext.hyps(2)] system_behaves by blast
    moreover have "effect so (w_clock w (w_ticks w')) (w_clock w (w_ticks w' + 1)) ev
        (w_store w') (w_store w'')"
      using step_effect [OF gnext.hyps(2)] gnext.IH by (simp add: reading_def)
    ultimately have "I (tr @ [(i, ev)]) (w_store w'')" using gnext.IH assms(3) by blast
    with gnext.IH step_clock [OF gnext.hyps(2)] show ?case by simp
  qed
  then show ?thesis ..
qed

section \<open>Revocation and the use of an offer\<close>

text \<open>The offers of a session have been withdrawn, by a revocation or by a registration, and none was made since.\<close>

fun addresses :: "pystr \<Rightarrow> event \<Rightarrow> bool" where
  "addresses sid (EPutPending sid' p) \<longleftrightarrow> sid' = sid"
| "addresses sid (ECommit sid' q b r) \<longleftrightarrow> sid' = sid"
| "addresses sid (EReplace sid' b n r) \<longleftrightarrow> sid' = sid"
| "addresses sid ev \<longleftrightarrow> False"

fun offers :: "pystr \<Rightarrow> event \<Rightarrow> bool" where
  "offers sid (EPutPending sid' p) \<longleftrightarrow> sid' = sid"
| "offers sid ev \<longleftrightarrow> False"

fun uses_up :: "pystr \<Rightarrow> event \<Rightarrow> bool" where
  "uses_up sid (EDelete sid') \<longleftrightarrow> sid' = sid"
| "uses_up sid (ECommit sid' q b r) \<longleftrightarrow> sid' = sid \<and> r = Inr True"
| "uses_up sid ev \<longleftrightarrow> False"

definition since :: "(event \<Rightarrow> bool) \<Rightarrow> (event \<Rightarrow> bool) \<Rightarrow> (nat \<times> event) list \<Rightarrow> bool" where
  "since starts ends tr \<longleftrightarrow>
     (\<exists>a u b. tr = a @ u # b \<and> starts (snd u) \<and> list_all (\<lambda>v. \<not> ends (snd v)) b)"

lemma since_Nil [simp]: "\<not> since A B []"
  by (simp add: since_def)

lemma since_snoc [simp]:
  "since A B (tr @ [(i, ev)]) \<longleftrightarrow> A ev \<or> since A B tr \<and> \<not> B ev"
proof
  assume "since A B (tr @ [(i, ev)])"
  then obtain a u b where ab: "tr @ [(i, ev)] = a @ u # b" "A (snd u)" "list_all (\<lambda>v. \<not> B (snd v)) b"
    by (auto simp: since_def)
  then show "A ev \<or> since A B tr \<and> \<not> B ev"
  proof (cases b rule: rev_cases)
    case (snoc b' v)
    with ab have "tr = a @ u # b'" "list_all (\<lambda>v. \<not> B (snd v)) b'" "\<not> B ev" by auto
    with ab(2) show ?thesis unfolding since_def by blast
  qed auto
next
  assume "A ev \<or> since A B tr \<and> \<not> B ev"
  then show "since A B (tr @ [(i, ev)])"
  proof
    assume "A ev"
    then show ?thesis unfolding since_def by (intro exI [of _ tr] exI [of _ "(i, ev)"] exI [of _ "[]"]) simp
  next
    assume "since A B tr \<and> \<not> B ev"
    then obtain a u b where "tr = a @ u # b" "A (snd u)" "list_all (\<lambda>v. \<not> B (snd v)) b" "\<not> B ev"
      by (auto simp: since_def)
    then show ?thesis
      unfolding since_def by (intro exI [of _ a] exI [of _ u] exI [of _ "b @ [(i, ev)]"]) simp
  qed
qed

context session_store
begin

lemma no_offer_step:
  assumes "effect so t1 t2 ev s s'" and "\<not> offers sid ev"
    and "\<And>t. get_pending_registration so t sid s = Inr None"
  shows "get_pending_registration so t sid s' = Inr None"
  using assms
  by (cases ev)
    (auto simp: views commit_atomic replace_atomic split: sum.splits if_splits)

lemma used_up_step:
  assumes "effect so t1 t2 ev s s'" and "uses_up sid ev"
  shows "get_pending_registration so t sid s' = Inr None"
  using assms
  by (cases ev) (auto simp: views commit_result)

lemma used_up:
  "system so sv rs w tr Q w' \<Longrightarrow> since (uses_up sid) (offers sid) tr \<Longrightarrow>
     get_pending_registration so t sid (w_store w') = Inr None"
proof (induction arbitrary: t rule: system_induct)
  case start
  then show ?case by simp
next
  case (step tr s i ev s' k)
  then show ?case using no_offer_step used_up_step by (metis since_snoc)
qed

text \<open>A revoked session has no binding until it is offered a registration again.\<close>

lemma no_binding_step:
  assumes "effect so t1 t2 ev s s'" and "\<And>t. get_pending_registration so t sid s = Inr None"
    and "\<And>t. get_binding so t sid s = Inr None"
  shows "get_binding so t sid s' = Inr None"
  using assms
  by (cases ev; cases "addresses sid ev")
    (auto simp: views commit_atomic replace_atomic split: sum.splits if_splits)

lemma revoked:
  "system so sv rs w tr Q w' \<Longrightarrow> since (\<lambda>ev. ev = EDelete sid) (offers sid) tr \<Longrightarrow>
     (\<forall>t. get_pending_registration so t sid (w_store w') = Inr None) \<and>
     (\<forall>t. get_binding so t sid (w_store w') = Inr None)"
proof (induction rule: system_induct)
  case start
  then show ?case by simp
next
  case (step tr s i ev s' k)
  show ?case
  proof (cases "ev = EDelete sid")
    case True
    with step(2) show ?thesis by (simp add: views)
  next
    case False
    with step(4) have "since (\<lambda>ev. ev = EDelete sid) (offers sid) tr" "\<not> offers sid ev" by simp_all
    with step(1) no_offer_step [OF step(2)] no_binding_step [OF step(2)] show ?thesis by simp
  qed
qed

text \<open>A registration that succeeds uses the offer up: the next one needs another offer.\<close>

lemma commit_needs_offer:
  assumes "system so sv rs w (tr @ [(i, ECommit sid q b (Inr True))]) Q w'"
  shows "\<not> since (uses_up sid) (offers sid) tr"
proof
  assume used: "since (uses_up sid) (offers sid) tr"
  from assms obtain Q1 w1 where before: "system so sv rs w tr Q1 w1"
    and "\<exists>p. step so (Q1 i) w1 = Some (ECommit sid q b (Inr True), p, w')"
    by (rule gsteps_snocE) blast
  then have "commit_registration so (reading w1 0) (reading w1 1) sid q b (w_store w1) = (Inr True, w_store w')"
    using step_effect by fastforce
  with used_up [OF before used] show False by (simp add: commit_result)
qed

end

end
