(* ===== verification/Provenance.thy ===== *)
theory Provenance
  imports Concurrency
begin

text \<open>
  Where a stored binding comes from. The records the server writes are ones the stored format can
  carry (\<open>sound_binding\<close>), provided the clock, the user ids and the key texts are; on that basis
  the views of the store after each step are known exactly, and invariants of the stored bindings
  follow: the device key never changes, and it belongs to a registration that proved it.
\<close>

section \<open>What the environment is trusted with\<close>

text \<open>A clock reading of the next thirty thousand years: the stored numbers stay small.\<close>

definition time_ok :: "int \<Rightarrow> bool" where
  "time_ok t \<longleftrightarrow> 0 \<le> t \<and> t < 10 ^ 12"

fun request_ctx :: "request \<Rightarrow> request_context" where
  "request_ctx (Offer ctx) = ctx"
| "request_ctx (Register jwt ctx) = ctx"
| "request_ctx (IssueChallenge ctx) = ctx"
| "request_ctx (Refresh jwt ctx) = ctx"
| "request_ctx (Revoke ctx et) = ctx"
| "request_ctx (Advertise b ctx) = ctx"

text \<open>
  The configuration was accepted by its constructor, the PEM text of a key and the host's user ids
  contain no high surrogate directly before a low one, and the clock is sane.
\<close>

definition environment :: "'k server \<Rightarrow> (nat \<Rightarrow> request) \<Rightarrow> 's world \<Rightarrow> bool" where
  "environment sv rs w \<longleftrightarrow>
     config_valid (sv_config sv) \<and> (\<forall>k. str_ok (public_pem (sv_lib sv) k)) \<and>
     (\<forall>i. str_ok (rc_user_id (request_ctx (rs i)))) \<and> (\<forall>k. time_ok (py_int (w_clock w k)))"

section \<open>Sound records\<close>

definition sound_binding :: "binding \<Rightarrow> bool" where
  "sound_binding b \<longleftrightarrow> binding_storable b \<and> time_ok (b_cookie_issued_at b)"

lemma length_dec_digits: "n < 10 ^ Suc k \<Longrightarrow> length (dec_digits n) \<le> Suc k"
proof (induction k arbitrary: n)
  case 0
  then show ?case by (simp add: dec_digits.simps [of n])
next
  case (Suc k)
  show ?case
  proof (cases "n < 10")
    case False
    from Suc.prems have "n div 10 < 10 ^ Suc k" by (simp add: div_less_iff_less_mult mult.commute)
    from Suc.IH [OF this] False show ?thesis by (simp add: dec_digits.simps [of n])
  qed (simp add: dec_digits.simps [of n])
qed

lemma int_ok_small: "\<bar>i\<bar> < 10 ^ 13 \<Longrightarrow> int_ok i"
  using length_dec_digits [of "nat \<bar>i\<bar>" 12]
  by (simp add: int_ok_def max_str_digits_def nat_less_iff)

lemma time_ok_int_ok: "time_ok t \<Longrightarrow> int_ok t" "time_ok t \<Longrightarrow> 0 \<le> m \<Longrightarrow> m \<le> 3600 \<Longrightarrow> int_ok (t + m)"
  by (auto simp: time_ok_def intro!: int_ok_small)

lemma int_ok_0 [simp]: "int_ok 0"
  by (rule int_ok_small) simp

lemma jwk_to_pem_key: "jwk_to_pem lib jwk = Inr pem \<Longrightarrow> \<exists>k. pem = public_pem lib k"
  by (auto simp: jwk_to_pem_def Let_def split: option.splits if_splits)

lemma verified_pem: "answers sv jwt ctx q res \<Longrightarrow> \<exists>k. rr_public_key_pem res = public_pem (sv_lib sv) k"
  by (auto simp: answers_def parse_and_verify_registration_def bind_res_eq_Inr
      verify_registration_jwt_eq_Inr dest: jwk_to_pem_key)

lemma verified_algorithm: "answers sv jwt ctx q res \<Longrightarrow> rr_algorithm res = S ''ES256''"
  by (auto simp: answers_def parse_and_verify_registration_def bind_res_eq_Inr
      verify_registration_jwt_eq_Inr)

lemma new_binding_sound:
  assumes "environment sv rs w" and "answers sv jwt (request_ctx (rs i)) q res" and "pending_storable q"
    and "time_ok now" and "binding_valid (new_binding (request_ctx (rs i)) q res now d c h)"
  shows "sound_binding (new_binding (request_ctx (rs i)) q res now d c h)"
proof -
  obtain k where k: "rr_public_key_pem res = public_pem (sv_lib sv) k"
    using verified_pem [OF assms(2)] by blast
  show ?thesis
    using assms k verified_algorithm [OF assms(2)]
    by (simp add: sound_binding_def binding_storable_def environment_def pending_storable_def
        new_binding_def time_ok_int_ok)
qed

lemma rotated_binding_sound:
  "environment sv rs w \<Longrightarrow> sound_binding b \<Longrightarrow> time_ok now \<Longrightarrow>
     binding_valid (rotated_binding sv b now c h) \<Longrightarrow> sound_binding (rotated_binding sv b now c h)"
  by (simp add: sound_binding_def binding_storable_def environment_def config_valid_def
      rotated_binding_def time_ok_int_ok)

lemma challenged_binding_sound:
  "sound_binding b \<Longrightarrow> time_ok now \<Longrightarrow> binding_valid (challenged_binding b h now) \<Longrightarrow>
     sound_binding (challenged_binding b h now)"
  by (simp add: sound_binding_def binding_storable_def challenged_binding_def time_ok_int_ok)

lemma advertised_binding_sound:
  "sound_binding b \<Longrightarrow> sound_binding (b\<lparr>b_challenge_advertised := True\<rparr>)"
  by (simp add: sound_binding_def binding_storable_def binding_valid_def)

section \<open>The views after a step\<close>

text \<open>A successful write of a binding wrote a sound one; an offer was stored with a sound record.\<close>

fun sound_write :: "event \<Rightarrow> bool" where
  "sound_write (ECommit sid q b r) \<longleftrightarrow> (r = Inr True \<longrightarrow> sound_binding b)"
| "sound_write (EReplace sid b n r) \<longleftrightarrow> (r = Inr True \<longrightarrow> sound_binding n)"
| "sound_write (EPutPending sid q) \<longleftrightarrow> pending_storable q"
| "sound_write (ENow t) \<longleftrightarrow> time_ok t"
| "sound_write ev \<longleftrightarrow> True"

fun rebinds :: "pystr \<Rightarrow> event \<Rightarrow> bool" where
  "rebinds sid (ECommit sid' q b r) \<longleftrightarrow> sid' = sid \<and> r = Inr True"
| "rebinds sid (EReplace sid' b n r) \<longleftrightarrow> sid' = sid \<and> r = Inr True"
| "rebinds sid ev \<longleftrightarrow> False"

context session_store
begin

lemma get_put_binding_SomeD:
  "get_binding so t sid (put_binding so t0 sid b s) = Inr (Some c) \<Longrightarrow> binding_storable b \<Longrightarrow> c = b"
  using get_put_binding_expired [of b t sid t0 s] by auto

lemma get_put_pending_SomeD:
  "get_pending_registration so t sid (put_pending_registration so t0 sid q s) = Inr (Some p) \<Longrightarrow>
     pending_storable q \<Longrightarrow> p = q"
  using get_put_pending_expired [of q t sid t0 s] by auto

lemma binding_view:
  assumes "effect so t1 t2 ev s s'" and "sound_write ev" and "get_binding so t sid s' = Inr (Some b)"
  shows "get_binding so t sid s = Inr (Some b) \<and> \<not> rebinds sid ev \<or>
    (\<exists>q. ev = ECommit sid q b (Inr True) \<and> get_pending_registration so t1 sid s = Inr (Some q)) \<or>
    (\<exists>e. ev = EReplace sid e b (Inr True) \<and> get_binding so t1 sid s = Inr (Some e))"
  using assms
  by (cases ev; cases "addresses sid ev")
    (auto simp: views commit_atomic replace_atomic sound_binding_def split: sum.splits if_splits
      dest: get_put_binding_SomeD)

lemma pending_view:
  assumes "effect so t1 t2 ev s s'" and "sound_write ev"
    and "get_pending_registration so t sid s' = Inr (Some q)"
  shows "get_pending_registration so t sid s = Inr (Some q) \<or> ev = EPutPending sid q"
  using assms
  by (cases ev; cases "addresses sid ev")
   (auto simp: views commit_atomic replace_atomic split: sum.splits if_splits
     dest: get_put_pending_SomeD)

end

section \<open>Every stored record is sound\<close>

definition sound_state :: "'s store_ops \<Rightarrow> (nat \<times> event) list \<Rightarrow> 's \<Rightarrow> bool" where
  "sound_state so tr s \<longleftrightarrow>
     list_all (\<lambda>u. sound_write (snd u)) tr \<and>
     (\<forall>t sid b. get_binding so t sid s = Inr (Some b) \<longrightarrow> sound_binding b) \<and>
     (\<forall>t sid q. get_pending_registration so t sid s = Inr (Some q) \<longrightarrow> pending_storable q)"

definition empty_store :: "'s store_ops \<Rightarrow> 's \<Rightarrow> bool" where
  "empty_store so s \<longleftrightarrow>
     (\<forall>t sid. get_binding so t sid s = Inr None \<and> get_pending_registration so t sid s = Inr None)"

lemma empty_store_sound: "empty_store so s \<Longrightarrow> sound_state so [] s"
  by (simp add: empty_store_def sound_state_def)

lemma events_of_set: "ev \<in> set (events_of i tr) \<longleftrightarrow> (i, ev) \<in> set tr"
  by (force simp: events_of_def)

lemma sound_times:
  "sound_state so tr s \<Longrightarrow> ENow t \<in> set (events_of i tr) \<Longrightarrow> time_ok t"
  by (auto simp: sound_state_def events_of_set list_all_iff)

context session_store
begin

lemma writes_sound:
  assumes env: "environment sv rs w" and st: "sound_state so tr s"
    and eff: "effect so (w_clock w k) t2 ev s s'"
    and ok: "write_ok sv (rs i) (events_of i tr) ev"
  shows "sound_write ev"
proof (cases ev)
  case (ENow t)
  with eff env show ?thesis by (simp add: environment_def)
next
  case (EPutPending sid p)
  from ok env sound_times [OF st] show ?thesis
    unfolding EPutPending environment_def
    by (auto simp: new_offer_def pending_storable_def time_ok_int_ok)
      (metis request_ctx.simps(1))
next
  case (ECommit sid q b r)
  show ?thesis
  proof (cases "r = Inr True")
    case True
    with eff have "get_pending_registration so (w_clock w k) sid s = Inr (Some q)"
      by (simp add: ECommit commit_result)
    with st have q: "pending_storable q" by (auto simp: sound_state_def)
    from ok obtain jwt ctx res now d c h where rs: "rs i = Register jwt ctx"
      and b: "b = new_binding ctx q res now d c h" "binding_valid b" "answers sv jwt ctx q res"
      and now: "ENow now \<in> set (events_of i tr)"
      by (auto simp: ECommit)
    have "sound_binding b"
      using new_binding_sound [of sv rs w jwt i q res now d c h] env b rs q sound_times [OF st now]
      by simp
    then show ?thesis by (simp add: ECommit)
  qed (simp add: ECommit)
next
  case (EReplace sid e n r)
  show ?thesis
  proof (cases "r = Inr True")
    case True
    with eff have "get_binding so (w_clock w k) sid s = Inr (Some e)"
      by (simp add: EReplace replace_result)
    with st have e: "sound_binding e" by (auto simp: sound_state_def)
    with ok env sound_times [OF st, of _ i] show ?thesis
      unfolding EReplace write_ok.simps insert_subset Un_subset_iff
      by (auto simp: rotated_binding_sound challenged_binding_sound advertised_binding_sound)
  qed (simp add: EReplace)
qed simp_all

lemma sound_step:
  assumes "sound_state so tr s" and "effect so t1 t2 ev s s'" and "sound_write ev"
  shows "sound_state so (tr @ [(i, ev)]) s'"
proof -
  have "sound_binding b" if "get_binding so t sid s' = Inr (Some b)" for t sid b
    using binding_view [OF assms(2,3) that] assms by (auto simp: sound_state_def)
  moreover have "pending_storable q" if "get_pending_registration so t sid s' = Inr (Some q)" for t sid q
    using pending_view [OF assms(2,3) that] assms by (auto simp: sound_state_def)
  ultimately show ?thesis using assms by (simp add: sound_state_def)
qed

text \<open>The induction principle again, with all records sound.\<close>

lemma sound_induct [consumes 3, case_names start step]:
  assumes "system so sv rs w tr Q w'" and env: "environment sv rs w"
    and "sound_state so [] (w_store w)"
    and "I [] (w_store w)"
    and step: "\<And>tr s i ev s' t1 t2. I tr s \<Longrightarrow> sound_state so tr s \<Longrightarrow> effect so t1 t2 ev s s' \<Longrightarrow>
      write_ok sv (rs i) (events_of i tr) ev \<Longrightarrow> sound_write ev \<Longrightarrow> I (tr @ [(i, ev)]) s'"
  shows "I tr (w_store w')"
proof -
  have "I tr (w_store w') \<and> sound_state so tr (w_store w')"
    using assms(1)
  proof (induction rule: system_induct)
    case start
    then show ?case using assms(3,4) by simp
  next
    case (step tr s i ev s' k)
    then have "sound_write ev" using writes_sound [OF env] by blast
    with step assms(5) sound_step show ?case by blast
  qed
  then show ?thesis ..
qed

text \<open>Two readings of one store agree on what is stored, whenever both still see a record.\<close>

lemma binding_view_unique:
  "get_binding so t sid s = Inr (Some b) \<Longrightarrow> get_binding so t' sid s = Inr (Some b') \<Longrightarrow> b = b'"
  using binding_expiry [of t t' sid s] binding_expiry [of t' t sid s] by (cases "t \<le> t'") auto

end

end
