(* ===== verification/History.thy ===== *)
theory History
  imports Provenance
begin

text \<open>
  What the history of a session guarantees about its binding, whatever the interleaving: a binding
  comes from a verified registration and keeps its identity, its seed challenge is advertised once,
  and a proof of possession is good for one refresh.
\<close>

section \<open>Identity\<close>

definition identity :: "binding \<Rightarrow> pystr \<times> pystr \<times> pystr \<times> pystr \<times> int" where
  "identity b = (b_user_id b, b_session_identifier b, b_public_key_pem b, b_algorithm b, b_created_at b)"

lemma replace_identity:
  "write_ok sv r h (EReplace sid e n x) \<Longrightarrow> identity n = identity e"
  by (auto simp: identity_def)

text \<open>A key that a registration of this session proved, answering an offer made to it.\<close>

definition offered :: "(nat \<Rightarrow> request) \<Rightarrow> (nat \<times> event) list \<Rightarrow> pystr \<Rightarrow> pending_registration \<Rightarrow> bool" where
  "offered rs tr sid q \<longleftrightarrow>
     (\<exists>k ctx. rs k = Offer ctx \<and> rc_session_id ctx = sid \<and> p_user_id q = rc_user_id ctx \<and>
        (k, EPutPending sid q) \<in> set tr)"

definition proved :: "'k server \<Rightarrow> (nat \<Rightarrow> request) \<Rightarrow> (nat \<times> event) list \<Rightarrow> pystr \<Rightarrow> binding \<Rightarrow> bool" where
  "proved sv rs tr sid b \<longleftrightarrow>
     (\<exists>i jwt ctx q res. rs i = Register jwt ctx \<and> rc_session_id ctx = sid \<and> answers sv jwt ctx q res \<and>
        b_public_key_pem b = rr_public_key_pem res \<and>
        b_user_id b = (if p_user_id q \<noteq> [] then p_user_id q else rc_user_id ctx) \<and>
        offered rs tr sid q)"

lemma offered_later: "offered rs tr sid q \<Longrightarrow> offered rs (tr @ us) sid q"
  by (auto simp: offered_def)

lemma proved_later: "proved sv rs tr sid b \<Longrightarrow> proved sv rs (tr @ us) sid b"
  unfolding proved_def using offered_later by blast

lemma proved_identity: "proved sv rs tr sid e \<Longrightarrow> identity n = identity e \<Longrightarrow> proved sv rs tr sid n"
  by (simp add: proved_def identity_def)

context session_store
begin

lemma bindings_proved:
  assumes "system so sv rs w tr Q w'" and "environment sv rs w" and "empty_store so (w_store w)"
  shows "(\<forall>t sid b. get_binding so t sid (w_store w') = Inr (Some b) \<longrightarrow> proved sv rs tr sid b) \<and>
    (\<forall>t sid q. get_pending_registration so t sid (w_store w') = Inr (Some q) \<longrightarrow> offered rs tr sid q)"
  using assms(1) assms(2) empty_store_sound [OF assms(3)]
proof (induction rule: sound_induct)
  case start
  then show ?case using assms(3) by (simp add: empty_store_def)
next
  case (step tr s i ev s' t1 t2)
  have "proved sv rs (tr @ [(i, ev)]) sid b" if "get_binding so t sid s' = Inr (Some b)" for t sid b
    using binding_view [OF step(3,5) that]
  proof (elim disjE exE conjE)
    assume "get_binding so t sid s = Inr (Some b)" "\<not> rebinds sid ev"
    with step(1) show ?thesis using proved_later by blast
  next
    fix q assume ev: "ev = ECommit sid q b (Inr True)" and q: "get_pending_registration so t1 sid s = Inr (Some q)"
    from step(4) obtain jwt ctx res now d c h where "rs i = Register jwt ctx" "sid = rc_session_id ctx"
      "answers sv jwt ctx q res" "b = new_binding ctx q res now d c h"
      by (auto simp: ev)
    moreover from step(1) q have "offered rs (tr @ [(i, ev)]) sid q" using offered_later by blast
    ultimately show ?thesis
      unfolding proved_def
      by (intro exI [of _ i] exI [of _ jwt] exI [of _ ctx] exI [of _ q] exI [of _ res])
        (simp add: new_binding_def)
  next
    fix e assume "ev = EReplace sid e b (Inr True)" "get_binding so t1 sid s = Inr (Some e)"
    with step(1,4) show ?thesis using proved_later proved_identity replace_identity by metis
  qed
  moreover have "offered rs (tr @ [(i, ev)]) sid q"
    if "get_pending_registration so t sid s' = Inr (Some q)" for t sid q
    using pending_view [OF step(3,5) that]
  proof
    assume "get_pending_registration so t sid s = Inr (Some q)"
    with step(1) show ?thesis using offered_later by blast
  next
    assume "ev = EPutPending sid q"
    with step(4) show ?thesis
      unfolding offered_def by (intro exI [of _ i]) (auto simp: new_offer_def)
  qed
  ultimately show ?case by blast
qed

text \<open>As long as no registration replaces it, a binding keeps its identity.\<close>

lemma identity_kept:
  assumes "system so sv rs w tr Q w'" and "environment sv rs w" and "sound_state so [] (w_store w)"
    and "\<And>t b. get_binding so t sid (w_store w) = Inr (Some b) \<Longrightarrow> identity b = d"
  shows "(\<forall>i q b. (i, ECommit sid q b (Inr True)) \<notin> set tr) \<longrightarrow>
    (\<forall>t b. get_binding so t sid (w_store w') = Inr (Some b) \<longrightarrow> identity b = d)"
  using assms(1-3)
proof (induction rule: sound_induct)
  case start
  then show ?case using assms(4) by blast
next
  case (step tr s i ev s' t1 t2)
  show ?case
  proof (intro impI allI)
    fix t b
    assume none: "\<forall>j q b. (j, ECommit sid q b (Inr True)) \<notin> set (tr @ [(i, ev)])"
      and b: "get_binding so t sid s' = Inr (Some b)"
    with step(1) have before: "get_binding so t sid s = Inr (Some c) \<Longrightarrow> identity c = d" for t c by auto
    from binding_view [OF step(3,5) b] none before step(4) show "identity b = d"
      by (auto dest: replace_identity simp del: write_ok.simps)
  qed
qed

end

section \<open>Advertising\<close>

text \<open>A successful write of an advertisement, and a successful registration, for a session.\<close>

fun advertises :: "pystr \<Rightarrow> event \<Rightarrow> bool" where
  "advertises sid (EReplace sid' b n r) \<longleftrightarrow>
     sid' = sid \<and> r = Inr True \<and> \<not> b_challenge_advertised b \<and> b_challenge_advertised n"
| "advertises sid ev \<longleftrightarrow> False"

fun registers :: "pystr \<Rightarrow> event \<Rightarrow> bool" where
  "registers sid (ECommit sid' q b r) \<longleftrightarrow> sid' = sid \<and> r = Inr True"
| "registers sid ev \<longleftrightarrow> False"

lemma replace_advertised:
  "write_ok sv r h (EReplace sid e n x) \<Longrightarrow> b_challenge_advertised e \<Longrightarrow> b_challenge_advertised n"
  by auto

context session_store
begin

lemma advertised_stays:
  assumes "system so sv rs w tr Q w'" and "environment sv rs w" and "sound_state so [] (w_store w)"
  shows "since (advertises sid) (registers sid) tr \<longrightarrow>
    (\<forall>t b. get_binding so t sid (w_store w') = Inr (Some b) \<longrightarrow> b_challenge_advertised b)"
  using assms
proof (induction rule: sound_induct)
  case start
  then show ?case by simp
next
  case (step tr s i ev s' t1 t2)
  show ?case
  proof (intro impI allI)
    fix t b
    assume adv: "since (advertises sid) (registers sid) (tr @ [(i, ev)])"
      and b: "get_binding so t sid s' = Inr (Some b)"
    show "b_challenge_advertised b"
    proof (cases "advertises sid ev")
      case True
      then show ?thesis
        using step(3,5) b
        by (cases ev) (auto simp: replace_result sound_binding_def dest: get_put_binding_SomeD)
    next
      case False
      with adv have "since (advertises sid) (registers sid) tr" "\<not> registers sid ev" by simp_all
      with step(1) binding_view [OF step(3,5) b] step(4) show ?thesis
        by (auto dest: replace_advertised simp del: write_ok.simps)
    qed
  qed
qed

lemma replaced_advertised:
  assumes "system so sv rs w (tr @ [(j, EReplace sid b n (Inr True))]) Q w'" and "environment sv rs w"
    and "sound_state so [] (w_store w)" and "since (advertises sid) (registers sid) tr"
  shows "b_challenge_advertised b"
proof -
  from assms(1) obtain Q1 w1 where before: "system so sv rs w tr Q1 w1"
    and "\<exists>p. step so (Q1 j) w1 = Some (EReplace sid b n (Inr True), p, w')"
    by (rule gsteps_snocE) blast
  then have "replace_binding so (reading w1 0) (reading w1 1) sid b n (w_store w1) = (Inr True, w_store w')"
    using step_effect by fastforce
  with advertised_stays [OF before assms(2,3)] assms(4) show ?thesis by (auto simp: replace_result)
qed

end

text \<open>A request that delivered the seed challenge made the write that marked it as advertised.\<close>

lemma seed_delivered:
  assumes "system so sv rs w tr Q w'" and "rs i = Advertise b ctx"
    and "Q i = Return resp" and "rs_headers resp \<noteq> []"
  shows "resp = empty_response\<lparr>rs_headers :=
      challenge_headers (b_session_identifier b) (b_challenge b) @ NO_STORE\<rparr>"
    and "\<not> b_challenge_advertised b"
    and "(i, EReplace (rc_session_id ctx) b (b\<lparr>b_challenge_advertised := True\<rparr>) (Inr True)) \<in> set tr"
proof -
  from gsteps_runs(1) [OF assms(1,3)] assms(2)
  have "runs (advertise_refresh_challenge sv b ctx) (events_of i tr) (Inr resp)" by simp
  from advertise_conduct [OF this] assms(4) obtain t where "advertisable sv ctx b t"
    and "events_of i tr = [ENow t, EReplace (rc_session_id ctx) b (b\<lparr>b_challenge_advertised := True\<rparr>) (Inr True)]"
    and resp: "resp = empty_response\<lparr>rs_headers :=
      challenge_headers (b_session_identifier b) (b_challenge b) @ NO_STORE\<rparr>"
    by (auto simp: empty_response_def)
  then show "\<not> b_challenge_advertised b"
    "(i, EReplace (rc_session_id ctx) b (b\<lparr>b_challenge_advertised := True\<rparr>) (Inr True)) \<in> set tr"
    by (simp_all add: advertisable_def flip: events_of_set)
  show "resp = empty_response\<lparr>rs_headers :=
      challenge_headers (b_session_identifier b) (b_challenge b) @ NO_STORE\<rparr>" by (rule resp)
qed

context session_store
begin

text \<open>Two advertisements of a session have a registration between them.\<close>

lemma advertised_again:
  assumes "system so sv rs w (a @ (i, EReplace sid b n (Inr True)) # m @ (j, EReplace sid b' n' (Inr True)) # c) Q w'"
    and "environment sv rs w" and "sound_state so [] (w_store w)"
    and "\<not> b_challenge_advertised b" and "b_challenge_advertised n" and "\<not> b_challenge_advertised b'"
  shows "\<exists>k q e. (k, ECommit sid q e (Inr True)) \<in> set m"
proof (rule ccontr)
  assume none: "\<not> ?thesis"
  have "\<not> registers sid (snd u)" if "u \<in> set m" for u
    using none that by (cases u; cases "snd u") auto
  then have "since (advertises sid) (registers sid) (a @ (i, EReplace sid b n (Inr True)) # m)"
    using assms(4,5) unfolding since_def
    by (intro exI [of _ a] exI [of _ "(i, EReplace sid b n (Inr True))"] exI [of _ m]) (auto simp: list_all_iff)
  moreover from assms(1) have "system so sv rs w
      (((a @ (i, EReplace sid b n (Inr True)) # m) @ [(j, EReplace sid b' n' (Inr True))]) @ c) Q w'" by simp
  then obtain Q1 w1 where "system so sv rs w
      ((a @ (i, EReplace sid b n (Inr True)) # m) @ [(j, EReplace sid b' n' (Inr True))]) Q1 w1"
    using gsteps_prefix by blast
  ultimately have "b_challenge_advertised b'" using replaced_advertised assms(2,3) by blast
  with assms(6) show False ..
qed

end

section \<open>A proof is good for one refresh\<close>

text \<open>The random tokens drawn so far, and the challenges a binding answers to.\<close>

definition drawn :: "(nat \<times> event) list \<Rightarrow> pystr list" where
  "drawn tr = concat (map (\<lambda>u. case snd u of EToken n v \<Rightarrow> [v] | _ \<Rightarrow> []) tr)"

definition challenges :: "binding \<Rightarrow> pystr set" where
  "challenges b = {b_challenge b, b_previous_challenge b} - {[]}"

lemma drawn_snoc [simp]:
  "drawn [] = []"
  "drawn (tr @ [(i, ev)]) = drawn tr @ (case ev of EToken n v \<Rightarrow> [v] | _ \<Rightarrow> [])"
  by (simp_all add: drawn_def)

lemma drawn_member: "(i, EToken n v) \<in> set tr \<Longrightarrow> v \<in> set (drawn tr)"
  by (force simp: drawn_def)

lemma drawn_by_one:
  "distinct (drawn tr) \<Longrightarrow> (i, EToken n v) \<in> set tr \<Longrightarrow> (k, EToken m v) \<in> set tr \<Longrightarrow> i = k"
  by (induction tr rule: rev_induct) (auto dest: drawn_member)

text \<open>The request that drew the token has made its write; a refresh has spent the challenge.\<close>

definition introduced :: "pystr \<Rightarrow> (nat \<times> event) list \<Rightarrow> bool" where
  "introduced c tr \<longleftrightarrow> (\<exists>k ev. (k, ev) \<in> set tr \<and> wrote ev \<and> (k, EToken 32 c) \<in> set tr)"

definition spent :: "(nat \<Rightarrow> request) \<Rightarrow> pystr \<Rightarrow> pystr \<Rightarrow> (nat \<times> event) list \<Rightarrow> bool" where
  "spent rs sid c tr \<longleftrightarrow>
     (\<exists>i b n jwt ctx. (i, EReplace sid b n (Inr True)) \<in> set tr \<and> rs i = Refresh jwt ctx \<and>
        c \<in> challenges b)"

lemma introduced_later: "introduced c tr \<Longrightarrow> introduced c (tr @ us)"
  by (auto simp: introduced_def)

lemma spent_snoc:
  "spent rs sid c (tr @ [(i, ev)]) \<longleftrightarrow> spent rs sid c tr \<or>
     (\<exists>b n jwt ctx. ev = EReplace sid b n (Inr True) \<and> rs i = Refresh jwt ctx \<and> c \<in> challenges b)"
  by (auto simp: spent_def)

text \<open>A request that has not written yet cannot have introduced the token it drew.\<close>

lemma not_introduced:
  assumes "distinct (drawn tr)" and "EToken 32 c \<in> set (events_of i tr)" and "writes (events_of i tr) = []"
  shows "\<not> introduced c tr"
proof
  assume "introduced c tr"
  then obtain k ev where k: "(k, ev) \<in> set tr" "wrote ev" "(k, EToken 32 c) \<in> set tr"
    by (auto simp: introduced_def)
  with assms(1,2) have "k = i" using drawn_by_one by (metis events_of_set)
  with k(1,2) assms(3) show False by (auto simp: writes_def filter_empty_conv events_of_set)
qed

lemma introduced_now:
  "EToken 32 c \<in> set (events_of i tr) \<Longrightarrow> wrote ev \<Longrightarrow> introduced c (tr @ [(i, ev)])"
  unfolding introduced_def events_of_set by (intro exI [of _ i] exI [of _ ev]) simp

text \<open>The challenges a write leaves are ones the binding had, or tokens its request drew.\<close>

lemma commit_challenges:
  assumes "write_ok sv r h (ECommit sid q b x)"
  shows "c \<in> challenges b \<Longrightarrow> EToken 32 c \<in> set h \<and> writes h = []"
  using assms by (auto simp: challenges_def)

lemma replace_challenges:
  assumes "write_ok sv r h (EReplace sid e n x)"
  shows "c \<in> challenges n \<Longrightarrow>
    writes h = [] \<and> (EToken 32 c \<in> set h \<or> c \<in> challenges e \<and> (\<forall>jwt ctx. r \<noteq> Refresh jwt ctx))"
  using assms by (auto simp: challenges_def)

context session_store
begin

lemma challenges_fresh:
  assumes "system so sv rs w tr Q w'" and "environment sv rs w" and "empty_store so (w_store w)"
  shows "distinct (drawn tr) \<longrightarrow>
    (\<forall>t b c. get_binding so t sid (w_store w') = Inr (Some b) \<longrightarrow> c \<in> challenges b \<longrightarrow>
       introduced c tr \<and> \<not> spent rs sid c tr) \<and>
    (\<forall>c. spent rs sid c tr \<longrightarrow> introduced c tr)"
  using assms(1,2) empty_store_sound [OF assms(3)]
proof (induction rule: sound_induct)
  case start
  then show ?case using assms(3) by (simp add: empty_store_def spent_def)
next
  case (step tr s i ev s' t1 t2)
  show ?case
  proof (intro impI)
    assume "distinct (drawn (tr @ [(i, ev)]))"
    then have fresh: "distinct (drawn tr)" by simp
    with step(1) have stored: "get_binding so t sid s = Inr (Some b) \<Longrightarrow> c \<in> challenges b \<Longrightarrow>
        introduced c tr \<and> \<not> spent rs sid c tr" for t b c by blast
    from step(1) fresh have used: "spent rs sid c tr \<Longrightarrow> introduced c tr" for c by blast
    have new: "introduced c (tr @ [(i, ev)]) \<and> \<not> spent rs sid c tr \<and> \<not> introduced c tr"
      if "EToken 32 c \<in> set (events_of i tr)" "writes (events_of i tr) = []" "wrote ev" for c
      using introduced_now not_introduced [OF fresh that(1,2)] that used by blast
    have "introduced c (tr @ [(i, ev)]) \<and> \<not> spent rs sid c (tr @ [(i, ev)])"
      if b: "get_binding so t sid s' = Inr (Some b)" and c: "c \<in> challenges b" for t b c
      using binding_view [OF step(3,5) b]
    proof (elim disjE exE conjE)
      assume "get_binding so t sid s = Inr (Some b)" "\<not> rebinds sid ev"
      with stored c show ?thesis by (auto simp: spent_snoc introduced_later)
    next
      fix q assume ev: "ev = ECommit sid q b (Inr True)"
      from new [of c] commit_challenges [OF step(4) [unfolded ev] c] show ?thesis
        by (simp add: ev spent_snoc)
    next
      fix e assume ev: "ev = EReplace sid e b (Inr True)" and e: "get_binding so t1 sid s = Inr (Some e)"
      from replace_challenges [OF step(4) [unfolded ev] c] show ?thesis
      proof (elim conjE disjE)
        assume "writes (events_of i tr) = []" "EToken 32 c \<in> set (events_of i tr)"
        then have "introduced c (tr @ [(i, ev)]) \<and> \<not> spent rs sid c tr \<and> \<not> introduced c tr"
          using new by (simp add: ev)
        with stored [OF e] show ?thesis by (auto simp: ev spent_snoc)
      next
        assume "c \<in> challenges e" "\<forall>jwt ctx. rs i \<noteq> Refresh jwt ctx"
        with stored [OF e] show ?thesis by (auto simp: ev spent_snoc introduced_later)
      qed
    qed
    moreover have "introduced c (tr @ [(i, ev)])" if "spent rs sid c (tr @ [(i, ev)])" for c
      using that unfolding spent_snoc
    proof (elim disjE exE conjE)
      assume "spent rs sid c tr"
      with used show ?thesis by (simp add: introduced_later)
    next
      fix b n assume ev: "ev = EReplace sid b n (Inr True)" and c: "c \<in> challenges b"
      with step(3) have "get_binding so t1 sid s = Inr (Some b)" by (simp add: replace_result)
      from stored [OF this c] show ?thesis by (simp add: introduced_later)
    qed
    ultimately show "(\<forall>t b c. get_binding so t sid s' = Inr (Some b) \<longrightarrow> c \<in> challenges b \<longrightarrow>
        introduced c (tr @ [(i, ev)]) \<and> \<not> spent rs sid c (tr @ [(i, ev)])) \<and>
      (\<forall>c. spent rs sid c (tr @ [(i, ev)]) \<longrightarrow> introduced c (tr @ [(i, ev)]))" by blast
  qed
qed

lemma spent_stays:
  assumes "system so sv rs w tr Q w'" and "environment sv rs w" and "empty_store so (w_store w)"
    and "distinct (drawn tr)" and "spent rs sid c tr"
    and "get_binding so t sid (w_store w') = Inr (Some b)"
  shows "c \<notin> challenges b"
  using challenges_fresh [OF assms(1-3)] assms(4-6) by blast

end

text \<open>Every event of a schedule was allowed to the request that made it.\<close>

lemma history_ok: "system so sv rs w tr Q w' \<Longrightarrow> (i, ev) \<in> set tr \<Longrightarrow> \<exists>h. write_ok sv (rs i) h ev"
proof (induction rule: system_induct)
  case (step tr s j ev' s' k)
  then show ?case by auto
qed simp

text \<open>The challenge that a refresh proved is one the binding answered to.\<close>

lemma refresh_challenge:
  assumes "write_ok sv (Refresh jwt ctx) h (EReplace sid b n x)"
    and "parse_and_verify_refresh (sv_lib sv) (sv_depth sv) jwt (b_public_key_pem b) = Inr c"
  shows "c \<in> challenges b"
  using assms by (auto simp: proves_def challenges_def)

context session_store
begin

lemma proof_once:
  assumes run: "system so sv rs w (tr @ [(j, EReplace sid b n (Inr True))]) Q w'"
    and env: "environment sv rs w" "empty_store so (w_store w)"
    and fresh: "distinct (drawn tr)"
    and earlier: "(i, EReplace sid b0 n0 (Inr True)) \<in> set tr" "rs i = Refresh jwt0 ctx0"
      "parse_and_verify_refresh (sv_lib sv) (sv_depth sv) jwt0 (b_public_key_pem b0) = Inr c"
    and later: "rs j = Refresh jwt ctx"
  shows "parse_and_verify_refresh (sv_lib sv) (sv_depth sv) jwt (b_public_key_pem b) \<noteq> Inr c"
proof
  assume proof2: "parse_and_verify_refresh (sv_lib sv) (sv_depth sv) jwt (b_public_key_pem b) = Inr c"
  from run obtain Q1 w1 where before: "system so sv rs w tr Q1 w1"
    and "\<exists>p. step so (Q1 j) w1 = Some (EReplace sid b n (Inr True), p, w')"
    by (rule gsteps_snocE) blast
  then have "replace_binding so (reading w1 0) (reading w1 1) sid b n (w_store w1) = (Inr True, w_store w')"
    using step_effect by fastforce
  then have stored: "get_binding so (reading w1 0) sid (w_store w1) = Inr (Some b)"
    by (simp add: replace_result)
  from history_ok [OF before earlier(1)] earlier(2,3) have "c \<in> challenges b0"
    using refresh_challenge by metis
  with earlier(1,2) have "spent rs sid c tr" by (auto simp: spent_def)
  from spent_stays [OF before env fresh this stored] have "c \<notin> challenges b" .
  moreover from history_ok [OF run, of j "EReplace sid b n (Inr True)"] later proof2
  have "c \<in> challenges b" using refresh_challenge by (metis in_set_conv_decomp)
  ultimately show False by simp
qed

end

section \<open>Every request ends\<close>

abbreviation bounded :: "nat \<Rightarrow> event list \<Rightarrow> 'a prog \<Rightarrow> bool" where
  "bounded n h p \<equiv> obeys (\<lambda>_. True) (\<lambda>h _. length h < n) (\<lambda>_ _. True) h p"

lemma issue_bounded: "length h + 4 * k < n \<Longrightarrow> bounded n h (issue_attempts k ctx)"
proof (induction k arbitrary: h)
  case 0
  then show ?case by (auto split: sum.split option.split)
next
  case (Suc k)
  then show ?case by (auto simp: flat split: sum.split option.split)
qed

lemma proved_bounded:
  "length h + 3 < n \<Longrightarrow>
     obeys (\<lambda>_. True) (\<lambda>h _. length h < n) (\<lambda>h' out. is_ok out \<longrightarrow> length h' \<le> length h + 3) h
       (binding_proved_by sv jwt ctx)"
  by (auto simp: binding_proved_by_def flat obeys_bind challenge_matches_def
      split: sum.split option.split)

lemma refresh_bounded: "length h + 7 * k + 1 < n \<Longrightarrow> bounded n h (refresh_attempts k sv jwt ctx)"
proof (induction k arbitrary: h)
  case 0
  then show ?case by (simp add: flat)
next
  case (Suc k)
  have "bounded n h' (rotation k sv jwt ctx b)" if "length h' \<le> length h + 3" for h' b
    using that Suc.prems
    by (auto simp: rotation_def obeys_bind bound_cookie_def split: sum.split intro!: Suc.IH)
  moreover from Suc.prems have "length h + 3 < n" by simp
  ultimately show ?case
    unfolding refresh_attempts_Suc obeys_bind
    by (intro obeys_mono [OF proved_bounded]) (auto split: sum.splits)
qed

lemma serve_bounded: "bounded 23 [] (serve sv r)"
proof (cases r)
  case (Register jwt ctx)
  then show ?thesis
    by (auto simp: register_code flat obeys_bind bound_cookie_def split: sum.split option.split)
next
  case (Refresh jwt ctx)
  then show ?thesis by (simp add: refresh_def MAX_UPDATE_ATTEMPTS_def refresh_bounded)
next
  case (IssueChallenge ctx)
  then show ?thesis by (simp add: issue_refresh_challenge_def MAX_UPDATE_ATTEMPTS_def issue_bounded)
qed (auto simp: build_registration_header_response_def revoke_code torn_down_def flat
    advertise_refresh_challenge_def split: sum.split)

lemma obeys_gsteps:
  assumes "gsteps so P w tr Q w'" and "obeys (\<lambda>_. True) G R [] (P i)"
  shows "obeys (\<lambda>_. True) G R (events_of i tr) (Q i) \<and>
    (\<forall>a ev b. events_of i tr = a @ ev # b \<longrightarrow> G a ev)"
  using assms(1)
proof (induction rule: gsteps.induct)
  case gdone
  then show ?case by (simp add: assms(2))
next
  case (gnext tr Q w' j ev q w'')
  show ?case
  proof (cases "j = i")
    case True
    with gnext obeys_step [of "\<lambda>_. True" G R "events_of i tr" "Q i" so w' ev q w'']
    show ?thesis by (auto simp: append_eq_append_conv2 Cons_eq_append_conv append_eq_Cons_conv)
  next
    case False
    with gnext show ?thesis by simp
  qed
qed

lemma effects_bounded:
  assumes "system so sv rs w tr Q w'"
  shows "length (events_of i tr) \<le> 23"
proof (cases "events_of i tr" rule: rev_cases)
  case (snoc es ev)
  with obeys_gsteps [OF assms serve_bounded, of i] have "length es < 23" by blast
  with snoc show ?thesis by simp
qed simp

end
