(* ===== verification/Flow.thy ===== *)
theory Flow
  imports History
begin

text \<open>
  Requests that run alone: an honest browser gets through. The lemmas compute the outcome of each
  method for a request that should succeed, over any store that meets the contract; the section on
  the whole session composes offer, registration, challenge and refresh.
\<close>

section \<open>Random tokens\<close>

text \<open>The \<open>i\<close>-th 32-byte token from here.\<close>

definition draw :: "'s world \<Rightarrow> nat \<Rightarrow> pystr" where
  "draw w i = hexlify (map (w_entropy w) [w_drawn w + 32 * i ..< w_drawn w + 32 * i + 32])"

lemma token_draw [simp]:
  "fst (token_hex 32 w) = draw w 0"
  "draw (snd (token_hex 32 w)) i = draw w (1 + i)"
  "draw (pass n w) i = draw w i" "draw (log_entry ev m u w) i = draw w i" "draw (on_store f w) i = draw w i"
  by (simp_all add: draw_def token_hex_def pass_def log_entry_def on_store_def algebra_simps)

lemma draw_hex [simp]: "list_all is_hex_lower (draw w i)"
  by (simp add: draw_def hexlify_hex)

lemma draw_not_Nil [simp]: "draw w i \<noteq> []"
  by (metis draw_def length_hexlify length_map length_upt list.size(3) add_diff_cancel_left'
      mult_is_0 numeral_neq_zero)

lemma pass_pass [simp]: "pass n (pass m w) = pass (m + n) w"
  by (simp add: pass_def add.assoc)

section \<open>Each method, when it should succeed\<close>

definition binding_for :: "request_context \<Rightarrow> pending_registration \<Rightarrow> registration_result \<Rightarrow> 's world \<Rightarrow> binding" where
  "binding_for ctx q res w = new_binding ctx q res (tick w 2) (draw w 0) (draw w 1) (draw w 2)"

lemma world_parts [simp]:
  "w_ticks (pass n w) = w_ticks w + n" "w_ticks (log_entry ev m u w) = w_ticks w"
  "w_ticks (on_store f w) = w_ticks w" "w_ticks (snd (token_hex n w)) = w_ticks w"
  "w_clock (pass n w) = w_clock w" "w_clock (log_entry ev m u w) = w_clock w"
  "w_clock (on_store f w) = w_clock w" "w_clock (snd (token_hex n w)) = w_clock w"
  by (simp_all add: pass_def log_entry_def on_store_def token_hex_def)

lemma exec_clock: "w_clock (snd (exec so p w)) = w_clock w"
  by (induction p arbitrary: w) auto

text \<open>What running a program alone gives: the outcome, and the parts of the world after it.\<close>

definition outcome :: "'s store_ops \<Rightarrow> 'a prog \<Rightarrow> 's world \<Rightarrow> 'a result" where
  "outcome so p w = fst (exec so p w)"

definition after :: "'s store_ops \<Rightarrow> 'a prog \<Rightarrow> 's world \<Rightarrow> 's world" where
  "after so p w = snd (exec so p w)"

lemma later_reading: "w_ticks (after so p w) = w_ticks w + n \<Longrightarrow> reading (after so p w) i = reading w (n + i)"
  by (simp add: after_def reading_def exec_clock add.assoc)

lemma later_tick: "w_ticks (after so p w) = w_ticks w + n \<Longrightarrow> tick (after so p w) i = tick w (n + i)"
  by (simp only: tick_def later_reading)

lemma offer_completes:
  shows "outcome so (build_registration_header_response sv ctx) w = Inr (empty_response\<lparr>rs_headers :=
      (S ''Secure-Session-Registration'', registration_header sv (draw w 0)) # NO_STORE\<rparr>)"
    and "w_store (after so (build_registration_header_response sv ctx) w) = put_pending_registration so (reading w 1) (rc_session_id ctx)
      (new_offer ctx (draw w 0) (tick w 0)) (w_store w)"
    and "w_audit (after so (build_registration_header_response sv ctx) w) = w_audit w" and "w_ticks (after so (build_registration_header_response sv ctx) w) = w_ticks w + 2"
    and "draw (after so (build_registration_header_response sv ctx) w) i = draw w (1 + i)"
  by (simp_all add: outcome_def after_def build_registration_header_response_def flat byte_counts PendingRegistration_def
      hex_safe require_def new_offer_def del: One_nat_def)

context session_store
begin

lemma register_completes:
  assumes "get_pending_registration so (reading w 0) (rc_session_id ctx) (w_store w) = Inr (Some q)"
    and "get_pending_registration so (reading w 3) (rc_session_id ctx) (w_store w) = Inr (Some q)"
    and "answers sv jwt ctx q res"
    and "tick w 1 - p_reg_challenge_time q \<le> cfg_challenge_ttl_seconds (sv_config sv)"
  shows "outcome so (register sv jwt ctx) w = Inr (register_response sv ctx (binding_for ctx q res w) (tick w 5))"
    and "w_store (after so (register sv jwt ctx) w) =
      put_binding so (reading w 4) (rc_session_id ctx) (binding_for ctx q res w)
        (delete_pending_registration so (rc_session_id ctx) (w_store w))"
    and "w_audit (after so (register sv jwt ctx) w) =
      w_audit w @ [(REGISTERED, S ''DBSC session registered.'', rc_user_id ctx)]"
    and "w_ticks (after so (register sv jwt ctx) w) = w_ticks w + 6"
    and "draw (after so (register sv jwt ctx) w) i = draw w (3 + i)"
  using assms
  by (simp_all add: outcome_def after_def register_code flat byte_counts answers_def new_binding_valid
      bound_cookie_def commit_atomic binding_for_def register_response_def add.assoc [symmetric] del: One_nat_def add_2_eq_Suc)

lemma issue_completes:
  assumes "get_binding so (reading w 0) (rc_session_id ctx) (w_store w) = Inr (Some b)"
    and "get_binding so (reading w 2) (rc_session_id ctx) (w_store w) = Inr (Some b)"
  shows "outcome so (issue_refresh_challenge ctx) w =
      Inr (challenge_403 (b_session_identifier b) (draw w 0))"
    and "w_store (after so (issue_refresh_challenge ctx) w) =
      put_binding so (reading w 3) (rc_session_id ctx) (challenged_binding b (draw w 0) (tick w 1)) (w_store w)"
    and "w_ticks (after so (issue_refresh_challenge ctx) w) = w_ticks w + 4"
  using assms get_binding_valid [OF assms(1)]
  by (simp_all add: outcome_def after_def issue_refresh_challenge_def MAX_UPDATE_ATTEMPTS_def
      numeral_3_eq_3 flat byte_counts with_challenge_total replace_atomic
      del: One_nat_def)

lemma advertise_completes:
  assumes "get_binding so (reading w 1) (rc_session_id ctx) (w_store w) = Inr (Some b)"
    and "advertisable sv ctx b (tick w 0)"
  shows "outcome so (advertise_refresh_challenge sv b ctx) w = Inr (empty_response\<lparr>rs_headers :=
      challenge_headers (b_session_identifier b) (b_challenge b) @ NO_STORE\<rparr>)"
    and "w_store (after so (advertise_refresh_challenge sv b ctx) w) =
      put_binding so (reading w 2) (rc_session_id ctx) (b\<lparr>b_challenge_advertised := True\<rparr>) (w_store w)"
    and "draw (after so (advertise_refresh_challenge sv b ctx) w) i = draw w i"
  using assms get_binding_valid [OF assms(1)]
  by (simp_all add: outcome_def after_def advertise_refresh_challenge_def advertisable_def
      mark_challenge_advertised_ok replace_atomic del: One_nat_def)

lemma refresh_completes:
  assumes "get_binding so (reading w 0) (rc_session_id ctx) (w_store w) = Inr (Some b)"
    and "get_binding so (reading w 3) (rc_session_id ctx) (w_store w) = Inr (Some b)"
    and "proves sv jwt ctx b (tick w 1) []"
  shows "outcome so (refresh sv jwt ctx) w =
      Inr (refresh_response sv ctx (rotated_binding sv b (tick w 2) (draw w 0) (draw w 1)) (tick w 5))"
    and "w_store (after so (refresh sv jwt ctx) w) =
      put_binding so (reading w 4) (rc_session_id ctx)
        (rotated_binding sv b (tick w 2) (draw w 0) (draw w 1)) (w_store w)"
    and "w_audit (after so (refresh sv jwt ctx) w) =
      w_audit w @ [(REFRESHED, S ''DBSC cookie refreshed.'', rc_user_id ctx)]"
    and "draw (after so (refresh sv jwt ctx) w) i = draw w (2 + i)"
proof -
  from assms(3) have "exec so (binding_proved_by sv jwt ctx) w = (Inr b, pass 2 w)"
    using assms(1)
    by (auto simp: proves_def binding_proved_by_def flat challenge_matches_def constant_time_equals_iff
        simp del: One_nat_def)
  then have "exec so (refresh sv jwt ctx) w = exec so (rotation 2 sv jwt ctx b) (pass 2 w)"
    by (simp add: refresh_def MAX_UPDATE_ATTEMPTS_def numeral_3_eq_3 refresh_attempts_Suc exec_bind
        numeral_2_eq_2 del: refresh_attempts.simps)
  then show "outcome so (refresh sv jwt ctx) w =
      Inr (refresh_response sv ctx (rotated_binding sv b (tick w 2) (draw w 0) (draw w 1)) (tick w 5))"
    and "w_store (after so (refresh sv jwt ctx) w) =
      put_binding so (reading w 4) (rc_session_id ctx)
        (rotated_binding sv b (tick w 2) (draw w 0) (draw w 1)) (w_store w)"
    and "w_audit (after so (refresh sv jwt ctx) w) =
      w_audit w @ [(REFRESHED, S ''DBSC cookie refreshed.'', rc_user_id ctx)]"
    and "draw (after so (refresh sv jwt ctx) w) i = draw w (2 + i)"
    using assms(2) get_binding_valid [OF assms(1)]
    by (simp_all add: outcome_def after_def rotation_def with_rotated_total bound_cookie_def replace_atomic
        refresh_response_def add.assoc [symmetric] del: One_nat_def add_2_eq_Suc)
qed

end

section \<open>Running alone is one of the schedules\<close>

text \<open>What is left of a coroutine that has ended.\<close>

definition halted :: "'a result \<Rightarrow> 'a prog" where
  "halted r = (case r of Inl e \<Rightarrow> Raise e | Inr x \<Rightarrow> Return x)"

lemma gsteps_Cons:
  "gsteps so (P(i := q)) w' tr Q w'' \<Longrightarrow> step so (P i) w = Some (ev, q, w') \<Longrightarrow>
     gsteps so P w ((i, ev) # tr) Q w''"
proof (induction rule: gsteps.induct)
  case gdone
  then show ?case using gsteps.gnext [of so P w "[]" P w i] by (simp add: gsteps.gdone del: fun_upd_apply)
next
  case (gnext tr Q w1 j ev' q' w2)
  then show ?case using gsteps.gnext [of so P w "(i, ev) # tr" Q w1] by (simp del: fun_upd_apply)
qed

lemma gsteps_append: "gsteps so Q w1 us R w2 \<Longrightarrow> gsteps so P w tr Q w1 \<Longrightarrow> gsteps so P w (tr @ us) R w2"
proof (induction rule: gsteps.induct)
  case (gnext us R w2 i ev q w3)
  then show ?case using gsteps.gnext [of so P w "tr @ us" R w2] by (simp del: fun_upd_apply)
qed simp

text \<open>Request \<open>i\<close> runs to its end without being interrupted.\<close>

definition alone :: "'s store_ops \<Rightarrow> (nat \<Rightarrow> 'a prog) \<Rightarrow> nat \<Rightarrow> 's world \<Rightarrow> 'a result \<Rightarrow> 's world \<Rightarrow> event list \<Rightarrow> bool" where
  "alone so P i w r w' evs \<longleftrightarrow>
     gsteps so P w (map (Pair i) evs) (P(i := halted r)) w' \<and> runs (P i) evs r"

lemma step_cases:
  "step so (Now k) w = Some (ENow (tick w 0), k (tick w 0), pass 1 w)"
  "step so (TokenHex n d) w = Some (EToken n (fst (token_hex n w)), d (fst (token_hex n w)), snd (token_hex n w))"
  "step so (Log ev m u p) w = Some (ELog ev m u, p, log_entry ev m u w)"
  "step so (PutPending sid r p) w =
     Some (EPutPending sid r, p, on_store (put_pending_registration so (reading w 0) sid r) (pass 1 w))"
  "step so (GetPending sid j) w =
     Some (EGetPending sid (get_pending_registration so (reading w 0) sid (w_store w)),
       j (get_pending_registration so (reading w 0) sid (w_store w)), pass 1 w)"
  "step so (GetBinding sid g) w =
     Some (EGetBinding sid (get_binding so (reading w 0) sid (w_store w)),
       g (get_binding so (reading w 0) sid (w_store w)), pass 1 w)"
  "step so (DeleteSession sid p) w = Some (EDelete sid, p, on_store (delete_session so sid) w)"
  "step so (CommitRegistration sid q b c) w =
     Some (ECommit sid q b (fst (commit_registration so (reading w 0) (reading w 1) sid q b (w_store w))),
       c (fst (commit_registration so (reading w 0) (reading w 1) sid q b (w_store w))),
       on_store (\<lambda>_. snd (commit_registration so (reading w 0) (reading w 1) sid q b (w_store w))) (pass 2 w))"
  "step so (ReplaceBinding sid e n' c) w =
     Some (EReplace sid e n' (fst (replace_binding so (reading w 0) (reading w 1) sid e n' (w_store w))),
       c (fst (replace_binding so (reading w 0) (reading w 1) sid e n' (w_store w))),
       on_store (\<lambda>_. snd (replace_binding so (reading w 0) (reading w 1) sid e n' (w_store w))) (pass 2 w))"
  by (simp_all add: split_beta Let_def)

lemma step_runs: "step so p w = Some (ev, q, w1) \<Longrightarrow> runs q es r \<Longrightarrow> runs p (ev # es) r"
  by (cases p) (auto simp: runs_iff Let_def split: prod.splits)

lemma alone_step:
  assumes "step so p w = Some (ev, q, w1)"
    and "\<exists>evs. alone so (P(i := q)) i w1 (fst (exec so q w1)) (snd (exec so q w1)) evs"
  shows "\<exists>evs. alone so (P(i := p)) i w (fst (exec so p w)) (snd (exec so p w)) evs"
proof -
  from assms(1) have same: "exec so p w = exec so q w1" using exec_step [of so p w] by simp
  from assms(2) obtain evs where
    "gsteps so (P(i := q)) w1 (map (Pair i) evs) (P(i := halted (fst (exec so q w1)))) (snd (exec so q w1))"
    "runs q evs (fst (exec so q w1))"
    unfolding alone_def fun_upd_upd fun_upd_same by blast
  then have "alone so (P(i := p)) i w (fst (exec so p w)) (snd (exec so p w)) (ev # evs)"
    unfolding alone_def same
    using gsteps_Cons [of so "P(i := p)" i q w1 "map (Pair i) evs"] step_runs [OF assms(1)] assms(1)
    by (simp del: fun_upd_apply) (simp add: fun_upd_same)
  then show ?thesis by (rule exI)
qed

lemma exec_alone: "\<exists>evs. alone so (P(i := p)) i w (fst (exec so p w)) (snd (exec so p w)) evs"
proof (induction p arbitrary: P w)
  case (Return x)
  have "alone so (P(i := Return x)) i w (Inr x) w []" by (simp add: alone_def halted_def gsteps.gdone)
  then show ?case unfolding exec.simps fst_conv snd_conv by (rule exI)
next
  case (Raise e)
  have "alone so (P(i := Raise e)) i w (Inl e) w []" by (simp add: alone_def halted_def gsteps.gdone)
  then show ?case unfolding exec.simps fst_conv snd_conv by (rule exI)
qed (rule alone_step, rule step_cases, blast intro: rangeI)+

text \<open>The next request of a sequence that runs one after the other.\<close>

lemma run_next:
  assumes "gsteps so P w tr Q w1" and "Q i = P i"
  shows "\<exists>evs. gsteps so P w (tr @ map (Pair i) evs) (Q(i := halted (fst (exec so (P i) w1))))
      (snd (exec so (P i) w1)) \<and> runs (P i) evs (fst (exec so (P i) w1))"
proof -
  obtain evs where "alone so (Q(i := P i)) i w1 (fst (exec so (P i) w1)) (snd (exec so (P i) w1)) evs"
    using exec_alone by blast
  then have "gsteps so Q w1 (map (Pair i) evs) (Q(i := halted (fst (exec so (P i) w1)))) (snd (exec so (P i) w1))"
    "runs (P i) evs (fst (exec so (P i) w1))"
    using assms(2) by (simp_all add: alone_def del: fun_upd_apply) (metis fun_upd_triv, simp)
  with gsteps_append [OF _ assms(1)] show ?thesis by blast
qed

section \<open>A failed request\<close>

lemma advertise_failure_quiet:
  "runs (advertise_refresh_challenge sv b ctx) evs (Inl e) \<Longrightarrow> writes evs = []"
  by (auto simp: advertise_refresh_challenge_def runs_iff)

lemma failure_writes_nothing:
  assumes "runs (serve sv r) evs (Inl e)" and "list_all reply_ok evs"
  shows "writes evs = []"
proof (cases r)
  case (Offer ctx)
  with assms offer_never_fails show ?thesis by (metis serve.simps(1))
next
  case (Register jwt ctx)
  with assms register_failure show ?thesis by (metis serve.simps(2))
next
  case (IssueChallenge ctx)
  with assms issue_failure show ?thesis by (metis serve.simps(3) issue_refresh_challenge_def)
next
  case (Refresh jwt ctx)
  with assms refresh_failure show ?thesis by (metis serve.simps(4) refresh_def)
next
  case (Revoke ctx et)
  with assms revoke_conduct [of sv ctx et evs "Inl e"] show ?thesis by simp
next
  case (Advertise b ctx)
  with assms(1) advertise_failure_quiet show ?thesis by (metis serve.simps(6))
qed

context valid_store
begin

text \<open>Every reply that the world gives is one the lemmas about finished runs may rely on.\<close>

lemma read_reply_valid:
  "reply_valid (EGetPending sid (get_pending_registration so t sid s))"
  "reply_valid (EGetBinding sid (get_binding so t sid s))"
  by (auto simp: pred_option_def dest: get_binding_valid get_pending_valid split: sum.split elim: option.set_cases)

lemma step_reply_valid: "step so p w = Some (ev, q, w') \<Longrightarrow> reply_valid ev"
  using read_reply_valid
  by (cases p) (auto simp: Let_def token_hex_def hexlify_hex simp del: reply_valid.simps(2,3) split: prod.splits)

lemma gsteps_reply_valid: "gsteps so P w tr Q w' \<Longrightarrow> list_all (\<lambda>u. reply_valid (snd u)) tr"
  by (induction rule: gsteps.induct) (auto dest: step_reply_valid)

end

context session_store
begin

lemma read_reply_ok:
  "reply_ok (EGetPending sid (get_pending_registration so t sid s))"
  "reply_ok (EGetBinding sid (get_binding so t sid s))"
  by (cases "get_pending_registration so t sid s"; cases "get_binding so t sid s";
      auto simp: pred_option_def elim: option.set_cases
        dest: get_binding_corrupt get_pending_corrupt get_binding_valid get_pending_valid)+

lemma step_reply_ok: "step so p w = Some (ev, q, w') \<Longrightarrow> reply_ok ev"
  using read_reply_ok
  by (cases p)
    (auto simp: Let_def token_hex_def hexlify_hex commit_atomic replace_atomic simp del: reply_ok.simps(2,3)
      split: prod.splits sum.splits option.splits if_splits
      dest: get_binding_corrupt get_pending_corrupt)

lemma gsteps_reply_ok: "gsteps so P w tr Q w' \<Longrightarrow> list_all (\<lambda>u. reply_ok (snd u)) tr"
  by (induction rule: gsteps.induct) (auto dest: step_reply_ok)

lemma effect_unchanged: "effect so t1 t2 ev s s' \<Longrightarrow> \<not> wrote ev \<Longrightarrow> s' = s"
  by (cases ev) (auto dest: commit_unchanged replace_unchanged)

lemma gsteps_unchanged: "gsteps so P w tr Q w' \<Longrightarrow> writes (map snd tr) = [] \<Longrightarrow> w_store w' = w_store w"
  by (induction rule: gsteps.induct) (auto dest!: step_effect dest: effect_unchanged split: if_splits)

lemma failure_changes_nothing:
  assumes "outcome so (serve sv r) w = Inl e"
  shows "w_store (after so (serve sv r) w) = w_store w"
proof -
  obtain evs where run: "alone so ((\<lambda>_. Return empty_response)(0 := serve sv r)) 0 w (Inl e) (after so (serve sv r) w) evs"
    using exec_alone [of so _ 0 "serve sv r" w] assms unfolding outcome_def after_def by metis
  then have g: "gsteps so ((\<lambda>_. Return empty_response)(0 := serve sv r)) w (map (Pair 0) evs)
      (((\<lambda>_. Return empty_response)(0 := serve sv r))(0 := halted (Inl e))) (after so (serve sv r) w)"
    and "runs (serve sv r) evs (Inl e)"
    by (simp_all add: alone_def)
  moreover have "list_all reply_ok evs"
    using gsteps_reply_ok [OF g] by (simp add: list.pred_map o_def)
  ultimately have "writes evs = []" using failure_writes_nothing by blast
  with gsteps_unchanged [OF g] show ?thesis by (simp add: o_def)
qed

end

section \<open>The tokens of a schedule\<close>

text \<open>
  Every token is 32 bytes long, so the tokens drawn in a schedule are the successive 32-byte blocks
  of the entropy source, whichever request drew them.
\<close>

fun token_size :: "event \<Rightarrow> bool" where
  "token_size (EToken n v) \<longleftrightarrow> n = 32"
| "token_size ev \<longleftrightarrow> True"

abbreviation draws32 :: "event list \<Rightarrow> 'a prog \<Rightarrow> bool" where
  "draws32 h p \<equiv> obeys (\<lambda>_. True) (\<lambda>_ ev. token_size ev) (\<lambda>_ _. True) h p"

lemma issue_draws: "draws32 h (issue_attempts k ctx)"
  by (induction k arbitrary: h) (auto simp: flat byte_counts split: sum.split option.split)

lemma refresh_draws: "draws32 h (refresh_attempts k sv jwt ctx)"
proof (induction k arbitrary: h)
  case 0
  then show ?case by (simp add: flat)
next
  case (Suc k)
  have "draws32 h (rotation k sv jwt ctx b)" for h b
    by (auto simp: rotation_def obeys_bind bound_cookie_def split: sum.split intro!: Suc.IH)
  moreover have "draws32 h (binding_proved_by sv jwt ctx)"
    by (rule obeys_mono [OF binding_proved_reads], rename_tac h ev, case_tac ev) simp_all
  ultimately show ?case
    unfolding refresh_attempts_Suc obeys_bind by (elim obeys_mono) (auto split: sum.splits)
qed

lemma serve_draws: "draws32 [] (serve sv r)"
  by (cases r)
    (auto simp: register_code flat byte_counts obeys_bind bound_cookie_def issue_draws refresh_draws
      issue_refresh_challenge_def refresh_def build_registration_header_response_def revoke_code
      torn_down_def advertise_refresh_challenge_def split: sum.split option.split)

lemma step_draws:
  "step so p w = Some (ev, q, w') \<Longrightarrow> token_size ev \<Longrightarrow>
     w_entropy w' = w_entropy w \<and>
     (case ev of EToken n v \<Rightarrow> v = draw w 0 \<and> w_drawn w' = w_drawn w + 32 | _ \<Rightarrow> w_drawn w' = w_drawn w)"
  by (cases p) (auto simp: Let_def token_hex_def draw_def pass_def log_entry_def on_store_def split: prod.splits)

lemma drawn_draws:
  assumes "system so sv rs w tr Q w'"
  shows "drawn tr = map (draw w) [0..<length (drawn tr)] \<and> w_entropy w' = w_entropy w \<and>
    w_drawn w' = w_drawn w + 32 * length (drawn tr)"
  using assms
proof (induction rule: gsteps.induct)
  case gdone
  then show ?case by simp
next
  case (gnext tr Q w' i ev q w'')
  have "token_size ev"
    using obeys_gsteps [OF gsteps.gnext [OF gnext.hyps] serve_draws, of i] by auto
  from step_draws [OF gnext.hyps(2) this] gnext.IH show ?case
    by (cases ev) (auto simp: draw_def)
qed

section \<open>A whole session\<close>

text \<open>
  A browser with a device key: given any challenge the server can draw, it makes a registration
  token and a refresh token that the verifier accepts for its key.
\<close>

definition honest_browser :: "'k server \<Rightarrow> pystr \<Rightarrow> (pystr \<Rightarrow> pystr) \<Rightarrow> (pystr \<Rightarrow> pystr) \<Rightarrow> bool" where
  "honest_browser sv pem reg_jwt refresh_jwt \<longleftrightarrow>
     (\<forall>c. list_all is_hex_lower c \<longrightarrow> length c = 64 \<longrightarrow>
        parse_and_verify_registration (sv_lib sv) (sv_depth sv) (reg_jwt c) =
          Inr \<lparr>rr_public_key_pem = pem, rr_algorithm = S ''ES256'', rr_challenge = c\<rparr> \<and>
        parse_and_verify_refresh (sv_lib sv) (sv_depth sv) (refresh_jwt c) pem = Inr c)"

text \<open>The clock stays inside a window that every time-to-live covers, for as long as the session takes.\<close>

definition unhurried :: "'k server \<Rightarrow> int \<Rightarrow> int \<Rightarrow> 's world \<Rightarrow> bool" where
  "unhurried sv pending_ttl binding_ttl w \<longleftrightarrow>
     (\<forall>i j. i < 20 \<longrightarrow> j < 20 \<longrightarrow> time_ok (tick w i) \<and>
        reading w i \<le> of_int (tick w j + min (min pending_ttl binding_ttl) (cfg_challenge_ttl_seconds (sv_config sv))))"

lemma unhurried_times:
  assumes "unhurried sv pt bt w" and "i < 20"
  shows "time_ok (tick w i)"
    and "j < 20 \<Longrightarrow> reading w i \<le> of_int (tick w j) + of_int pt"
    and "j < 20 \<Longrightarrow> reading w i \<le> of_int (tick w j) + of_int bt"
    and "j < 20 \<Longrightarrow> tick w i - tick w j \<le> cfg_challenge_ttl_seconds (sv_config sv)"
proof -
  show "time_ok (tick w i)" using assms by (simp add: unhurried_def)
  have soon: "reading w i \<le> of_int (tick w j + m)"
    if "j < 20" "min (min pt bt) (cfg_challenge_ttl_seconds (sv_config sv)) \<le> m" for m
  proof -
    have "reading w i \<le> of_int (tick w j + min (min pt bt) (cfg_challenge_ttl_seconds (sv_config sv)))"
      using assms that(1) unfolding unhurried_def by blast
    also have "\<dots> \<le> of_int (tick w j + m)" using that(2) by (simp only: of_int_le_iff add_le_cancel_left)
    finally show ?thesis .
  qed
  show "j < 20 \<Longrightarrow> reading w i \<le> of_int (tick w j) + of_int pt"
    "j < 20 \<Longrightarrow> reading w i \<le> of_int (tick w j) + of_int bt"
    unfolding of_int_add [symmetric] by (rule soon; simp)+
  show "tick w i - tick w j \<le> cfg_challenge_ttl_seconds (sv_config sv)" if "j < 20"
    using py_int_le [OF soon [OF that order.refl [THEN min.coboundedI2]]] by simp
qed

lemma length_draw [simp]: "length (draw w i) = 64"
  by (simp add: draw_def)

lemma binding_for_storable:
  "pending_storable q \<Longrightarrow> str_ok (rr_public_key_pem res) \<Longrightarrow> str_ok (rr_algorithm res) \<Longrightarrow>
     str_ok (rc_user_id ctx) \<Longrightarrow> time_ok (tick w 2) \<Longrightarrow> sound_binding (binding_for ctx q res w)"
  by (simp add: sound_binding_def binding_storable_def binding_for_def new_binding_valid time_ok_int_ok
      pending_storable_def)
    (simp add: new_binding_def)

lemma same_user_refl [simp]: "same_user u u" "same_user [] u" "same_user u []"
  by (simp_all add: same_user_def)

lemma draw_encodable [simp]: "encodable (draw w i)"
  by (simp add: sf_safe_encodable hex_safe)

context session_store
begin

lemma honest_registration:
  assumes browser: "honest_browser sv pem reg_jwt refresh_jwt" and clock: "unhurried sv pending_ttl binding_ttl w"
    and strs: "str_ok pem" "str_ok (rc_user_id ctx)"
  defines "w1 \<equiv> after so (build_registration_header_response sv ctx) w"
  defines "q \<equiv> new_offer ctx (draw w 0) (tick w 0)"
    and "res \<equiv> \<lparr>rr_public_key_pem = pem, rr_algorithm = S ''ES256'', rr_challenge = draw w 0\<rparr>"
  shows "outcome so (register sv (reg_jwt (draw w 0)) ctx) w1 =
      Inr (register_response sv ctx (binding_for ctx q res w1) (tick w 7))"
    and "i < 20 \<Longrightarrow>
      get_binding so (reading w i) (rc_session_id ctx) (w_store (after so (register sv (reg_jwt (draw w 0)) ctx) w1)) =
        Inr (Some (binding_for ctx q res w1))"
    and "w_ticks (after so (register sv (reg_jwt (draw w 0)) ctx) w1) = w_ticks w + 8"
proof -
  have tick1: "tick w1 j = tick w (2 + j)" "reading w1 j = reading w (2 + j)" for j
    unfolding w1_def by (rule later_tick later_reading, rule offer_completes)+
  have q_ok: "pending_storable q"
    using strs unhurried_times(1) [OF clock, of 0]
    by (simp add: q_def new_offer_def pending_storable_def pending_valid_def hex_safe time_ok_int_ok)
  have live: "get_pending_registration so (reading w1 j) (rc_session_id ctx) (w_store w1) = Inr (Some q)"
    if "j < 18" for j
    unfolding w1_def offer_completes q_def [symmetric] tick1 [unfolded w1_def]
    using q_ok that by (intro get_put_pending) (simp_all add: unhurried_times [OF clock])
  have ans: "answers sv (reg_jwt (draw w 0)) ctx q res"
    using browser by (simp add: answers_def q_def new_offer_def res_def honest_browser_def
        constant_time_equals_iff)
  have due: "tick w1 1 - p_reg_challenge_time q \<le> cfg_challenge_ttl_seconds (sv_config sv)"
    by (simp add: q_def new_offer_def tick1 unhurried_times [OF clock])
  note reg = register_completes [OF live live ans due, simplified]
  show "outcome so (register sv (reg_jwt (draw w 0)) ctx) w1 =
      Inr (register_response sv ctx (binding_for ctx q res w1) (tick w 7))"
    using reg(1) by (simp add: tick1)
  show "w_ticks (after so (register sv (reg_jwt (draw w 0)) ctx) w1) = w_ticks w + 8"
    using reg(4) by (simp add: w1_def offer_completes)
  have "sound_binding (binding_for ctx q res w1)"
    using q_ok strs by (intro binding_for_storable) (simp_all add: res_def tick1 unhurried_times [OF clock])
  then show "get_binding so (reading w i) (rc_session_id ctx)
      (w_store (after so (register sv (reg_jwt (draw w 0)) ctx) w1)) = Inr (Some (binding_for ctx q res w1))"
    if "i < 20"
    using that unfolding reg(2) tick1
    by (intro get_put_binding) (simp_all add: sound_binding_def unhurried_times [OF clock])
qed

lemma honest_refresh:
  assumes browser: "honest_browser sv (b_public_key_pem b) reg_jwt refresh_jwt"
    and clock: "\<And>i j. i < 12 \<Longrightarrow> j < 12 \<Longrightarrow> time_ok (tick w i) \<and> reading w i \<le> of_int (tick w j + binding_ttl) \<and>
      tick w i - tick w j \<le> cfg_challenge_ttl_seconds (sv_config sv)"
    and stored: "\<And>i. i < 12 \<Longrightarrow> get_binding so (reading w i) (rc_session_id ctx) (w_store w) = Inr (Some b)"
    and sound: "sound_binding b" and user: "same_user (b_user_id b) (rc_user_id ctx)"
    and ident: "header ctx (S ''Sec-Secure-Session-Id'') \<in> {None, Some (b_session_identifier b)}"
  defines "w1 \<equiv> after so (issue_refresh_challenge ctx) w"
  shows "outcome so (issue_refresh_challenge ctx) w = Inr (challenge_403 (b_session_identifier b) (draw w 0))"
    and "outcome so (refresh sv (refresh_jwt (draw w 0)) ctx) w1 =
      Inr (refresh_response sv ctx (rotated_binding sv (challenged_binding b (draw w 0) (tick w 1))
        (tick w 6) (draw w1 0) (draw w1 1)) (tick w 9))"
proof -
  define c where "c = challenged_binding b (draw w 0) (tick w 1)"
  have issue: "outcome so (issue_refresh_challenge ctx) w = Inr (challenge_403 (b_session_identifier b) (draw w 0))"
    "w_store (after so (issue_refresh_challenge ctx) w) = put_binding so (reading w 3) (rc_session_id ctx) c (w_store w)"
    "w_ticks (after so (issue_refresh_challenge ctx) w) = w_ticks w + 4"
    using issue_completes [OF stored stored] by (simp_all add: c_def)
  show "outcome so (issue_refresh_challenge ctx) w = Inr (challenge_403 (b_session_identifier b) (draw w 0))"
    by (rule issue)
  have tick1: "tick w1 j = tick w (4 + j)" "reading w1 j = reading w (4 + j)" for j
    unfolding w1_def by (rule later_tick later_reading, rule issue)+
  have valid: "binding_valid b" using sound by (simp add: sound_binding_def binding_storable_def)
  have "sound_binding c"
    using sound valid clock [of 1 1] unfolding c_def
    by (intro challenged_binding_sound) (simp_all add: challenged_binding_valid)
  then have live: "get_binding so (reading w1 j) (rc_session_id ctx) (w_store w1) = Inr (Some c)" if "j < 8" for j
    using that clock [of "4 + j" 3] unfolding w1_def issue tick1 [unfolded w1_def]
    by (intro get_put_binding) (simp_all add: sound_binding_def)
  have "session_id_presented c ctx = Inr True"
    using ident valid
    by (auto simp: c_def session_id_presented_def constant_time_equals_iff binding_valid_def sf_safe_encodable Let_def)
  then have "proves sv (refresh_jwt (draw w 0)) ctx c (tick w1 1) []"
    using browser user clock [of 5 1]
    by (simp add: proves_def c_def honest_browser_def tick1)
  from refresh_completes(1) [OF live live this, simplified]
  show "outcome so (refresh sv (refresh_jwt (draw w 0)) ctx) w1 =
      Inr (refresh_response sv ctx (rotated_binding sv (challenged_binding b (draw w 0) (tick w 1))
        (tick w 6) (draw w1 0) (draw w1 1)) (tick w 9))"
    by (simp add: tick1 c_def)
qed

end

section \<open>The gate, alone\<close>

lemma bound_cookie_outcome:
  assumes "binding_valid b"
  shows "outcome so (bound_cookie_matches sv b ctx) w = Inr True \<longleftrightarrow>
    same_user (b_user_id b) (rc_user_id ctx) \<and>
    (\<exists>v. cookie ctx (cfg_cookie_name (sv_config sv)) = Some v \<and> v \<noteq> [] \<and>
       (v = b_cookie_value b \<or>
        v = b_previous_cookie_value b \<and> tick w 0 < b_previous_cookie_expires_at b))"
proof (cases "same_user (b_user_id b) (rc_user_id ctx) \<and>
    cookie ctx (cfg_cookie_name (sv_config sv)) \<notin> {None, Some []}")
  case False
  then show ?thesis by (auto simp: bound_cookie_matches_absent outcome_def)
next
  case True
  then obtain v where v: "cookie ctx (cfg_cookie_name (sv_config sv)) = Some v" "v \<noteq> []" by auto
  show ?thesis
  proof (cases "encodable v")
    case enc: True
    show ?thesis
      using True v by (auto simp: bound_cookie_matches_code [OF assms _ v enc] outcome_def)
  next
    case False
    then have "v \<noteq> b_cookie_value b" "v \<noteq> b_previous_cookie_value b"
      using assms by (auto simp: binding_valid_def dest: cookie_value_encodable)
    with v show ?thesis
      using False True assms
      by (auto simp: bound_cookie_matches_def outcome_def constant_time_equals_iff Let_def
          binding_valid_def cookie_value_encodable)
  qed
qed

text \<open>What a refresh proof may answer, once the binding is valid.\<close>

lemma challenge_outcome:
  assumes "binding_valid b"
  shows "outcome so (challenge_matches cfg b jti) w = Inr True \<longleftrightarrow>
    jti = b_challenge b \<or>
    jti = b_previous_challenge b \<and> jti \<noteq> [] \<and>
      tick w 0 - b_previous_challenge_time b \<le> cfg_challenge_ttl_seconds cfg"
proof -
  have enc: "encodable (b_challenge b)" "encodable (b_previous_challenge b)"
    using assms by (simp_all add: binding_valid_def sf_safe_encodable)
  show ?thesis
  proof (cases "encodable jti")
    case True
    with enc show ?thesis
      by (auto simp: outcome_def challenge_matches_def constant_time_equals_iff)
  next
    case False
    with enc show ?thesis
      by (auto simp: outcome_def challenge_matches_def constant_time_equals_iff)
  qed
qed

end
