(* ===== verification/Samples.thy ===== *)
theory Samples
  imports Flow
begin

text \<open>
  Concrete inputs for the witnesses: a toy signature scheme in the place of the elliptic-curve
  library, a browser that signs with it, and a small world in which it registers and refreshes.
\<close>

section \<open>A toy signature scheme\<close>

definition checksum :: "bytes \<Rightarrow> nat" where
  "checksum bs = foldl (\<lambda>a b. (a + b) mod 256) 1 bs"

definition toy_crypto :: "bytes crypto" where
  "toy_crypto =
     \<lparr>load_pem_public_key = (\<lambda>pem. Some pem),
      is_p256_key = (\<lambda>_. True),
      from_encoded_point = (\<lambda>p. if length p = 65 then Some p else None),
      public_pem = (\<lambda>_. S ''PEM''),
      encode_dss_signature = (\<lambda>r s. [r mod 256, s mod 256]),
      ec_verify = (\<lambda>key der dat. der = [checksum key, checksum dat])\<rparr>"

definition toy_server :: "bytes server" where
  "toy_server = \<lparr>sv_config = config_defaults, sv_lib = toy_crypto, sv_depth = 10\<rparr>"

text \<open>The browser: it signs the two parts of a token with the key \<open>PEM\<close>.\<close>

definition toy_sign :: "json \<Rightarrow> json \<Rightarrow> pystr" where
  "toy_sign head payload =
     (let part = (\<lambda>j. b64url_encode (utf8 (dumps j)));
          input = part head @ [46] @ part payload;
          sig = replicate 31 0 @ [checksum (utf8 (S ''PEM''))] @ replicate 31 0 @ [checksum (utf8 input)] in
      input @ [46] @ b64url_encode sig)"

definition toy_jwk :: "(pystr \<times> json) list" where
  "toy_jwk =
     [(S ''kty'', JStr (S ''EC'')), (S ''crv'', JStr (S ''P-256'')),
      (S ''x'', JStr (b64url_encode (replicate 32 1))), (S ''y'', JStr (b64url_encode (replicate 32 2)))]"

definition toy_registration :: "pystr \<Rightarrow> pystr" where
  "toy_registration challenge =
     toy_sign (JObj [(S ''alg'', JStr (S ''ES256'')), (S ''jwk'', JObj toy_jwk)])
       (JObj [(S ''jti'', JStr challenge)])"

definition toy_refresh :: "pystr \<Rightarrow> pystr" where
  "toy_refresh challenge =
     toy_sign (JObj [(S ''alg'', JStr (S ''ES256''))]) (JObj [(S ''jti'', JStr challenge)])"

section \<open>The browser's tokens verify\<close>

lemma utf8_ascii: "list_all (\<lambda>c. c < 128) s \<Longrightarrow> utf8 s = s"
  by (induction s) (auto simp: utf8_Cons utf8_char_def)

lemma visible_ascii: "list_all visible s \<Longrightarrow> list_all (\<lambda>c. c < 128) s \<and> list_all (\<lambda>c. 0 < c \<and> c < 128) s
    \<and> list_all (\<lambda>c. c < 256) s"
  by (auto simp: list_all_iff visible_def)

lemma b64url_char_no_dot: "b64url_char v \<noteq> 46 \<and> b64url_char v < 128" if "v < 64"
  using that by (auto simp: b64url_char_def)

lemma b64url_encode_chars:
  assumes "list_all (\<lambda>b. b < 256) bs"
  shows "list_all (\<lambda>c. c \<noteq> 46 \<and> c < 128) (b64url_encode bs)"
  using sextets_small [OF assms] b64url_char_no_dot by (auto simp: b64url_encode_def list_all_iff)

lemma length_b64url_encode: "length (b64url_encode bs) \<le> 2 * length bs"
  unfolding b64url_encode_def by (induction bs rule: b64url_sextets.induct) auto

lemma loads_printed:
  assumes "json_ok (JObj ms)" and "json_depth (JObj ms) \<le> depth"
  shows "loads_object_bytes depth (b64url_decode (b64url_encode (utf8 (dumps (JObj ms))))) = Some ms"
proof -
  have v: "list_all visible (dumps (JObj ms))" by (rule dumps_visible [OF assms(1)])
  with visible_ascii [OF v] have "b64url_decode (b64url_encode (utf8 (dumps (JObj ms)))) = dumps (JObj ms)"
    by (simp only: utf8_ascii b64url_decode_encode)
  with visible_ascii [OF v] show ?thesis
    by (simp only: loads_object_bytes_def json_text_ascii option.case loads_object_dumps [OF assms])
qed

definition toy_input :: "(pystr \<times> json) list \<Rightarrow> (pystr \<times> json) list \<Rightarrow> pystr" where
  "toy_input head payload =
     b64url_encode (utf8 (dumps (JObj head))) @ [46] @ b64url_encode (utf8 (dumps (JObj payload)))"

definition toy_signature :: "pystr \<Rightarrow> bytes" where
  "toy_signature input =
     replicate 31 0 @ [checksum (utf8 (S ''PEM''))] @ replicate 31 0 @ [checksum (utf8 input)]"

lemma checksum_less: "checksum bs < 256"
proof (cases bs rule: rev_cases)
  case Nil
  then show ?thesis by (simp add: checksum_def)
next
  case (snoc ys y)
  then show ?thesis by (simp add: checksum_def)
qed

lemma toy_sign_parses:
  assumes "json_ok (JObj head)" and "json_depth (JObj head) \<le> depth"
    and "json_ok (JObj payload)" and "json_depth (JObj payload) \<le> depth"
    and "length (dumps (JObj head)) + length (dumps (JObj payload)) \<le> 4000"
  shows "parse depth (toy_sign (JObj head) (JObj payload)) =
    Inr \<lparr>pj_header = head, pj_payload = payload, pj_signing_input = toy_input head payload,
        pj_signature = toy_signature (toy_input head payload)\<rparr>"
proof -
  let ?h = "b64url_encode (utf8 (dumps (JObj head)))" and ?p = "b64url_encode (utf8 (dumps (JObj payload)))"
  let ?s = "b64url_encode (toy_signature (toy_input head payload))"
  have u: "utf8 (dumps (JObj head)) = dumps (JObj head)" "utf8 (dumps (JObj payload)) = dumps (JObj payload)"
    using visible_ascii dumps_visible assms(1,3) utf8_ascii by metis+
  have small: "list_all (\<lambda>c. c < 256) (toy_signature (toy_input head payload))"
    using checksum_less by (auto simp: toy_signature_def list_all_iff)
  have nodot: "46 \<notin> set ?h" "46 \<notin> set ?p" "46 \<notin> set ?s"
    unfolding u using b64url_encode_chars [OF visible_ascii [OF dumps_visible [OF assms(1)], THEN conjunct2, THEN conjunct2]]
      b64url_encode_chars [OF visible_ascii [OF dumps_visible [OF assms(3)], THEN conjunct2, THEN conjunct2]]
      b64url_encode_chars [OF small] by (auto simp: list_all_iff)
  have len: "length (?h @ [46] @ ?p @ [46] @ ?s) \<le> 8192"
    using length_b64url_encode [of "dumps (JObj head)"] length_b64url_encode [of "dumps (JObj payload)"]
      length_b64url_encode [of "toy_signature (toy_input head payload)"] assms(5)
    unfolding u by (simp add: toy_signature_def del: dumps.simps)
  have "py_split 46 (?h @ 46 # ?p @ 46 # ?s) = [?h, ?p, ?s]"
    using nodot by (simp add: py_split_append_sep py_split_no_sep)
  moreover have "b64url_decode ?s = toy_signature (toy_input head payload)"
    by (rule b64url_decode_encode [OF small])
  moreover have "toy_sign (JObj head) (JObj payload) = ?h @ 46 # ?p @ 46 # ?s"
    by (simp add: toy_sign_def toy_input_def toy_signature_def Let_def del: dumps.simps)
  moreover have "?h @ 46 # ?p = toy_input head payload" by (simp add: toy_input_def del: dumps.simps)
  moreover have "toy_signature i \<noteq> []" for i by (simp add: toy_signature_def)
  ultimately show ?thesis
    using len loads_printed [OF assms(1,2)] loads_printed [OF assms(3,4)]
    by (simp add: parse_def MAX_JWT_LENGTH_def del: dumps.simps)
qed

lemma toy_jwk_pem: "jwk_to_pem toy_crypto toy_jwk = Inr (S ''PEM'')"
proof -
  have "b64url_decode (b64url_encode (replicate n x)) = replicate n x" if "x < 256" for n x
    using that by (intro b64url_decode_encode) (auto simp: list_all_iff)
  then show ?thesis
    by (simp add: jwk_to_pem_def toy_jwk_def get_member_def toy_crypto_def P256_COORDINATE_BYTES_def)
qed

lemma from_bytes_last: "int_from_bytes (replicate n 0 @ [x]) = x"
proof -
  have "foldl (\<lambda>n b. n * 256 + b) 0 (replicate n 0) = (0::nat)" by (induction n) simp_all
  then show ?thesis by (simp add: int_from_bytes_def)
qed

text \<open>The toy signature over a token verifies under the toy key, and under no other text.\<close>

lemma toy_signed:
  assumes "py_encode inp = Inr (utf8 inp)"
  shows "signed_by toy_crypto inp (toy_signature inp) (S ''PEM'')"
proof -
  have "take 32 (toy_signature inp) = replicate 31 0 @ [checksum (utf8 (S ''PEM''))]"
    "drop 32 (toy_signature inp) = replicate 31 0 @ [checksum (utf8 inp)]"
    by (simp_all add: toy_signature_def)
  moreover have "list_all (\<lambda>c. c < 128) (S ''PEM'')" by (simp add: S_def)
  then have "py_encode (S ''PEM'') = Inr (utf8 (S ''PEM''))" by (simp add: ascii_encodable)
  moreover have "length (toy_signature inp) = 64" by (simp add: toy_signature_def)
  ultimately show ?thesis
    using assms checksum_less by (simp add: signed_by_def toy_crypto_def from_bytes_last)
qed

lemma toy_input_encodes:
  assumes "json_ok (JObj head)" and "json_ok (JObj payload)"
  shows "py_encode (toy_input head payload) = Inr (utf8 (toy_input head payload))"
proof -
  have "list_all (\<lambda>c. c < 128) (b64url_encode (utf8 (dumps (JObj ms))))" if "json_ok (JObj ms)" for ms
    using b64url_encode_chars [of "dumps (JObj ms)"] visible_ascii [OF dumps_visible [OF that]]
    by (auto simp: utf8_ascii list_all_iff simp del: dumps.simps)
  with assms show ?thesis
    unfolding toy_input_def by (intro conjunct1 [OF ascii_encodable]) (simp del: dumps.simps json_ok.simps)
qed

lemma length_str_text: "length (str_text s) \<le> 12 * length s + 2"
proof -
  have "length (esc_char c) \<le> 12" for c by (simp add: esc_char_def hex4_def)
  then have "length (concat (map esc_char s)) \<le> 12 * length s"
    by (induction s) (auto intro: add_mono)
  then show ?thesis by (simp add: str_text_def)
qed

lemma payload_ok:
  assumes "str_ok c" and "length c \<le> 64"
  shows "json_ok (JObj [(S ''jti'', JStr c)])" "length (dumps (JObj [(S ''jti'', JStr c)])) \<le> 1000"
  using length_str_text [of c] length_str_text [of "S ''jti''"] assms
  by simp_all

lemma heads_ok:
  "json_ok (JObj [(S ''alg'', JStr (S ''ES256''))])" "json_ok (JObj [(S ''alg'', JStr (S ''ES256'')), (S ''jwk'', JObj toy_jwk)])"
  "length (dumps (JObj [(S ''alg'', JStr (S ''ES256''))])) \<le> 3000"
  "length (dumps (JObj [(S ''alg'', JStr (S ''ES256'')), (S ''jwk'', JObj toy_jwk)])) \<le> 3000"
proof -
  have small: "length (str_text (S s)) \<le> 12 * length s + 2" for s
    using length_str_text [of "S s"] by simp
  have point: "str_ok (b64url_encode (replicate n x)) \<and> length (str_text (b64url_encode (replicate n x))) \<le> 24 * n + 2"
    if "x < 256" for n x
  proof -
    have "list_all (\<lambda>c. c < 1114112 \<and> \<not> is_surrogate c) (b64url_encode (replicate n x))"
      using b64url_encode_chars [of "replicate n x"] that
      by (auto simp: list_all_iff is_surrogate_def)
    then show ?thesis
      using length_str_text [of "b64url_encode (replicate n x)"] length_b64url_encode [of "replicate n x"]
      by (auto intro: str_ok_no_surrogates)
  qed
  show "json_ok (JObj [(S ''alg'', JStr (S ''ES256''))])"
    "json_ok (JObj [(S ''alg'', JStr (S ''ES256'')), (S ''jwk'', JObj toy_jwk)])"
    using point [of 1 32] point [of 2 32] by (simp_all add: toy_jwk_def)
  show "length (dumps (JObj [(S ''alg'', JStr (S ''ES256''))])) \<le> 3000"
    using small [of "''alg''"] small [of "''ES256''"] by simp
  show "length (dumps (JObj [(S ''alg'', JStr (S ''ES256'')), (S ''jwk'', JObj toy_jwk)])) \<le> 3000"
    using small [of "''alg''"] small [of "''ES256''"] small [of "''jwk''"] small [of "''kty''"] small [of "''EC''"]
      small [of "''crv''"] small [of "''P-256''"] small [of "''x''"] small [of "''y''"]
      point [of 1 32] point [of 2 32]
    by (simp add: toy_jwk_def)
qed

lemma toy_refresh_verifies:
  assumes "str_ok c" and "length c \<le> 64" and "c \<noteq> []"
  shows "parse_and_verify_refresh toy_crypto 10 (toy_refresh c) (S ''PEM'') = Inr c"
proof -
  let ?h = "[(S ''alg'', JStr (S ''ES256''))]" and ?p = "[(S ''jti'', JStr c)]"
  have "parse 10 (toy_refresh c) = Inr \<lparr>pj_header = ?h, pj_payload = ?p,
      pj_signing_input = toy_input ?h ?p, pj_signature = toy_signature (toy_input ?h ?p)\<rparr>"
    unfolding toy_refresh_def
    by (rule toy_sign_parses) (use payload_ok [OF assms(1,2)] heads_ok in \<open>simp_all del: dumps.simps\<close>)
  then show ?thesis
    using assms(3) toy_signed [OF toy_input_encodes [OF heads_ok(1) payload_ok(1) [OF assms(1,2)]]]
    by (simp add: parse_and_verify_refresh_def verify_refresh_jwt_eq_Inr get_member_def)
qed

lemma toy_registration_verifies:
  assumes "str_ok c" and "length c \<le> 64" and "c \<noteq> []"
  shows "parse_and_verify_registration toy_crypto 10 (toy_registration c) =
    Inr \<lparr>rr_public_key_pem = S ''PEM'', rr_algorithm = S ''ES256'', rr_challenge = c\<rparr>"
proof -
  let ?h = "[(S ''alg'', JStr (S ''ES256'')), (S ''jwk'', JObj toy_jwk)]" and ?p = "[(S ''jti'', JStr c)]"
  have "parse 10 (toy_registration c) = Inr \<lparr>pj_header = ?h, pj_payload = ?p,
      pj_signing_input = toy_input ?h ?p, pj_signature = toy_signature (toy_input ?h ?p)\<rparr>"
    unfolding toy_registration_def
    by (rule toy_sign_parses) (use payload_ok [OF assms(1,2)] heads_ok in \<open>simp_all add: toy_jwk_def del: dumps.simps\<close>)
  then show ?thesis
    using assms(3) toy_signed [OF toy_input_encodes [OF heads_ok(2) payload_ok(1) [OF assms(1,2)]]]
    by (simp add: parse_and_verify_registration_def verify_registration_jwt_eq_Inr get_member_def toy_jwk_pem)
qed

lemma toy_browser: "honest_browser toy_server (S ''PEM'') toy_registration toy_refresh"
proof -
  have "str_ok c \<and> length c \<le> 64 \<and> c \<noteq> []" if "list_all is_hex_lower c" "length c = 64" for c
    using that by (auto simp: sf_safe_str_ok hex_safe)
  then show ?thesis
    by (simp add: honest_browser_def toy_server_def toy_registration_verifies toy_refresh_verifies)
qed

text \<open>Whatever key it is checked against, an accepted refresh token of the browser proves its challenge.\<close>

lemma toy_refresh_proves:
  assumes "str_ok c" and "length c \<le> 64"
    and "parse_and_verify_refresh toy_crypto 10 (toy_refresh c) pem = Inr j"
  shows "j = c"
proof -
  let ?h = "[(S ''alg'', JStr (S ''ES256''))]" and ?p = "[(S ''jti'', JStr c)]"
  have "parse 10 (toy_refresh c) = Inr \<lparr>pj_header = ?h, pj_payload = ?p,
      pj_signing_input = toy_input ?h ?p, pj_signature = toy_signature (toy_input ?h ?p)\<rparr>"
    unfolding toy_refresh_def
    by (rule toy_sign_parses) (use payload_ok [OF assms(1,2)] heads_ok in \<open>simp_all del: dumps.simps\<close>)
  with assms(3) show ?thesis
    by (simp add: parse_and_verify_refresh_def verify_refresh_jwt_eq_Inr get_member_def)
qed

section \<open>A small world\<close>

text \<open>
  One session: an offer and a registration, a new offer and a new registration, the advertisement of
  the challenge, two refreshes, a revocation. The clock stands still and the \<open>k\<close>-th token is 32 times
  the byte \<open>k\<close>.
\<close>

definition sample_ops :: "mem_store store_ops" where
  "sample_ops = mem_store_ops 10 900 86400"

definition sample_ctx :: request_context where
  "sample_ctx =
     \<lparr>rc_session_id = S ''s1'', rc_user_id = S ''alice'', rc_origin_host_url = S ''https://example.com'',
      rc_headers = Map.empty, rc_cookies = Map.empty, rc_allowed_refresh_initiators = None,
      rc_scope_specification = None\<rparr>"

definition sample_world :: "mem_store world" where
  "sample_world =
     \<lparr>w_store = mem_empty, w_clock = (\<lambda>_. 1000), w_ticks = 0, w_entropy = (\<lambda>n. n div 32),
      w_drawn = 0, w_audit = []\<rparr>"

definition sample_token :: "nat \<Rightarrow> pystr" where
  "sample_token k = hexlify (replicate 32 k)"

definition sample_offer :: "nat \<Rightarrow> pending_registration" where
  "sample_offer k = new_offer sample_ctx (sample_token k) 1000"

definition sample_result :: "nat \<Rightarrow> registration_result" where
  "sample_result k =
     \<lparr>rr_public_key_pem = S ''PEM'', rr_algorithm = S ''ES256'', rr_challenge = sample_token k\<rparr>"

definition sample_binding :: "nat \<Rightarrow> binding" where
  "sample_binding k =
     new_binding sample_ctx (sample_offer k) (sample_result k) 1000 (sample_token (k + 1))
       (sample_token (k + 2)) (sample_token (k + 3))"

definition sample_advertised :: binding where
  "sample_advertised = (sample_binding 4)\<lparr>b_challenge_advertised := True\<rparr>"

definition sample_refreshed :: binding where
  "sample_refreshed = rotated_binding toy_server sample_advertised 1000 (sample_token 8) (sample_token 9)"

definition sample_requests :: "nat \<Rightarrow> request" where
  "sample_requests i =
     [Offer sample_ctx, Register (toy_registration (sample_token 0)) sample_ctx,
      Offer sample_ctx, Register (toy_registration (sample_token 4)) sample_ctx,
      Advertise (sample_binding 4) sample_ctx,
      Refresh (toy_refresh (sample_token 7)) sample_ctx, Refresh (toy_refresh (sample_token 9)) sample_ctx,
      Revoke sample_ctx False] ! (min i 7)"

abbreviation sample_proc :: "nat \<Rightarrow> dbsc_response prog" where
  "sample_proc i \<equiv> serve toy_server (sample_requests i)"

primrec sample_state :: "nat \<Rightarrow> mem_store world" where
  "sample_state 0 = sample_world"
| "sample_state (Suc n) = after sample_ops (sample_proc n) (sample_state n)"

lemma sample_contract: "session_store sample_ops 900 86400"
  unfolding sample_ops_def by (rule mem_meets_contract) simp

lemma sample_valid: "valid_store sample_ops"
  using sample_contract by (rule session_store.axioms)

interpretation sample: session_store sample_ops 900 86400
  by (rule sample_contract)

lemma sample_draw: "draw sample_world k = sample_token k"
proof -
  have "map (w_entropy sample_world) [w_drawn sample_world + 32 * k ..< w_drawn sample_world + 32 * k + 32] =
      replicate 32 k"
    by (rule replicate_eqI) (auto simp: sample_world_def)
  then show ?thesis unfolding draw_def sample_token_def by (rule arg_cong)
qed

lemma sample_clock: "w_clock (sample_state n) = (\<lambda>_. 1000)"
  by (induction n) (simp_all add: after_def exec_clock sample_world_def)

lemma sample_reading [simp]: "reading (sample_state n) i = 1000"
  by (simp add: reading_def sample_clock)

lemma sample_tick [simp]: "tick (sample_state n) i = 1000"
  by (simp only: tick_def sample_reading py_int_numeral)

lemma sample_user [simp]: "rc_user_id sample_ctx = S ''alice''" "rc_session_id sample_ctx = S ''s1''"
  by (simp_all add: sample_ctx_def)

lemma sample_request_cases:
  "sample_requests i \<in> {Offer sample_ctx, Register (toy_registration (sample_token 0)) sample_ctx,
      Register (toy_registration (sample_token 4)) sample_ctx, Advertise (sample_binding 4) sample_ctx,
      Refresh (toy_refresh (sample_token 7)) sample_ctx, Refresh (toy_refresh (sample_token 9)) sample_ctx,
      Revoke sample_ctx False}"
proof -
  have "sample_requests i \<in> set [Offer sample_ctx, Register (toy_registration (sample_token 0)) sample_ctx,
      Offer sample_ctx, Register (toy_registration (sample_token 4)) sample_ctx,
      Advertise (sample_binding 4) sample_ctx,
      Refresh (toy_refresh (sample_token 7)) sample_ctx, Refresh (toy_refresh (sample_token 9)) sample_ctx,
      Revoke sample_ctx False]"
    unfolding sample_requests_def by (rule nth_mem) simp
  then show ?thesis by auto
qed

lemma sample_environment: "environment toy_server sample_requests (sample_state n)"
proof -
  have "rc_user_id (request_ctx (sample_requests i)) = S ''alice''" for i
    using sample_request_cases [of i] by auto
  then show ?thesis
    by (simp add: environment_def toy_server_def toy_crypto_def config_defaults_valid sample_clock time_ok_def)
qed

lemma sample_empty: "empty_store sample_ops (w_store sample_world)"
  by (simp add: empty_store_def sample_ops_def mem_store_ops_def mem_get_binding_def mem_get_pending_def
      mem_live_def sample_world_def mem_empty_def)

lemma sample_token_hex [simp]: "list_all is_hex_lower (sample_token k)" "length (sample_token k) = 64"
    "sample_token k \<noteq> []" "encodable (sample_token k)" "str_ok (sample_token k)"
proof -
  show hex: "list_all is_hex_lower (sample_token k)" and len: "length (sample_token k) = 64"
    by (simp_all add: sample_token_def hexlify_hex)
  then show "sample_token k \<noteq> []" by auto
  show "encodable (sample_token k)" "str_ok (sample_token k)"
    using hex by (simp_all add: sf_safe_encodable sf_safe_str_ok hex_safe)
qed

lemma sample_binding_sound: "sound_binding (sample_binding k)"
  by (simp add: sound_binding_def binding_storable_def sample_binding_def new_binding_valid time_ok_def
      int_ok_small)
    (simp add: new_binding_def sample_result_def sample_offer_def new_offer_def int_ok_small)

lemma sample_sound:
  "pending_storable (sample_offer k)" "sound_binding sample_advertised" "sound_binding sample_refreshed"
proof -
  show offer: "pending_storable (sample_offer k)"
    by (simp add: sample_offer_def new_offer_def pending_storable_def pending_valid_def hex_safe int_ok_small)
  show adv: "sound_binding sample_advertised"
    unfolding sample_advertised_def by (rule advertised_binding_sound [OF sample_binding_sound])
  then have "binding_valid sample_advertised" by (simp add: sound_binding_def binding_storable_def)
  with adv show "sound_binding sample_refreshed"
    using sample_environment [of 0] unfolding sample_refreshed_def
    by (intro rotated_binding_sound) (simp_all add: time_ok_def rotated_binding_valid)
qed

lemma sample_answers:
  "answers toy_server (toy_registration (sample_token k)) sample_ctx (sample_offer k) (sample_result k)"
  using toy_browser by (simp add: answers_def sample_offer_def new_offer_def sample_result_def
      honest_browser_def toy_server_def constant_time_equals_iff)

lemma sample_proves:
  assumes "b_user_id b = S ''alice''" and "b_public_key_pem b = S ''PEM''" and "b_challenge b = sample_token k"
    and "b_challenge_time b = 1000"
  shows "proves toy_server (toy_refresh (sample_token k)) sample_ctx b 1000 []"
  using assms toy_browser
  by (simp add: proves_def session_id_presented_def header_def sample_ctx_def toy_server_def
      honest_browser_def config_defaults_def)

section \<open>What the sequence leaves\<close>

lemma sample_bound:
  "sound_binding b \<Longrightarrow> get_binding sample_ops 1000 sid (put_binding sample_ops 1000 sid b s) = Inr (Some b)"
  by (rule sample.get_put_binding) (simp_all add: sound_binding_def)

lemma sample_cycle:
  fixes w :: "mem_store world"
  assumes reading: "\<And>i. reading w i = 1000" and draw: "\<And>i. draw w i = sample_token (k + i)"
  defines "w1 \<equiv> after sample_ops (build_registration_header_response toy_server sample_ctx) w"
  defines "w2 \<equiv> after sample_ops (register toy_server (toy_registration (sample_token k)) sample_ctx) w1"
  shows "get_pending_registration sample_ops 1000 (S ''s1'') (w_store w1) = Inr (Some (sample_offer k))"
    and "get_binding sample_ops 1000 (S ''s1'') (w_store w2) = Inr (Some (sample_binding k))"
    and "draw w2 i = sample_token (k + 4 + i)"
    and "is_ok (outcome sample_ops (register toy_server (toy_registration (sample_token k)) sample_ctx) w1)"
proof -
  have tick: "tick w i = 1000" for i by (simp only: tick_def reading py_int_numeral)
  have tick1: "tick w1 i = 1000" "reading w1 i = 1000" for i
    unfolding w1_def later_tick [OF offer_completes(4)] later_reading [OF offer_completes(4)] tick reading by simp_all
  have draw1: "draw w1 i = sample_token (k + (1 + i))" for i
    unfolding w1_def offer_completes draw ..
  have "w_store w1 = put_pending_registration sample_ops 1000 (S ''s1'') (sample_offer k) (w_store w)"
    unfolding w1_def offer_completes tick reading draw by (simp add: sample_offer_def)
  then show live: "get_pending_registration sample_ops 1000 (S ''s1'') (w_store w1) = Inr (Some (sample_offer k))"
    by (simp add: sample.get_put_pending sample_sound)
  have "tick w1 1 - p_reg_challenge_time (sample_offer k) \<le> cfg_challenge_ttl_seconds (sv_config toy_server)"
    unfolding tick1 by (simp add: sample_offer_def new_offer_def toy_server_def config_defaults_def)
  note reg = sample.register_completes [OF _ _ sample_answers this, unfolded sample_user tick1, OF live live]
  have "binding_for sample_ctx (sample_offer k) (sample_result k) w1 = sample_binding k"
    unfolding binding_for_def sample_binding_def tick1 draw1 by (simp add: eval_nat_numeral)
  then show "get_binding sample_ops 1000 (S ''s1'') (w_store w2) = Inr (Some (sample_binding k))"
    unfolding w2_def reg by (simp add: sample_bound sample_binding_sound)
  show "draw w2 i = sample_token (k + 4 + i)"
    unfolding w2_def reg draw1 by (simp add: eval_nat_numeral)
  show "is_ok (outcome sample_ops (register toy_server (toy_registration (sample_token k)) sample_ctx) w1)"
    unfolding reg by simp
qed

lemma sample_states:
  "get_binding sample_ops 1000 (S ''s1'') (w_store (sample_state 2)) = Inr (Some (sample_binding 0))"
  "get_binding sample_ops 1000 (S ''s1'') (w_store (sample_state 4)) = Inr (Some (sample_binding 4))"
  "get_binding sample_ops 1000 (S ''s1'') (w_store (sample_state 5)) = Inr (Some sample_advertised)"
  "get_binding sample_ops 1000 (S ''s1'') (w_store (sample_state 6)) = Inr (Some sample_refreshed)"
  "i \<in> {1, 3, 4, 5, 6} \<Longrightarrow> is_ok (outcome sample_ops (sample_proc i) (sample_state i))"
proof -
  have st: "sample_state 2 = after sample_ops (register toy_server (toy_registration (sample_token 0)) sample_ctx)
      (after sample_ops (build_registration_header_response toy_server sample_ctx) sample_world)"
    "sample_state 4 = after sample_ops (register toy_server (toy_registration (sample_token 4)) sample_ctx)
      (after sample_ops (build_registration_header_response toy_server sample_ctx) (sample_state 2))"
    by (simp_all add: eval_nat_numeral sample_requests_def)
  have one: "sample_state 1 = after sample_ops (build_registration_header_response toy_server sample_ctx) sample_world"
    "sample_state 3 = after sample_ops (build_registration_header_response toy_server sample_ctx) (sample_state 2)"
    "sample_state 5 = after sample_ops (advertise_refresh_challenge toy_server (sample_binding 4) sample_ctx) (sample_state 4)"
    "sample_state 6 = after sample_ops (refresh toy_server (toy_refresh (sample_token 7)) sample_ctx) (sample_state 5)"
    by (simp_all add: eval_nat_numeral sample_requests_def)
  note c0 = sample_cycle [of sample_world 0, unfolded st(1) [symmetric]]
  have w0: "reading sample_world i = 1000" "draw sample_world i = sample_token (0 + i)" for i
    using sample_reading [of 0] by (simp_all add: sample_draw)
  show "get_binding sample_ops 1000 (S ''s1'') (w_store (sample_state 2)) = Inr (Some (sample_binding 0))"
    by (rule c0(2)) (rule w0)+
  have d2: "draw (sample_state 2) i = sample_token (4 + i)" for i
    using c0(3) [OF w0] by simp
  note c4 = sample_cycle [of "sample_state 2" 4, unfolded st(2) [symmetric], OF sample_reading d2]
  show bound: "get_binding sample_ops 1000 (S ''s1'') (w_store (sample_state 4)) = Inr (Some (sample_binding 4))"
    by (rule c4(2))
  have d4: "draw (sample_state 4) i = sample_token (8 + i)" for i
    using c4(3) by simp
  have "advertisable toy_server sample_ctx (sample_binding 4) 1000"
    by (simp add: advertisable_def sample_binding_def toy_server_def config_defaults_def)
      (simp add: new_binding_def sample_offer_def new_offer_def)
  note adv = sample.advertise_completes [of "sample_state 4" sample_ctx "sample_binding 4" toy_server,
      unfolded sample_user sample_tick sample_reading, OF bound this]
  show bound5: "get_binding sample_ops 1000 (S ''s1'') (w_store (sample_state 5)) = Inr (Some sample_advertised)"
    unfolding one(3) adv sample_advertised_def [symmetric] by (rule sample_bound [OF sample_sound(2)])
  have d5: "draw (sample_state 5) i = sample_token (8 + i)" for i
    unfolding one(3) adv by (rule d4)
  have p7: "proves toy_server (toy_refresh (sample_token 7)) sample_ctx sample_advertised 1000 []"
    by (rule sample_proves)
      (simp_all add: sample_advertised_def sample_binding_def sample_result_def new_binding_def
        sample_offer_def new_offer_def)
  note ref = sample.refresh_completes [of "sample_state 5" sample_ctx, unfolded sample_user sample_tick sample_reading, OF bound5 bound5 p7]
  show bound6: "get_binding sample_ops 1000 (S ''s1'') (w_store (sample_state 6)) = Inr (Some sample_refreshed)"
    unfolding one(4) ref d5 using sample_bound [OF sample_sound(3)] by (simp add: sample_refreshed_def)
  have p9: "proves toy_server (toy_refresh (sample_token 9)) sample_ctx sample_refreshed 1000 []"
    by (rule sample_proves)
      (simp_all add: sample_refreshed_def sample_advertised_def sample_binding_def sample_result_def
        new_binding_def sample_offer_def new_offer_def)
  note ref2 = sample.refresh_completes [of "sample_state 6" sample_ctx, unfolded sample_user sample_tick sample_reading, OF bound6 bound6 p9]
  have "sample_proc 1 = register toy_server (toy_registration (sample_token 0)) sample_ctx"
    "sample_proc 3 = register toy_server (toy_registration (sample_token 4)) sample_ctx"
    "sample_proc 4 = advertise_refresh_challenge toy_server (sample_binding 4) sample_ctx"
    "sample_proc 5 = refresh toy_server (toy_refresh (sample_token 7)) sample_ctx"
    "sample_proc 6 = refresh toy_server (toy_refresh (sample_token 9)) sample_ctx"
    by (simp_all add: sample_requests_def)
  moreover have "is_ok (outcome sample_ops (register toy_server (toy_registration (sample_token 0)) sample_ctx) (sample_state 1))"
    unfolding one(1) by (rule sample_cycle(4)) (rule w0)+
  moreover have "is_ok (outcome sample_ops (register toy_server (toy_registration (sample_token 4)) sample_ctx) (sample_state 3))"
    unfolding one(2) by (rule sample_cycle(4)) (rule sample_reading, rule d2)
  ultimately show "is_ok (outcome sample_ops (sample_proc i) (sample_state i))" if "i \<in> {1, 3, 4, 5, 6}"
    using that adv(1) ref(1) ref2(1) by auto
qed

section \<open>Its schedule\<close>

text \<open>The first \<open>n\<close> requests one after the other, and then the next one.\<close>

lemma sample_next:
  assumes "system sample_ops toy_server sample_requests sample_world tr Q (sample_state n)" and "Q n = sample_proc n"
  shows "\<exists>evs. system sample_ops toy_server sample_requests sample_world (tr @ map (Pair n) evs)
      (Q(n := halted (outcome sample_ops (sample_proc n) (sample_state n)))) (sample_state (Suc n)) \<and>
    runs (sample_proc n) evs (outcome sample_ops (sample_proc n) (sample_state n))"
  using run_next [OF assms] by (simp add: outcome_def after_def del: fun_upd_apply)

lemma sample_run:
  "\<exists>tr Q. system sample_ops toy_server sample_requests sample_world tr Q (sample_state n) \<and>
     (\<forall>i \<ge> n. Q i = sample_proc i) \<and> (\<forall>u \<in> set tr. fst u < n)"
proof (induction n)
  case 0
  show ?case by (rule exI [of _ "[]"], rule exI [of _ "sample_proc"]) (simp add: gsteps.gdone)
next
  case (Suc n)
  then obtain tr Q where run: "system sample_ops toy_server sample_requests sample_world tr Q (sample_state n)"
    and rest: "\<forall>i \<ge> n. Q i = sample_proc i" and ids: "\<forall>u \<in> set tr. fst u < n"
    by blast
  with sample_next [OF run] obtain evs where
    "system sample_ops toy_server sample_requests sample_world (tr @ map (Pair n) evs)
      (Q(n := halted (outcome sample_ops (sample_proc n) (sample_state n)))) (sample_state (Suc n))"
    by blast
  with rest ids show ?case
    by (intro exI conjI) (assumption, auto simp: less_Suc_eq)
qed

section \<open>Its tokens\<close>

lemma hex_digit_inject: "hex_digit a = hex_digit b \<longleftrightarrow> a = b"
  by (auto simp: hex_digit_def)

lemma sample_token_inject:
  assumes "j < 256" and "k < 256" and "sample_token j = sample_token k"
  shows "j = k"
proof -
  have first: "take 2 (sample_token i) = [hex_digit (i div 16 mod 16), hex_digit (i mod 16)]" for i
  proof -
    have "replicate 32 i = i # replicate 31 i" by (subst replicate_Suc [symmetric]) simp
    then show ?thesis by (simp add: sample_token_def hexlify_def)
  qed
  from assms(3) first [of j] first [of k] have "j div 16 mod 16 = k div 16 mod 16" "j mod 16 = k mod 16"
    by (simp_all add: hex_digit_inject)
  moreover from assms(1,2) have "j div 16 < 16" "k div 16 < 16" by auto
  ultimately show ?thesis by (metis div_mod_eq mod_less)
qed

text \<open>A schedule has at most 23 effects for each request in it.\<close>

lemma schedule_length:
  "\<forall>u \<in> set tr. fst u < n \<Longrightarrow> length tr = (\<Sum>i<n. length (events_of i tr))"
proof (induction tr rule: rev_induct)
  case (snoc u tr)
  obtain j ev where u: "u = (j, ev)" by (cases u)
  have "length (events_of i (tr @ [(j, ev)])) = length (events_of i tr) + (if i = j then 1 else 0)" for i
    by simp
  with snoc u show ?case by (simp only: sum.distrib) simp
qed simp

lemma drawn_length: "length (drawn tr) \<le> length tr"
  by (induction tr rule: rev_induct) (auto split: event.split)

lemma sample_tokens_distinct:
  assumes "system sample_ops toy_server sample_requests sample_world tr Q w'"
    and "\<forall>u \<in> set tr. fst u < 7"
  shows "distinct (drawn tr)"
proof -
  have "length tr \<le> 23 * 7"
    unfolding schedule_length [OF assms(2)]
    using effects_bounded [OF assms(1)] sum_bounded_above [of "{..<7}" "\<lambda>i. length (events_of i tr)" 23] by simp
  then have "length (drawn tr) < 256" using drawn_length [of tr] by simp
  then have "distinct (map sample_token [0..<length (drawn tr)])"
    by (auto simp: distinct_map intro!: inj_onI dest: sample_token_inject [rotated 2])
  with drawn_draws [OF assms(1)] show ?thesis by (metis (no_types, lifting) map_eq_conv sample_draw)
qed

text \<open>The write of a refresh of the sequence, and the proof it was made with.\<close>

lemma sample_refresh_events:
  assumes "runs (sample_proc n) evs (outcome sample_ops (sample_proc n) (sample_state n))"
    and "sample_requests n = Refresh (toy_refresh (sample_token k)) sample_ctx"
    and "is_ok (outcome sample_ops (sample_proc n) (sample_state n))"
  shows "\<exists>a b b' c. evs = a @ EReplace (S ''s1'') b b' (Inr True) # c \<and>
    (\<forall>ev \<in> set c. \<forall>q e r. ev \<noteq> ECommit (S ''s1'') q e r) \<and>
    parse_and_verify_refresh (sv_lib toy_server) (sv_depth toy_server)
      (toy_refresh (sample_token k)) (b_public_key_pem b) = Inr (sample_token k)"
proof -
  from assms(3) obtain resp where "outcome sample_ops (sample_proc n) (sample_state n) = Inr resp"
    by (auto simp: is_ok_iff)
  with assms(1,2) have "runs (refresh_attempts MAX_UPDATE_ATTEMPTS toy_server (toy_refresh (sample_token k)) sample_ctx)
      evs (Inr resp)" by (simp add: refresh_def)
  from refresh_success [OF this] obtain before b t later now ck ch issued where
    pr: "proves toy_server (toy_refresh (sample_token k)) sample_ctx b t later" and
    evs: "evs = (before @ EGetBinding (S ''s1'') (Inr (Some b)) # ENow t # later @
          [ENow now, EToken 32 ck, EToken 32 ch]) @
           EReplace (S ''s1'') b (rotated_binding toy_server b now ck ch) (Inr True) #
           [ELog REFRESHED (S ''DBSC cookie refreshed.'') (rc_user_id sample_ctx), ENow issued]"
    by (auto simp: refreshed_def)
  from pr obtain jti where jti: "parse_and_verify_refresh (sv_lib toy_server) (sv_depth toy_server)
      (toy_refresh (sample_token k)) (b_public_key_pem b) = Inr jti"
    by (auto simp: proves_def)
  then have "jti = sample_token k"
    by (intro toy_refresh_proves [of "sample_token k"]) (simp_all add: toy_server_def)
  with jti have "parse_and_verify_refresh (sv_lib toy_server) (sv_depth toy_server)
      (toy_refresh (sample_token k)) (b_public_key_pem b) = Inr (sample_token k)" by simp
  then show ?thesis using evs by (intro exI conjI) (assumption, simp_all)
qed

lemma sample_refresh_step:
  assumes "system sample_ops toy_server sample_requests sample_world tr Q (sample_state n)" and "Q n = sample_proc n"
    and "sample_requests n = Refresh (toy_refresh (sample_token k)) sample_ctx"
    and "is_ok (outcome sample_ops (sample_proc n) (sample_state n))"
  shows "\<exists>a b b' c r. system sample_ops toy_server sample_requests sample_world
      (tr @ map (Pair n) (a @ EReplace (S ''s1'') b b' (Inr True) # c)) (Q(n := r)) (sample_state (Suc n)) \<and>
    parse_and_verify_refresh (sv_lib toy_server) (sv_depth toy_server)
      (toy_refresh (sample_token k)) (b_public_key_pem b) = Inr (sample_token k)"
  using sample_next [OF assms(1,2)] sample_refresh_events [OF _ assms(3,4)] by metis

lemma sample_refreshes:
  "\<exists>a b0 n0 m b n c tr Q. system sample_ops toy_server sample_requests sample_world tr Q (sample_state 7) \<and>
    (\<forall>u \<in> set tr. fst u < 7) \<and>
    tr = a @ (5, EReplace (S ''s1'') b0 n0 (Inr True)) # m @ (6, EReplace (S ''s1'') b n (Inr True)) # c \<and>
    parse_and_verify_refresh (sv_lib toy_server) (sv_depth toy_server)
      (toy_refresh (sample_token 7)) (b_public_key_pem b0) = Inr (sample_token 7)"
proof -
  have rs: "sample_requests 5 = Refresh (toy_refresh (sample_token 7)) sample_ctx"
    "sample_requests 6 = Refresh (toy_refresh (sample_token 9)) sample_ctx"
    by (simp_all add: sample_requests_def)
  obtain tr Q where run: "system sample_ops toy_server sample_requests sample_world tr Q (sample_state 5)"
    and rest: "\<forall>i \<ge> 5. Q i = sample_proc i" and ids: "\<forall>u \<in> set tr. fst u < 5"
    using sample_run by blast
  from rest have "Q 5 = sample_proc 5" by simp
  from sample_refresh_step [OF run this rs(1) sample_states(5)] obtain a b b' c r where
    run6: "system sample_ops toy_server sample_requests sample_world
      (tr @ map (Pair 5) (a @ EReplace (S ''s1'') b b' (Inr True) # c)) (Q(5 := r)) (sample_state 6)"
    and pr: "parse_and_verify_refresh (sv_lib toy_server) (sv_depth toy_server)
      (toy_refresh (sample_token 7)) (b_public_key_pem b) = Inr (sample_token 7)"
    by auto
  from rest have "(Q(5 := r)) 6 = sample_proc 6" by simp
  from sample_refresh_step [OF run6 this rs(2) sample_states(5)] obtain a2 b2 b2' c2 r2 where
    run7: "system sample_ops toy_server sample_requests sample_world
      ((tr @ map (Pair 5) (a @ EReplace (S ''s1'') b b' (Inr True) # c)) @
        map (Pair 6) (a2 @ EReplace (S ''s1'') b2 b2' (Inr True) # c2)) r2 (sample_state 7)"
    by auto
  let ?tr = "(tr @ map (Pair 5) a) @ (5, EReplace (S ''s1'') b b' (Inr True)) #
    (map (Pair 5) c @ map (Pair 6) a2) @ (6, EReplace (S ''s1'') b2 b2' (Inr True)) # map (Pair 6) c2"
  have "system sample_ops toy_server sample_requests sample_world ?tr r2 (sample_state 7)"
    using run7 by simp
  moreover have "\<forall>u \<in> set ?tr. fst u < 7" using ids by auto
  ultimately show ?thesis using pr by blast
qed

text \<open>A registration of the sequence, as the event of its write.\<close>

lemma sample_register_step:
  assumes "system sample_ops toy_server sample_requests sample_world tr Q (sample_state n)" and "Q n = sample_proc n"
    and "sample_requests n = Register (toy_registration (sample_token k)) sample_ctx"
    and "is_ok (outcome sample_ops (sample_proc n) (sample_state n))"
  shows "\<exists>a q b c r. system sample_ops toy_server sample_requests sample_world
      (tr @ map (Pair n) (a @ ECommit (S ''s1'') q b (Inr True) # c)) (Q(n := r)) (sample_state (Suc n))"
proof -
  from sample_next [OF assms(1,2)] obtain evs where
    run: "system sample_ops toy_server sample_requests sample_world (tr @ map (Pair n) evs)
      (Q(n := halted (outcome sample_ops (sample_proc n) (sample_state n)))) (sample_state (Suc n))"
    and evs: "runs (sample_proc n) evs (outcome sample_ops (sample_proc n) (sample_state n))"
    by blast
  from assms(4) obtain resp where "outcome sample_ops (sample_proc n) (sample_state n) = Inr resp"
    by (auto simp: is_ok_iff)
  with evs assms(3) have "runs (register toy_server (toy_registration (sample_token k)) sample_ctx) evs (Inr resp)"
    by simp
  then obtain q res t now i ck ch t' where
    "evs = [EGetPending (S ''s1'') (Inr (Some q)), ENow t, ENow now, EToken 32 i, EToken 32 ck, EToken 32 ch] @
       ECommit (S ''s1'') q (new_binding sample_ctx q res now i ck ch) (Inr True) #
       [ELog REGISTERED (S ''DBSC session registered.'') (rc_user_id sample_ctx), ENow t']"
    unfolding register_success_iff by auto
  with run show ?thesis by metis
qed

lemma sample_suc: "Suc 1 = 2" "Suc 2 = 3"
  by simp_all

lemma sample_registers:
  "\<exists>a q b m q' b' c tr Q. system sample_ops toy_server sample_requests sample_world tr Q (sample_state 4) \<and>
    tr = a @ (1, ECommit (S ''s1'') q b (Inr True)) # m @ (3, ECommit (S ''s1'') q' b' (Inr True)) # c"
proof -
  have rs: "sample_requests 1 = Register (toy_registration (sample_token 0)) sample_ctx"
    "sample_requests 3 = Register (toy_registration (sample_token 4)) sample_ctx"
    by (simp_all add: sample_requests_def)
  obtain tr Q where run: "system sample_ops toy_server sample_requests sample_world tr Q (sample_state 1)"
    and rest: "\<forall>i \<ge> 1. Q i = sample_proc i"
    using sample_run by blast
  from rest have "Q 1 = sample_proc 1" by simp
  from sample_register_step [OF run this rs(1) sample_states(5)] obtain a q b c r where
    run2: "system sample_ops toy_server sample_requests sample_world
      (tr @ map (Pair 1) (a @ ECommit (S ''s1'') q b (Inr True) # c)) (Q(1 := r)) (sample_state 2)"
    unfolding sample_suc by blast
  from rest have "(Q(1 := r)) 2 = sample_proc 2" by simp
  from sample_next [OF run2 this] obtain es r2 where
    run3: "system sample_ops toy_server sample_requests sample_world
      ((tr @ map (Pair 1) (a @ ECommit (S ''s1'') q b (Inr True) # c)) @ map (Pair 2) es)
      ((Q(1 := r))(2 := r2)) (sample_state 3)"
    unfolding sample_suc by blast
  from rest have "((Q(1 := r))(2 := r2)) 3 = sample_proc 3" by simp
  from sample_register_step [OF run3 this rs(2) sample_states(5)] obtain a2 q2 b2 c2 r3 where
    "system sample_ops toy_server sample_requests sample_world
      (((tr @ map (Pair 1) (a @ ECommit (S ''s1'') q b (Inr True) # c)) @ map (Pair 2) es) @
        map (Pair 3) (a2 @ ECommit (S ''s1'') q2 b2 (Inr True) # c2)) r3 (sample_state 4)"
    by auto
  then have "system sample_ops toy_server sample_requests sample_world
      ((tr @ map (Pair 1) a) @ (1, ECommit (S ''s1'') q b (Inr True)) #
       (map (Pair 1) c @ map (Pair 2) es @ map (Pair 3) a2) @
       (3, ECommit (S ''s1'') q2 b2 (Inr True)) # map (Pair 3) c2) r3 (sample_state 4)"
    by simp
  then show ?thesis by blast
qed

text \<open>The runs of single requests.\<close>

lemma sample_runs:
  assumes "i \<in> {1, 3, 4, 5, 6}"
  shows "\<exists>evs resp. runs (sample_proc i) evs (Inr resp) \<and> list_all reply_ok evs"
proof -
  obtain tr Q where run: "system sample_ops toy_server sample_requests sample_world tr Q (sample_state i)"
    and "\<forall>k \<ge> i. Q k = sample_proc k"
    using sample_run by blast
  then have "Q i = sample_proc i" by simp
  from sample_next [OF run this] obtain evs where
    run': "system sample_ops toy_server sample_requests sample_world (tr @ map (Pair i) evs)
      (Q(i := halted (outcome sample_ops (sample_proc i) (sample_state i)))) (sample_state (Suc i))"
    and evs: "runs (sample_proc i) evs (outcome sample_ops (sample_proc i) (sample_state i))"
    by blast
  from sample.gsteps_reply_ok [OF run'] have "list_all reply_ok evs" by (simp add: list.pred_map o_def)
  with evs sample_states(5) [OF assms] show ?thesis unfolding is_ok_iff by metis
qed

lemma sample_unhurried: "unhurried toy_server 900 86400 sample_world"
  using sample_tick [of 0] sample_reading [of 0] by (simp add: unhurried_def time_ok_def toy_server_def config_defaults_def)

text \<open>The records a run leaves are sound, so that a later server can start from them.\<close>

lemma sample_sound_state: "sound_state sample_ops [] (w_store (sample_state n))"
proof -
  obtain tr Q where run: "system sample_ops toy_server sample_requests sample_world tr Q (sample_state n)"
    using sample_run by blast
  have "environment toy_server sample_requests sample_world" using sample_environment [of 0] by simp
  from run this empty_store_sound [OF sample_empty] have "sound_state sample_ops tr (w_store (sample_state n))"
    by (induction rule: sample.sound_induct) (simp_all add: empty_store_sound sample_empty sample.sound_step)
  then show ?thesis by (simp add: sound_state_def)
qed

text \<open>One request of the sequence, on its own from the state the earlier ones left.\<close>

lemma sample_alone:
  assumes "sample_state m = sample_state (Suc n)"
  shows "\<exists>evs Q. system sample_ops toy_server sample_requests (sample_state n) (map (Pair n) evs) Q (sample_state m) \<and>
     (\<forall>i. i \<noteq> n \<longrightarrow> Q i = sample_proc i) \<and> runs (sample_proc n) evs (outcome sample_ops (sample_proc n) (sample_state n))"
proof -
  have "system sample_ops toy_server sample_requests (sample_state n) [] sample_proc (sample_state n)"
    by (rule gsteps.gdone)
  from run_next [OF this refl, of n] show ?thesis
    unfolding assms sample_state.simps after_def outcome_def
    by (elim exE conjE, intro exI conjI) (simp_all add: fun_upd_apply del: fun_upd_apply, simp_all)
qed

text \<open>From the fourth state on: two deliveries of a seed challenge, with a registration between them.\<close>

definition sample_seeds :: "nat \<Rightarrow> request" where
  "sample_seeds i =
     (if i = 0 then Advertise (sample_binding 4) sample_ctx
      else if i = 1 then Offer sample_ctx
      else if i = 2 then Register (toy_registration (sample_token 8)) sample_ctx
      else Advertise (sample_binding 8) sample_ctx)"

lemma seeds_environment: "environment toy_server sample_seeds (sample_state n)"
  using sample_environment [of n] by (simp add: environment_def sample_seeds_def)

lemma sample_advertisable: "advertisable toy_server sample_ctx (sample_binding k) 1000"
  by (simp add: advertisable_def sample_binding_def toy_server_def config_defaults_def)
    (simp add: new_binding_def sample_offer_def new_offer_def)

lemma sample_seed_delivered:
  assumes "\<And>i. reading w i = 1000"
    and "get_binding sample_ops 1000 (S ''s1'') (w_store w) = Inr (Some (sample_binding k))"
  shows "\<exists>resp. outcome sample_ops (advertise_refresh_challenge toy_server (sample_binding k) sample_ctx) w = Inr resp \<and>
    rs_headers resp \<noteq> []"
proof -
  have "tick w 0 = 1000" by (simp only: tick_def assms(1) py_int_numeral)
  with sample.advertise_completes(1) [of w sample_ctx "sample_binding k" toy_server] assms sample_advertisable
  show ?thesis by (simp add: challenge_headers_def)
qed

lemma sample_draw4: "draw (sample_state 4) i = sample_token (8 + i)"
proof -
  have st: "sample_state 2 = after sample_ops (register toy_server (toy_registration (sample_token 0)) sample_ctx)
      (after sample_ops (build_registration_header_response toy_server sample_ctx) sample_world)"
    "sample_state 4 = after sample_ops (register toy_server (toy_registration (sample_token 4)) sample_ctx)
      (after sample_ops (build_registration_header_response toy_server sample_ctx) (sample_state 2))"
    by (simp_all add: eval_nat_numeral sample_requests_def)
  have "draw (sample_state 2) i = sample_token (4 + i)" for i
    using sample_cycle(3) [of sample_world 0 i] sample_reading [of 0] by (simp add: sample_draw st(1))
  from sample_cycle(3) [OF sample_reading this] show ?thesis by (simp add: st(2))
qed

lemma sample_delivers:
  "\<exists>tr Q w' resp resp'. system sample_ops toy_server sample_seeds (sample_state 4) tr Q w' \<and>
    Q 0 = Return resp \<and> Q 3 = Return resp' \<and> rs_headers resp \<noteq> [] \<and> rs_headers resp' \<noteq> []"
proof -
  let ?P = "\<lambda>i. serve toy_server (sample_seeds i)"
  let ?w0 = "sample_state 4"
  let ?w1 = "after sample_ops (advertise_refresh_challenge toy_server (sample_binding 4) sample_ctx) ?w0"
  let ?w2 = "after sample_ops (build_registration_header_response toy_server sample_ctx) ?w1"
  let ?w3 = "after sample_ops (register toy_server (toy_registration (sample_token 8)) sample_ctx) ?w2"
  have reading: "reading (after sample_ops p w) i = 1000" if "w_clock w = (\<lambda>_. 1000)" for p :: "dbsc_response prog" and w i
    using that by (simp add: reading_def after_def exec_clock)
  have clock: "w_clock (after sample_ops p w) = (\<lambda>_. 1000)" if "w_clock w = (\<lambda>_. 1000)"
    for p :: "dbsc_response prog" and w
    using that by (simp add: after_def exec_clock)
  have "draw ?w1 i = sample_token (8 + i)" for i
    using sample.advertise_completes(3) [of ?w0 sample_ctx "sample_binding 4" toy_server i] sample_states(2)
      sample_advertisable sample_draw4 by simp
  from sample_cycle(2) [OF reading [OF sample_clock] this]
  have bound: "get_binding sample_ops 1000 (S ''s1'') (w_store ?w3) = Inr (Some (sample_binding 8))" .
  obtain resp where resp: "outcome sample_ops (?P 0) ?w0 = Inr resp" "rs_headers resp \<noteq> []"
    using sample_seed_delivered [OF sample_reading sample_states(2)] by (auto simp: sample_seeds_def)
  obtain resp' where resp': "outcome sample_ops (?P 3) ?w3 = Inr resp'" "rs_headers resp' \<noteq> []"
    using sample_seed_delivered [OF reading [OF clock [OF clock [OF sample_clock]]] bound] by (auto simp: sample_seeds_def)
  have step: "\<exists>tr'. system sample_ops toy_server sample_seeds ?w0 tr'
      (Q(i := halted (outcome sample_ops (?P i) w))) (after sample_ops (?P i) w)"
    if "system sample_ops toy_server sample_seeds ?w0 tr Q w" "Q i = ?P i" for tr Q w i
    using run_next [OF that] by (auto simp: outcome_def after_def simp del: fun_upd_apply)
  have w: "after sample_ops (?P 0) ?w0 = ?w1" "after sample_ops (?P 1) ?w1 = ?w2" "after sample_ops (?P 2) ?w2 = ?w3"
    by (simp_all add: sample_seeds_def)
  have "system sample_ops toy_server sample_seeds ?w0 [] ?P ?w0" by (rule gsteps.gdone)
  from step [OF this refl, of 0] obtain tr1 where
    "system sample_ops toy_server sample_seeds ?w0 tr1 (?P(0 := Return resp)) ?w1"
    unfolding resp(1) w halted_def by auto
  from step [OF this, of 1] obtain tr2 q where
    "system sample_ops toy_server sample_seeds ?w0 tr2 (?P(0 := Return resp, 1 := q)) ?w2"
    unfolding w by auto
  from step [OF this, of 2] obtain tr3 q' where
    "system sample_ops toy_server sample_seeds ?w0 tr3 (?P(0 := Return resp, 1 := q, 2 := q')) ?w3"
    unfolding w by auto
  from step [OF this, of 3] obtain tr4 where
    "system sample_ops toy_server sample_seeds ?w0 tr4
      (?P(0 := Return resp, 1 := q, 2 := q', 3 := Return resp')) (after sample_ops (?P 3) ?w3)"
    unfolding resp'(1) halted_def by auto
  moreover have "(?P(0 := Return resp, 1 := q, 2 := q', 3 := Return resp')) 0 = Return resp"
    "(?P(0 := Return resp, 1 := q, 2 := q', 3 := Return resp')) 3 = Return resp'" by simp_all
  ultimately show ?thesis using resp(2) resp'(2) by blast
qed

lemma sample_origin: "is_origin (S ''https://example.com'')"
proof -
  have "host_label (S ''example'')" "host_label (S ''com'')"
    by (simp_all add: host_label_def label_char_def alnum_cls_def in_range_def pystr_eval)
  then have "dotted_labels (S ''example.com'')"
    unfolding dotted_labels_def by (intro exI [of _ "[S ''example'', S ''com'']"]) (simp add: pystr_eval)
  then have "https_host (S ''example.com'') \<and> port_suffix []" by (simp add: https_host_def port_suffix_def)
  moreover have "S ''https://example.com'' = S ''https://'' @ S ''example.com'' @ []" by (simp flip: S_append)
  ultimately show ?thesis unfolding is_origin_iff by blast
qed

lemma sample_storable: "binding_storable (sample_binding k)"
  using sample_binding_sound by (simp add: sound_binding_def)

lemma sample_pending:
  "get_pending_registration sample_ops (reading (sample_state 1) 0) (rc_session_id sample_ctx) (w_store (sample_state 1)) =
     Inr (Some (sample_offer 0))"
proof -
  have "sample_state 1 = after sample_ops (build_registration_header_response toy_server sample_ctx) sample_world"
    by (simp add: sample_requests_def)
  moreover have "reading sample_world i = 1000" "draw sample_world i = sample_token (0 + i)" for i
    using sample_reading [of 0] by (simp_all add: sample_draw)
  ultimately have "get_pending_registration sample_ops 1000 (S ''s1'') (w_store (sample_state 1)) = Inr (Some (sample_offer 0))"
    using sample_cycle(1) [of sample_world 0] by metis
  then show ?thesis by (simp only: sample_reading sample_user)
qed

end
