(* ===== verification/FileStore.thy ===== *)
theory FileStore
  imports Prog Codec "HOL-Library.AList"
begin

text \<open>
  \<open>FileStore\<close> of \<open>examples/demo_server.py\<close>: the store contract over a directory of files, one per
  record, whose names are the SHA-256 digests of the keys. The digest is a parameter. Each record is
  an envelope of its text and its expiry; reading one goes through \<open>json.loads\<close> without a hook.

  The last section shows that this store computes what the in-memory store of theory \<open>Store\<close>
  computes, operation by operation, on the directories its own writes produce.
\<close>

section \<open>\<open>json.loads\<close> without a hook\<close>

text \<open>A repeated member name keeps its first place and its last value.\<close>

definition dict_pairs :: pairs_hook where
  "dict_pairs ps = Some (JObj (foldl (\<lambda>d (k, v). AList.update k v d) [] ps))"

text \<open>
  The tokens before the first character that belongs to none. Containers that nest deeper than the
  interpreter allows raise \<open>RecursionError\<close>, which is no \<open>ValueError\<close>, when they come before any
  other fault of the text.
\<close>

function tokens_read :: "pystr \<Rightarrow> tok list" where
  "tokens_read s =
     (case s of
        [] \<Rightarrow> []
      | c # r \<Rightarrow>
          if json_ws c then tokens_read r
          else (case punct c of
              Some t \<Rightarrow> t # tokens_read r
            | None \<Rightarrow>
                if c = 34 then
                  (case str_body r of None \<Rightarrow> [] | Some (v, r') \<Rightarrow> TStr v # tokens_read r')
                else if bare_char c then
                  (case bare_token (takeWhile bare_char s) of
                     None \<Rightarrow> []
                   | Some j \<Rightarrow> TLit j # tokens_read (dropWhile bare_char s))
                else []))"
  by pat_completeness auto
termination
  by (relation "measure length")
    (auto dest: str_body_length simp: le_imp_less_Suc length_dropWhile_le)

declare tokens_read.simps [simp del]

fun too_deep :: "nat \<Rightarrow> pmode \<Rightarrow> frame list \<Rightarrow> tok list \<Rightarrow> bool" where
  "too_deep depth m st [] = False"
| "too_deep depth m st (t # ts) =
     (case pstep dict_pairs depth m st t of
        Some (m', st') \<Rightarrow> too_deep depth m' st' ts
      | None \<Rightarrow> pstep dict_pairs (length st + 2) m st t \<noteq> None)"

definition py_json_loads :: "nat \<Rightarrow> pystr \<Rightarrow> json result" where
  "py_json_loads depth s =
     (case json_loads_with dict_pairs depth s of
        Some v \<Rightarrow> Inr v
      | None \<Rightarrow>
          if too_deep depth MValue [] (tokens_read s)
          then Inl (Exn RecursionError (S ''maximum recursion depth exceeded''))
          else Inl (Exn ValueError (S ''invalid JSON'')))"

section \<open>Files\<close>

type_synonym disk = "pystr \<rightharpoonup> bytes"

text \<open>\<open>Path.read_text(encoding="utf-8")\<close>: strict UTF-8, and any line end becomes a line feed.\<close>

fun universal_newlines :: "pystr \<Rightarrow> pystr" where
  "universal_newlines (c # d # r) =
     (if c = 13 then (if d = 10 then 10 # universal_newlines r else 10 # universal_newlines (d # r))
      else c # universal_newlines (d # r))"
| "universal_newlines [c] = (if c = 13 then [10] else [c])"
| "universal_newlines [] = []"

definition read_text :: "bytes \<Rightarrow> pystr result" where
  "read_text bs =
     (case utf8_decode bs of
        Some s \<Rightarrow>
          if list_ex is_surrogate s then Inl (Exn ValueError (S ''invalid continuation byte''))
          else Inr (universal_newlines s)
      | None \<Rightarrow> Inl (Exn ValueError (S ''invalid start byte'')))"

text \<open>The object: the digest, the depth JSON may nest to, and the two times to live.\<close>

record file_store =
  fs_digest :: "bytes \<Rightarrow> pystr"
  fs_depth :: nat
  fs_challenge_ttl :: int
  fs_session_ttl :: int

definition file_path :: "file_store \<Rightarrow> pystr \<Rightarrow> pystr result" where
  "file_path st key = bind_res (py_encode key) (\<lambda>k. Inr (fs_digest st k @ S ''.json''))"

definition reg_key :: "pystr \<Rightarrow> pystr" where
  "reg_key session_id = S ''reg:'' @ session_id"

definition bind_key :: "pystr \<Rightarrow> pystr" where
  "bind_key session_id = S ''bind:'' @ session_id"

definition envelope_field :: "json \<Rightarrow> string \<Rightarrow> json" where
  "envelope_field envelope name = (case envelope of JObj ms \<Rightarrow> get_member ms name | _ \<Rightarrow> JNull)"

text \<open>\<open>expires < time.time()\<close> compares with the reading itself, fractions of a second included.\<close>

definition file_read :: "file_store \<Rightarrow> rat \<Rightarrow> pystr \<Rightarrow> disk \<Rightarrow> pystr option result" where
  "file_read st now key d = bind_res (file_path st key) (\<lambda>path.
     case d path of
       None \<Rightarrow> Inr None
     | Some bs \<Rightarrow>
         (case bind_res (read_text bs) (py_json_loads (fs_depth st)) of
            Inl e \<Rightarrow>
              if isinstance e ValueError
              then Inl (Exn CorruptStateError (S ''Unreadable store record: '' @ exn_msg e))
              else Inl e
          | Inr envelope \<Rightarrow>
              (case (as_int (envelope_field envelope ''exp''), as_str (envelope_field envelope ''v'')) of
                 (Some expires, Some v) \<Rightarrow> if of_int expires < now then Inr None else Inr (Some v)
               | _ \<Rightarrow> Inl (Exn CorruptStateError
                   (S ''Store record envelope has missing or wrong-typed fields'')))))"

definition envelope_text :: "pystr \<Rightarrow> int \<Rightarrow> pystr" where
  "envelope_text v expires =
     S ''{\"v\": '' @ str_text v @ S '', \"exp\": '' @ py_int_str expires @ S ''}''"

definition file_write ::
  "file_store \<Rightarrow> rat \<Rightarrow> pystr \<Rightarrow> pystr \<Rightarrow> int \<Rightarrow> disk \<Rightarrow> unit result \<times> disk" where
  "file_write st now key v ttl d =
     (case file_path st key of
        Inl e \<Rightarrow> (Inl e, d)
      | Inr path \<Rightarrow> (Inr (), d(path \<mapsto> utf8 (envelope_text v (py_int now + ttl)))))"

definition file_unlink :: "file_store \<Rightarrow> pystr \<Rightarrow> disk \<Rightarrow> unit result \<times> disk" where
  "file_unlink st key d =
     (case file_path st key of Inl e \<Rightarrow> (Inl e, d) | Inr path \<Rightarrow> (Inr (), d(path := None)))"

section \<open>Operations\<close>

definition file_put_pending ::
  "file_store \<Rightarrow> rat \<Rightarrow> pystr \<Rightarrow> pending_registration \<Rightarrow> disk \<Rightarrow> unit result \<times> disk" where
  "file_put_pending st now session_id pending d =
     file_write st now (reg_key session_id) (pending_to_json pending) (fs_challenge_ttl st) d"

definition file_get_pending ::
  "file_store \<Rightarrow> rat \<Rightarrow> pystr \<Rightarrow> disk \<Rightarrow> pending_registration option result" where
  "file_get_pending st now session_id d =
     bind_res (file_read st now (reg_key session_id) d) (\<lambda>raw.
     case raw of
       None \<Rightarrow> Inr None
     | Some r \<Rightarrow> bind_res (pending_from_json (fs_depth st) r) (\<lambda>p. Inr (Some p)))"

definition file_delete_pending :: "file_store \<Rightarrow> pystr \<Rightarrow> disk \<Rightarrow> unit result \<times> disk" where
  "file_delete_pending st session_id d = file_unlink st (reg_key session_id) d"

definition file_put_binding ::
  "file_store \<Rightarrow> rat \<Rightarrow> pystr \<Rightarrow> binding \<Rightarrow> disk \<Rightarrow> unit result \<times> disk" where
  "file_put_binding st now session_id binding d =
     file_write st now (bind_key session_id) (binding_to_json binding) (fs_session_ttl st) d"

definition file_get_binding :: "file_store \<Rightarrow> rat \<Rightarrow> pystr \<Rightarrow> disk \<Rightarrow> binding option result" where
  "file_get_binding st now session_id d =
     bind_res (file_read st now (bind_key session_id) d) (\<lambda>raw.
     case raw of
       None \<Rightarrow> Inr None
     | Some r \<Rightarrow> bind_res (binding_from_json (fs_depth st) r) (\<lambda>b. Inr (Some b)))"

definition file_delete :: "file_store \<Rightarrow> pystr \<Rightarrow> disk \<Rightarrow> unit result \<times> disk" where
  "file_delete st session_id d =
     (case file_unlink st (reg_key session_id) d of
        (Inl e, d1) \<Rightarrow> (Inl e, d1)
      | (Inr _, d1) \<Rightarrow> file_unlink st (bind_key session_id) d1)"

definition file_commit_registration ::
  "file_store \<Rightarrow> rat \<Rightarrow> rat \<Rightarrow> pystr \<Rightarrow> pending_registration \<Rightarrow> binding \<Rightarrow> disk \<Rightarrow>
   bool result \<times> disk" where
  "file_commit_registration st t_live t_put session_id offer binding d =
     (case file_get_pending st t_live session_id d of
        Inl e \<Rightarrow> (Inl e, d)
      | Inr p \<Rightarrow>
          if p \<noteq> Some offer then (Inr False, d)
          else (case file_unlink st (reg_key session_id) d of
              (Inl e, d1) \<Rightarrow> (Inl e, d1)
            | (Inr _, d1) \<Rightarrow>
                (case file_put_binding st t_put session_id binding d1 of
                   (Inl e, d2) \<Rightarrow> (Inl e, d2)
                 | (Inr _, d2) \<Rightarrow> (Inr True, d2))))"

definition file_replace_binding ::
  "file_store \<Rightarrow> rat \<Rightarrow> rat \<Rightarrow> pystr \<Rightarrow> binding \<Rightarrow> binding \<Rightarrow> disk \<Rightarrow> bool result \<times> disk" where
  "file_replace_binding st t_live t_put session_id expected new d =
     (case file_get_binding st t_live session_id d of
        Inl e \<Rightarrow> (Inl e, d)
      | Inr b \<Rightarrow>
          if b \<noteq> Some expected then (Inr False, d)
          else (case file_put_binding st t_put session_id new d of
              (Inl e, d1) \<Rightarrow> (Inl e, d1)
            | (Inr _, d1) \<Rightarrow> (Inr True, d1)))"

text \<open>
  As the operations the server calls. A put or a delete can fail only on a session id without a
  UTF-8 form; the server's theorems over this store ask for ids that have one.
\<close>

definition file_store_ops :: "file_store \<Rightarrow> disk store_ops" where
  "file_store_ops st =
     \<lparr>put_pending_registration = (\<lambda>now sid p d. snd (file_put_pending st now sid p d)),
      get_pending_registration = file_get_pending st,
      delete_pending_registration = (\<lambda>sid d. snd (file_delete_pending st sid d)),
      put_binding = (\<lambda>now sid b d. snd (file_put_binding st now sid b d)),
      get_binding = file_get_binding st,
      delete_session = (\<lambda>sid d. snd (file_delete st sid d)),
      commit_registration = file_commit_registration st,
      replace_binding = file_replace_binding st\<rparr>"

text \<open>
  Whatever is in the directory, a record that can be read is a valid one. A write under a key without a
  UTF-8 form raises in the code and changes nothing here; the session ids of the application are tokens.
\<close>

interpretation files: valid_store "file_store_ops st" for st
  by unfold_locales
    (auto simp: file_store_ops_def file_get_binding_def file_get_pending_def bind_res_eq_Inr
      dest: binding_from_json_valid pending_from_json_valid split: option.splits)

section \<open>Reading back what was written\<close>

lemma universal_newlines_id: "13 \<notin> set s \<Longrightarrow> universal_newlines s = s"
  by (induction s rule: universal_newlines.induct) auto

lemma read_text_ascii:
  assumes "list_all visible s"
  shows "read_text (utf8 s) = Inr s"
proof -
  have ascii: "list_all (\<lambda>c. c < 128) s" "13 \<notin> set s" "\<not> list_ex is_surrogate s"
    using assms by (auto simp: list_all_iff list_ex_iff visible_def is_surrogate_def)
  then have "utf8 s = s"
    by (induction s) (auto simp: utf8_def utf8_char_def)
  with ascii show ?thesis by (simp add: read_text_def utf8_decode_ascii universal_newlines_id)
qed

lemma lex_space [simp]: "lex (32 # r) = lex r"
  by (subst lex.simps) (simp add: json_ws_def)

lemma lexes_envelope:
  assumes "str_ok v" and "int_ok x"
  shows "lex (envelope_text v x) =
    Some [LBrace, TStr (S ''v''), Colon, TStr v, Comma, TStr (S ''exp''), Colon, TLit (JInt x), RBrace]"
proof -
  have name: "lex (34 # S s @ 34 # r) = map_option (\<lambda>ts. TStr (S s) # ts) (lex r)"
    if "str_text (S s) = 34 # S s @ [34]" for s r
    using lex_str_text [of "S s" r] that by simp
  have "str_text (S ''v'') = 34 # S ''v'' @ [34]" "str_text (S ''exp'') = 34 # S ''exp'' @ [34]"
    by code_simp+
  note names = name [OF this(1)] name [OF this(2)]
  have "envelope_text v x =
      123 # (34 # S ''v'' @ 34 # 58 # 32 # str_text v @ 44 # 32 # 34 # S ''exp'' @ 34 # 58 # 32 #
        py_int_str x @ [125])"
    by (simp add: envelope_text_def pystr_eval)
  then show ?thesis
    using assms by (simp add: names lex_str_text lexesD [OF lexes_int])
qed

lemma envelope_reads:
  assumes "str_ok v" and "int_ok x" and "1 \<le> depth"
  shows "py_json_loads depth (envelope_text v x) = Inr (JObj [(S ''v'', JStr v), (S ''exp'', JInt x)])"
  using assms
  by (simp add: py_json_loads_def json_loads_with_def lexes_envelope open_value_def close_object_def
      dict_pairs_def)

lemma envelope_visible: "list_all visible (envelope_text v x)"
  by (simp add: envelope_text_def str_text_visible int_text_visible pystr_eval visible_def)

section \<open>A directory as an in-memory store\<close>

text \<open>
  The record a file holds, live or not, and the two buckets a directory amounts to. The abstraction
  reads the files the way \<open>_read\<close> does.
\<close>

definition file_entry :: "file_store \<Rightarrow> disk \<Rightarrow> pystr \<Rightarrow> (pystr \<times> int) option" where
  "file_entry st d key =
     (case file_path st key of
        Inl e \<Rightarrow> None
      | Inr path \<Rightarrow>
          (case d path of
             None \<Rightarrow> None
           | Some bs \<Rightarrow>
               (case bind_res (read_text bs) (py_json_loads (fs_depth st)) of
                  Inl e \<Rightarrow> None
                | Inr envelope \<Rightarrow>
                    (case (as_int (envelope_field envelope ''exp''), as_str (envelope_field envelope ''v'')) of
                       (Some expires, Some v) \<Rightarrow> Some (v, expires)
                     | _ \<Rightarrow> None))))"

definition mem_of :: "file_store \<Rightarrow> disk \<Rightarrow> mem_store" where
  "mem_of st d =
     \<lparr>ms_reg = (\<lambda>sid. file_entry st d (reg_key sid)), ms_bind = (\<lambda>sid. file_entry st d (bind_key sid))\<rparr>"

text \<open>Every file was written by the store itself.\<close>

definition own_files :: "disk \<Rightarrow> bool" where
  "own_files d \<longleftrightarrow>
     (\<forall>path bs. d path = Some bs \<longrightarrow> (\<exists>v x. bs = utf8 (envelope_text v x) \<and> str_ok v \<and> int_ok x))"

lemma own_files_empty: "own_files Map.empty"
  by (simp add: own_files_def)

lemma read_envelope:
  "str_ok v \<Longrightarrow> int_ok x \<Longrightarrow> 1 \<le> depth \<Longrightarrow>
     bind_res (read_text (utf8 (envelope_text v x))) (py_json_loads depth) =
       Inr (JObj [(S ''v'', JStr v), (S ''exp'', JInt x)])"
  by (simp add: read_text_ascii [OF envelope_visible] envelope_reads)

lemma envelope_fields [simp]:
  "envelope_field (JObj [(S ''v'', JStr v), (S ''exp'', JInt x)]) ''v'' = JStr v"
  "envelope_field (JObj [(S ''v'', JStr v), (S ''exp'', JInt x)]) ''exp'' = JInt x"
  by (simp_all add: envelope_field_def get_member_def)

text \<open>
  A read of the file store is a read of the in-memory store, whose clock only sees whole seconds, at
  the next whole second: a record with expiry \<open>x\<close> is gone for both as soon as the time exceeds \<open>x\<close>.
\<close>

definition next_second :: "rat \<Rightarrow> rat" where
  "next_second t = of_int \<lceil>t\<rceil>"

lemma expired_next_second: "x < py_int (next_second t) \<longleftrightarrow> of_int x < t"
  by (simp add: next_second_def less_ceiling_iff)

lemma encodable_key:
  "encodable sid \<Longrightarrow> file_path st (reg_key sid) = Inr (fs_digest st (utf8 (reg_key sid)) @ S ''.json'')"
  "encodable sid \<Longrightarrow> file_path st (bind_key sid) = Inr (fs_digest st (utf8 (bind_key sid)) @ S ''.json'')"
  by (auto simp: file_path_def py_encode_def encodable_def reg_key_def bind_key_def pystr_eval is_surrogate_def)

lemma file_path_eq_Inr:
  "file_path st key = Inr path \<longleftrightarrow> encodable key \<and> path = fs_digest st (utf8 key) @ S ''.json''"
  by (auto simp: file_path_def py_encode_def encodable_def)

lemma file_path_cases:
  obtains e where "file_path st key = Inl e" | path where "file_path st key = Inr path"
  by (cases "file_path st key") auto

lemma file_read_live:
  assumes "own_files d" and "1 \<le> fs_depth st" and "file_path st key = Inr path"
  shows "file_read st t key d = Inr (mem_live (next_second t) (\<lambda>_. file_entry st d key) sid)"
proof (cases "d path")
  case None
  with assms(3) show ?thesis by (simp add: file_read_def file_entry_def mem_live_def)
next
  case (Some bs)
  with assms(1) obtain v x where "bs = utf8 (envelope_text v x)" "str_ok v" "int_ok x"
    unfolding own_files_def by blast
  with Some assms show ?thesis
    by (simp add: file_read_def file_entry_def mem_live_def read_envelope expired_next_second)
qed

lemma mem_live_cong: "b sid = c sid' \<Longrightarrow> mem_live t b sid = mem_live t c sid'"
  by (simp add: mem_live_def)

text \<open>What a write leaves under each key. The digest has no collision among the keys.\<close>

lemma file_path_inject:
  assumes "inj (fs_digest st)" and "file_path st key = Inr path" and "file_path st key' = Inr path'"
  shows "path' = path \<longleftrightarrow> key' = key"
  using assms(2,3) injD [OF assms(1)] unfolding file_path_eq_Inr
  by (metis append_same_eq utf8_inject)

lemma file_entry_write:
  assumes "inj (fs_digest st)" and "1 \<le> fs_depth st" and "file_path st key = Inr path"
    and "str_ok v" and "int_ok (py_int t + ttl)"
  shows "file_entry st (snd (file_write st t key v ttl d)) key' =
    (if key' = key then Some (v, py_int t + ttl) else file_entry st d key')"
proof (cases "file_path st key'")
  case (Inl e)
  with assms(3) have "key' \<noteq> key" by auto
  with Inl show ?thesis by (simp add: file_entry_def)
next
  case (Inr path')
  with file_path_inject [OF assms(1,3) Inr] assms show ?thesis
    by (simp add: file_entry_def file_write_def read_envelope)
qed

lemma file_entry_unlink:
  assumes "inj (fs_digest st)" and "file_path st key = Inr path"
  shows "file_entry st (snd (file_unlink st key d)) key' =
    (if key' = key then None else file_entry st d key')"
proof (cases "file_path st key'")
  case (Inl e)
  then show ?thesis by (simp add: file_entry_def)
next
  case (Inr path')
  with file_path_inject [OF assms Inr] assms(2) show ?thesis
    by (simp add: file_entry_def file_unlink_def)
qed

lemma own_files_write:
  "own_files d \<Longrightarrow> str_ok v \<Longrightarrow> int_ok (py_int t + ttl) \<Longrightarrow> own_files (snd (file_write st t key v ttl d))"
  by (auto simp: own_files_def file_write_def split: sum.split)

lemma own_files_unlink: "own_files d \<Longrightarrow> own_files (snd (file_unlink st key d))"
  by (auto simp: own_files_def file_unlink_def split: sum.split if_splits)

section \<open>The file store computes what the in-memory store computes\<close>

text \<open>
  Under a digest without collisions, on the directories the store's own writes produce, for session
  ids with a UTF-8 form and for clocks whose expiries JSON integers can hold.
\<close>

definition sound_files :: "file_store \<Rightarrow> bool" where
  "sound_files st \<longleftrightarrow> inj (fs_digest st) \<and> 1 \<le> fs_depth st"

definition storable_time :: "file_store \<Rightarrow> rat \<Rightarrow> bool" where
  "storable_time st t \<longleftrightarrow>
     int_ok (py_int t + fs_challenge_ttl st) \<and> int_ok (py_int t + fs_session_ttl st)"

definition mem_ops_of :: "file_store \<Rightarrow> mem_store store_ops" where
  "mem_ops_of st = mem_store_ops (fs_depth st) (fs_challenge_ttl st) (fs_session_ttl st)"

lemma key_inject [simp]:
  "reg_key a = reg_key b \<longleftrightarrow> a = b" "bind_key a = bind_key b \<longleftrightarrow> a = b"
  "reg_key a \<noteq> bind_key b" "bind_key a \<noteq> reg_key b"
  by (simp_all add: reg_key_def bind_key_def pystr_eval)

lemma record_text_ok: "str_ok (pending_to_json p)" "str_ok (binding_to_json b)"
proof -
  have ok: "list_all visible v \<Longrightarrow> str_ok v" for v
    by (rule str_ok_no_surrogates) (auto simp: list_all_iff visible_def is_surrogate_def)
  have "list_all visible (S ''true'')" "list_all visible (S ''false'')"
    by (simp_all add: pystr_eval visible_def)
  note words = this
  show "str_ok (pending_to_json p)" "str_ok (binding_to_json b)"
    by (rule ok, simp add: pending_to_json_def binding_to_json_def binding_members_def
        str_text_visible int_text_visible words)+
qed

lemma file_get_refines:
  assumes "sound_files st" and "own_files d" and "encodable sid"
  shows "file_get_pending st t sid d = mem_get_pending (fs_depth st) (next_second t) sid (mem_of st d)"
    and "file_get_binding st t sid d = mem_get_binding (fs_depth st) (next_second t) sid (mem_of st d)"
proof -
  from assms(1) have depth: "1 \<le> fs_depth st" by (simp add: sound_files_def)
  note live = file_read_live [OF assms(2) depth encodable_key(1) [OF assms(3)], of t sid]
    file_read_live [OF assms(2) depth encodable_key(2) [OF assms(3)], of t sid]
  show "file_get_pending st t sid d = mem_get_pending (fs_depth st) (next_second t) sid (mem_of st d)"
    by (simp add: file_get_pending_def mem_get_pending_def live mem_of_def mem_live_def)
  show "file_get_binding st t sid d = mem_get_binding (fs_depth st) (next_second t) sid (mem_of st d)"
    by (simp add: file_get_binding_def mem_get_binding_def live mem_of_def mem_live_def)
qed

lemma mem_of_write:
  assumes "sound_files st" and "encodable sid" and "str_ok v" and "int_ok (py_int t + ttl)"
  shows "mem_of st (snd (file_write st t (reg_key sid) v ttl d)) =
      (mem_of st d)\<lparr>ms_reg := (ms_reg (mem_of st d))(sid \<mapsto> (v, py_int t + ttl))\<rparr>"
    and "mem_of st (snd (file_write st t (bind_key sid) v ttl d)) =
      (mem_of st d)\<lparr>ms_bind := (ms_bind (mem_of st d))(sid \<mapsto> (v, py_int t + ttl))\<rparr>"
  using assms encodable_key [OF assms(2), of st]
  by (simp_all add: mem_of_def sound_files_def file_entry_write [where ttl = ttl] fun_eq_iff)

lemma mem_of_unlink:
  assumes "sound_files st" and "encodable sid"
  shows "mem_of st (snd (file_unlink st (reg_key sid) d)) =
      (mem_of st d)\<lparr>ms_reg := (ms_reg (mem_of st d))(sid := None)\<rparr>"
    and "mem_of st (snd (file_unlink st (bind_key sid) d)) =
      (mem_of st d)\<lparr>ms_bind := (ms_bind (mem_of st d))(sid := None)\<rparr>"
  using assms encodable_key [OF assms(2), of st]
  by (simp_all add: mem_of_def sound_files_def file_entry_unlink fun_eq_iff)

lemma file_steps_succeed:
  assumes "encodable sid"
  shows "fst (file_unlink st (reg_key sid) d) = Inr ()" and "fst (file_unlink st (bind_key sid) d) = Inr ()"
    and "fst (file_put_pending st t sid p d) = Inr ()" and "fst (file_put_binding st t sid b d) = Inr ()"
  using encodable_key [OF assms, of st]
  by (simp_all add: file_unlink_def file_put_pending_def file_put_binding_def file_write_def)

lemma file_ops_refine:
  assumes "sound_files st" and "own_files d" and "encodable sid" and "storable_time st t2"
  shows "get_pending_registration (file_store_ops st) t sid d =
      get_pending_registration (mem_ops_of st) (next_second t) sid (mem_of st d)"
    and "get_binding (file_store_ops st) t sid d =
      get_binding (mem_ops_of st) (next_second t) sid (mem_of st d)"
    and "mem_of st (put_pending_registration (file_store_ops st) t2 sid p d) =
      put_pending_registration (mem_ops_of st) t2 sid p (mem_of st d)"
    and "mem_of st (put_binding (file_store_ops st) t2 sid b d) =
      put_binding (mem_ops_of st) t2 sid b (mem_of st d)"
    and "mem_of st (delete_pending_registration (file_store_ops st) sid d) =
      delete_pending_registration (mem_ops_of st) sid (mem_of st d)"
    and "mem_of st (delete_session (file_store_ops st) sid d) =
      delete_session (mem_ops_of st) sid (mem_of st d)"
    and "map_prod id (mem_of st) (commit_registration (file_store_ops st) t t2 sid p b d) =
      commit_registration (mem_ops_of st) (next_second t) t2 sid p b (mem_of st d)"
    and "map_prod id (mem_of st) (replace_binding (file_store_ops st) t t2 sid b b' d) =
      replace_binding (mem_ops_of st) (next_second t) t2 sid b b' (mem_of st d)"
proof -
  have times: "int_ok (py_int t2 + fs_challenge_ttl st)" "int_ok (py_int t2 + fs_session_ttl st)"
    using assms(4) by (simp_all add: storable_time_def)
  note facts = file_store_ops_def mem_ops_of_def mem_store_ops_def mem_put_pending_def
    mem_put_binding_def mem_delete_pending_def mem_delete_def file_put_pending_def file_put_binding_def
    file_delete_pending_def file_delete_def
    mem_of_write [OF assms(1,3) record_text_ok(1) times(1)]
    mem_of_write [OF assms(1,3) record_text_ok(2) times(2)] mem_of_unlink [OF assms(1,3)]
  show "get_pending_registration (file_store_ops st) t sid d =
      get_pending_registration (mem_ops_of st) (next_second t) sid (mem_of st d)"
    "get_binding (file_store_ops st) t sid d =
      get_binding (mem_ops_of st) (next_second t) sid (mem_of st d)"
    by (simp_all add: facts file_get_refines [OF assms(1-3)])
  show "mem_of st (put_pending_registration (file_store_ops st) t2 sid p d) =
      put_pending_registration (mem_ops_of st) t2 sid p (mem_of st d)"
    "mem_of st (put_binding (file_store_ops st) t2 sid b d) =
      put_binding (mem_ops_of st) t2 sid b (mem_of st d)"
    "mem_of st (delete_pending_registration (file_store_ops st) sid d) =
      delete_pending_registration (mem_ops_of st) sid (mem_of st d)"
    by (simp_all add: facts)
  show "mem_of st (delete_session (file_store_ops st) sid d) =
      delete_session (mem_ops_of st) sid (mem_of st d)"
    by (simp add: facts case_prod_unfold file_steps_succeed [OF assms(3)])
  have bind: "mem_of st (snd (file_put_binding st t2 sid b d1)) = mem_put_binding (fs_session_ttl st) t2 sid b (mem_of st d1)" for b d1
    by (simp add: facts)
  show "map_prod id (mem_of st) (commit_registration (file_store_ops st) t t2 sid p b d) =
      commit_registration (mem_ops_of st) (next_second t) t2 sid p b (mem_of st d)"
    by (auto simp: case_prod_unfold file_steps_succeed [OF assms(3)] file_store_ops_def mem_ops_of_def mem_store_ops_def file_commit_registration_def mem_commit_registration_def
        file_get_refines [OF assms(1-3)] mem_get_pending_def bind mem_put_binding_def mem_of_unlink [OF assms(1,3)]
        split: option.split sum.split)
  show "map_prod id (mem_of st) (replace_binding (file_store_ops st) t t2 sid b b' d) =
      replace_binding (mem_ops_of st) (next_second t) t2 sid b b' (mem_of st d)"
    by (auto simp: case_prod_unfold file_steps_succeed [OF assms(3)] file_store_ops_def mem_ops_of_def mem_store_ops_def file_replace_binding_def mem_replace_binding_def
        file_get_refines [OF assms(1-3)] mem_get_binding_def bind mem_put_binding_def
        split: option.split sum.split)
qed

end
