(* ===== verification/FileRuns.thy ===== *)
theory FileRuns
  imports FileStore Flow
begin

text \<open>
  The server over the file store. Every interleaved run over the file store is, effect for effect, a
  run over the in-memory store whose clock shows the next whole second wherever a record is read;
  what the library's theorems say of the in-memory store therefore holds of the directory too.
\<close>

section \<open>The same world, over the in-memory store\<close>

definition as_mem :: "file_store \<Rightarrow> (nat \<Rightarrow> rat) \<Rightarrow> disk world \<Rightarrow> mem_store world" where
  "as_mem st c w =
     \<lparr>w_store = mem_of st (w_store w), w_clock = c, w_ticks = w_ticks w, w_entropy = w_entropy w,
      w_drawn = w_drawn w, w_audit = w_audit w\<rparr>"

text \<open>A clock between the real one and its next whole second.\<close>

definition rounds_up :: "(nat \<Rightarrow> rat) \<Rightarrow> (nat \<Rightarrow> rat) \<Rightarrow> bool" where
  "rounds_up clock c \<longleftrightarrow> (\<forall>k. c k = clock k \<or> c k = next_second (clock k))"

fun event_session :: "event \<Rightarrow> pystr option" where
  "event_session (EPutPending sid p) = Some sid"
| "event_session (EGetPending sid r) = Some sid"
| "event_session (EGetBinding sid r) = Some sid"
| "event_session (EDelete sid) = Some sid"
| "event_session (ECommit sid q b r) = Some sid"
| "event_session (EReplace sid b n r) = Some sid"
| "event_session ev = None"

text \<open>The readings one effect takes, adjusted.\<close>

fun adjusted :: "(nat \<Rightarrow> rat) \<Rightarrow> nat \<Rightarrow> event \<Rightarrow> nat \<Rightarrow> rat" where
  "adjusted clock n (EGetPending sid r) k = next_second (clock k)"
| "adjusted clock n (EGetBinding sid r) k = next_second (clock k)"
| "adjusted clock n (ECommit sid q b r) k = (if k = n then next_second (clock k) else clock k)"
| "adjusted clock n (EReplace sid b b' r) k = (if k = n then next_second (clock k) else clock k)"
| "adjusted clock n ev k = clock k"

lemma adjusted_rounds: "adjusted clock n ev k = clock k \<or> adjusted clock n ev k = next_second (clock k)"
  by (cases ev) auto

lemma as_mem_simps [simp]:
  "w_store (as_mem st c w) = mem_of st (w_store w)" "w_ticks (as_mem st c w) = w_ticks w"
  "w_clock (as_mem st c w) = c"
  "as_mem st c (pass n w) = pass n (as_mem st c w)"
  "as_mem st c (log_entry ev m u w) = log_entry ev m u (as_mem st c w)"
  "token_hex n (as_mem st c w) = (fst (token_hex n w), as_mem st c (snd (token_hex n w)))"
  "reading (as_mem st c w) i = c (w_ticks w + i)" "tick (as_mem st c w) i = py_int (c (w_ticks w + i))"
  by (simp_all add: as_mem_def pass_def log_entry_def token_hex_def reading_def tick_def del: py_int_reading)

lemma as_mem_on_store: "mem_of st (f (w_store w)) = g (mem_of st (w_store w)) \<Longrightarrow>
    as_mem st c (on_store f w) = on_store g (as_mem st c w)"
  by (simp add: as_mem_def on_store_def)

lemma ticks_step: "step so p w = Some (ev, q, w') \<Longrightarrow> w_ticks w \<le> w_ticks w' \<and> w_clock w' = w_clock w"
  by (cases p) (auto simp: Let_def token_hex_def pass_def log_entry_def on_store_def split: prod.splits)

section \<open>One effect\<close>

lemma file_writes_own:
  assumes "sound_files st" and "own_files d" and "encodable sid" and "storable_time st t2"
  shows "own_files (put_pending_registration (file_store_ops st) t2 sid p d)"
    and "own_files (delete_session (file_store_ops st) sid d)"
    and "own_files (snd (commit_registration (file_store_ops st) t t2 sid p b d))"
    and "own_files (snd (replace_binding (file_store_ops st) t t2 sid b b' d))"
proof -
  have put: "own_files (snd (file_put_pending st t2 sid p d1))" "own_files (snd (file_put_binding st t2 sid c d1))"
    if "own_files d1" for p c d1
    using that assms(4)
    by (simp_all add: file_put_pending_def file_put_binding_def own_files_write record_text_ok storable_time_def)
  show "own_files (put_pending_registration (file_store_ops st) t2 sid p d)"
    "own_files (delete_session (file_store_ops st) sid d)"
    "own_files (snd (commit_registration (file_store_ops st) t t2 sid p b d))"
    "own_files (snd (replace_binding (file_store_ops st) t t2 sid b b' d))"
    by (auto simp: file_store_ops_def file_delete_def file_commit_registration_def file_replace_binding_def
        case_prod_unfold put own_files_unlink assms(2) split: sum.split)
qed

lemma step_simulates:
  assumes step: "step (file_store_ops st) p w = Some (ev, q, w')"
    and st: "sound_files st" and own: "own_files (w_store w)"
    and times: "\<And>k. storable_time st (w_clock w k)"
    and sid: "\<And>sid. event_session ev = Some sid \<Longrightarrow> encodable sid"
    and c: "\<And>k. w_ticks w \<le> k \<Longrightarrow> k < w_ticks w' \<Longrightarrow> c k = adjusted (w_clock w) (w_ticks w) ev k"
  shows "step (mem_ops_of st) p (as_mem st c w) = Some (ev, q, as_mem st c w') \<and> own_files (w_store w')"
proof -
  have time: "storable_time st (reading w i)" for i using times by (simp add: reading_def)
  note refines = file_ops_refine [OF st own _ time] and own' = file_writes_own [OF st own _ time]
  show ?thesis
  proof (cases p)
    case (Now k)
    with step c [of "w_ticks w"] own show ?thesis by (auto simp: tick_def reading_def simp del: py_int_reading)
  next
    case (TokenHex n k)
    with step own show ?thesis by (auto simp: Let_def case_prod_unfold)
  next
    case (PutPending s r k)
    with step sid have s: "encodable s" by auto
    have "c (w_ticks w) = reading w 0" using PutPending step c [of "w_ticks w"] by (auto simp: reading_def)
    moreover have "as_mem st c (on_store (put_pending_registration (file_store_ops st) (reading w 0) s r) (pass 1 w)) =
        on_store (put_pending_registration (mem_ops_of st) (reading w 0) s r) (pass 1 (as_mem st c w))"
      using refines(3) [OF s, of 0 r] by (subst as_mem_on_store) simp_all
    ultimately show ?thesis using PutPending step own'(1) [OF s, of 0 r] by auto
  next
    case (GetPending s k)
    with step sid have "encodable s" by (auto simp: Let_def)
    with GetPending step c [of "w_ticks w"] refines(1) own show ?thesis
      by (auto simp: reading_def Let_def)
  next
    case (GetBinding s k)
    with step sid have "encodable s" by (auto simp: Let_def)
    with GetBinding step c [of "w_ticks w"] refines(2) own show ?thesis
      by (auto simp: reading_def Let_def)
  next
    case (DeleteSession s k)
    with step sid have "encodable s" by auto
    with DeleteSession step refines(6) own'(2) show ?thesis
      by (auto intro!: as_mem_on_store [symmetric])
  next
    case (CommitRegistration s r b k)
    let ?c = "commit_registration (file_store_ops st) (reading w 0) (reading w 1) s r b (w_store w)"
    from CommitRegistration step have ev: "ev = ECommit s r b (fst ?c)" "q = k (fst ?c)"
      "w' = on_store (\<lambda>_. snd ?c) (pass 2 w)" by (auto simp: Let_def case_prod_unfold)
    with sid have s: "encodable s" by auto
    have "c (w_ticks w) = next_second (reading w 0)" "c (Suc (w_ticks w)) = reading w 1"
      using c [of "w_ticks w"] c [of "Suc (w_ticks w)"] by (simp_all add: ev reading_def)
    moreover have "as_mem st c (on_store (\<lambda>_. snd ?c) (pass 2 w)) =
        on_store (\<lambda>_. mem_of st (snd ?c)) (pass 2 (as_mem st c w))"
      by (simp add: as_mem_def on_store_def pass_def)
    ultimately show ?thesis
      using refines(7) [OF s, of "reading w 0" 1 r b] own'(3) [OF s, of "reading w 0" 1 r b] CommitRegistration ev
      by (auto simp: Let_def case_prod_unfold prod_eq_iff)
  next
    case (ReplaceBinding s e n k)
    let ?c = "replace_binding (file_store_ops st) (reading w 0) (reading w 1) s e n (w_store w)"
    from ReplaceBinding step have ev: "ev = EReplace s e n (fst ?c)" "q = k (fst ?c)"
      "w' = on_store (\<lambda>_. snd ?c) (pass 2 w)" by (auto simp: Let_def case_prod_unfold)
    with sid have s: "encodable s" by auto
    have "c (w_ticks w) = next_second (reading w 0)" "c (Suc (w_ticks w)) = reading w 1"
      using c [of "w_ticks w"] c [of "Suc (w_ticks w)"] by (simp_all add: ev reading_def)
    moreover have "as_mem st c (on_store (\<lambda>_. snd ?c) (pass 2 w)) =
        on_store (\<lambda>_. mem_of st (snd ?c)) (pass 2 (as_mem st c w))"
      by (simp add: as_mem_def on_store_def pass_def)
    ultimately show ?thesis
      using refines(8) [OF s, of "reading w 0" 1 e n] own'(4) [OF s, of "reading w 0" 1 e n] ReplaceBinding ev
      by (auto simp: Let_def case_prod_unfold prod_eq_iff)
  qed (use step own in auto)
qed

section \<open>Any schedule\<close>

lemma gsteps_simulates:
  assumes "gsteps (file_store_ops st) P w tr Q w'"
    and st: "sound_files st" and times: "\<And>k. storable_time st (w_clock w k)"
    and own: "own_files (w_store w)"
    and sids: "\<And>i ev sid. (i, ev) \<in> set tr \<Longrightarrow> event_session ev = Some sid \<Longrightarrow> encodable sid"
  shows "w_clock w' = w_clock w \<and> w_ticks w \<le> w_ticks w' \<and> own_files (w_store w') \<and>
    (\<exists>a. rounds_up (w_clock w) a \<and>
      (\<forall>c. (\<forall>k < w_ticks w'. c k = a k) \<longrightarrow> gsteps (mem_ops_of st) P (as_mem st c w) tr Q (as_mem st c w')))"
  using assms(1) sids
proof (induction rule: gsteps.induct)
  case gdone
  then show ?case using own by (auto simp: rounds_up_def intro: gsteps.gdone)
next
  case (gnext tr Q w' i ev q w'')
  then obtain a where clock: "w_clock w' = w_clock w" and ticks: "w_ticks w \<le> w_ticks w'"
    and own': "own_files (w_store w')" and a: "rounds_up (w_clock w) a"
    and run: "\<And>c. \<forall>k < w_ticks w'. c k = a k \<Longrightarrow>
      gsteps (mem_ops_of st) P (as_mem st c w) tr Q (as_mem st c w')"
    by fastforce
  have grows: "w_ticks w' \<le> w_ticks w''" "w_clock w'' = w_clock w'"
    using ticks_step [OF gnext.hyps(2)] by auto
  have sid: "encodable sid" if "event_session ev = Some sid" for sid
    using gnext.prems that by auto
  define a' where "a' = (\<lambda>k. if k < w_ticks w' then a k else adjusted (w_clock w') (w_ticks w') ev k)"
  have "rounds_up (w_clock w) a'"
    using a adjusted_rounds clock unfolding rounds_up_def a'_def by auto
  moreover have one: "step (mem_ops_of st) (Q i) (as_mem st c w') = Some (ev, q, as_mem st c w'') \<and> own_files (w_store w'')"
    if "\<forall>k < w_ticks w''. c k = a' k" for c
    using gnext.hyps(2) st own' _ sid
    by (rule step_simulates) (use that times clock in \<open>auto simp: a'_def\<close>)
  moreover have "gsteps (mem_ops_of st) P (as_mem st c w) (tr @ [(i, ev)]) (Q(i := q)) (as_mem st c w'')"
    if "\<forall>k < w_ticks w''. c k = a' k" for c
    using that grows(1) one [OF that] by (intro gsteps.gnext [OF run]) (auto simp: a'_def)
  moreover have "own_files (w_store w'')" using one [of a'] by simp
  moreover have "w_clock w'' = w_clock w" "w_ticks w \<le> w_ticks w''" using clock ticks grows by simp_all
  ultimately show ?case by blast
qed

text \<open>Which sessions a request of the server touches: its own.\<close>

abbreviation stays_in :: "pystr \<Rightarrow> event list \<Rightarrow> 'a prog \<Rightarrow> bool" where
  "stays_in sid h p \<equiv> obeys (\<lambda>_. True) (\<lambda>_ ev. event_session ev \<in> {None, Some sid}) (\<lambda>_ _. True) h p"

lemma issue_stays: "stays_in (rc_session_id ctx) h (issue_attempts n ctx)"
  by (induction n arbitrary: h) (auto simp: flat split: sum.split option.split)

lemma proved_stays: "stays_in (rc_session_id ctx) h (binding_proved_by sv jwt ctx)"
  by (auto simp: binding_proved_by_def flat obeys_bind challenge_matches_def
      split: sum.split option.split)

lemma refresh_stays: "stays_in (rc_session_id ctx) h (refresh_attempts n sv jwt ctx)"
proof (induction n arbitrary: h)
  case (Suc n)
  have "stays_in (rc_session_id ctx) h' (rotation n sv jwt ctx b)" for h' b
    by (auto simp: rotation_def obeys_bind bound_cookie_def Suc.IH [simplified] split: sum.split)
  then show ?case
    unfolding refresh_attempts_Suc obeys_bind
    by (intro obeys_mono [OF proved_stays]) (auto split: sum.splits)
qed (simp add: flat)

lemma serve_stays: "stays_in (rc_session_id (request_ctx r)) [] (serve sv r)"
proof (cases r)
  case (Register jwt ctx)
  then show ?thesis
    by (auto simp: register_code flat obeys_bind bound_cookie_def split: sum.split option.split)
qed (auto simp: build_registration_header_response_def revoke_code torn_down_def flat
    advertise_refresh_challenge_def refresh_def issue_refresh_challenge_def issue_stays [simplified] refresh_stays [simplified]
    split: sum.split)

lemma system_sessions:
  assumes "system so sv rs w tr Q w'" and "(i, ev) \<in> set tr" and "event_session ev = Some sid"
  shows "sid = rc_session_id (request_ctx (rs i))"
proof -
  have "ev \<in> set (events_of i tr)" using assms(2) by (force simp: events_of_def)
  then obtain a b where "events_of i tr = a @ ev # b" by (auto simp: in_set_conv_decomp)
  moreover have "stays_in (rc_session_id (request_ctx (rs i))) [] (serve sv (rs i))" by (rule serve_stays)
  from obeys_gsteps [where P = "\<lambda>i. serve sv (rs i)", OF assms(1) this]
  have "\<forall>a ev b. events_of i tr = a @ ev # b \<longrightarrow> event_session ev \<in> {None, Some (rc_session_id (request_ctx (rs i)))}"
    by blast
  ultimately show ?thesis using assms(3) by fastforce
qed

text \<open>
  The server over the file store: every run is one over the in-memory store, with the same schedule,
  the same replies and answers, and buckets that hold what the files hold.
\<close>

lemma file_system_simulates:
  assumes run: "system (file_store_ops st) sv rs w tr Q w'"
    and "sound_files st" and "\<And>k. storable_time st (w_clock w k)" and "own_files (w_store w)"
    and "\<And>i. encodable (rc_session_id (request_ctx (rs i)))"
  shows "\<exists>c. rounds_up (w_clock w) c \<and>
    system (mem_ops_of st) sv rs (as_mem st c w) tr Q (as_mem st c w') \<and> own_files (w_store w')"
  using gsteps_simulates [OF run assms(2-4)] system_sessions [OF run] assms(5) by metis

section \<open>Keys proved, over the file store\<close>

lemma no_files: "own_files Map.empty" "mem_of st Map.empty = mem_empty"
  by (simp_all add: own_files_def mem_of_def mem_empty_def file_entry_def fun_eq_iff split: sum.split)

lemma mem_contract_of: "sound_files st \<Longrightarrow> session_store (mem_ops_of st) (fs_challenge_ttl st) (fs_session_ttl st)"
  unfolding mem_ops_of_def by (rule mem_meets_contract) (simp add: sound_files_def)

lemma as_mem_environment:
  assumes "environment sv rs w" and "rounds_up (w_clock w) c"
    and "\<And>k. time_ok (py_int (next_second (w_clock w k)))"
  shows "environment sv rs (as_mem st c w)"
  using assms unfolding environment_def rounds_up_def by (simp add: as_mem_def) metis

lemma mem_empty_store: "empty_store (mem_store_ops depth ttl life) mem_empty"
  by (simp add: empty_store_def mem_store_ops_def mem_get_binding_def mem_get_pending_def mem_live_def mem_empty_def)

lemma files_proved:
  assumes run: "system (file_store_ops st) sv rs w tr Q w'" and "sound_files st"
    and env: "environment sv rs w" and times: "\<And>k. storable_time st (w_clock w k)"
    "\<And>k. time_ok (py_int (next_second (w_clock w k)))"
    and "w_store w = Map.empty" and sids: "\<And>i. encodable (rc_session_id (request_ctx (rs i)))"
    and "encodable sid" and found: "get_binding (file_store_ops st) t sid (w_store w') = Inr (Some b)"
  shows "proved sv rs tr sid b"
proof -
  obtain c where c: "rounds_up (w_clock w) c" "own_files (w_store w')"
    and mem: "system (mem_ops_of st) sv rs (as_mem st c w) tr Q (as_mem st c w')"
    using file_system_simulates [OF run assms(2) times(1) _ sids] assms(6) no_files by auto
  have "empty_store (mem_ops_of st) (w_store (as_mem st c w))"
    by (simp add: assms(6) no_files mem_ops_of_def mem_empty_store)
  moreover have "get_binding (mem_ops_of st) (next_second t) sid (w_store (as_mem st c w')) = Inr (Some b)"
    using found file_ops_refine(2) [OF assms(2) c(2) assms(8) times(1)] by simp
  ultimately show ?thesis
    using session_store.bindings_proved [OF mem_contract_of [OF assms(2)] mem
        as_mem_environment [OF env c(1) times(2)]] by blast
qed

section \<open>A record that nests too deep\<close>

lemma brackets_read:
  "lex (replicate n 91) = Some (replicate n LBrack)" "tokens_read (replicate n 91) = replicate n LBrack"
proof -
  have "tokens_read (91 # r) = LBrack # tokens_read r" for r
    by (subst tokens_read.simps) (simp add: json_ws_def punct_def)
  moreover have "tokens_read [] = []" by (subst tokens_read.simps) simp
  ultimately show "tokens_read (replicate n 91) = replicate n LBrack" by (induction n) simp_all
  show "lex (replicate n 91) = Some (replicate n LBrack)" by (induction n) simp_all
qed

lemma brackets_array:
  "length st < depth \<Longrightarrow> depth \<le> length st + n \<Longrightarrow>
     prun dict_pairs depth MArrFirst st (replicate n LBrack) = None \<and>
     too_deep depth MArrFirst st (replicate n LBrack)"
proof (induction n arbitrary: st)
  case (Suc n)
  show ?case
  proof (cases "Suc (length st) < depth")
    case True
    with Suc.IH [of "FArr [] # st"] Suc.prems show ?thesis by (simp add: open_value_def)
  next
    case False
    then show ?thesis by (simp add: open_value_def)
  qed
qed simp

lemma brackets_too_deep:
  "py_json_loads depth (replicate (Suc depth) 91) =
     Inl (Exn RecursionError (S ''maximum recursion depth exceeded''))"
proof (cases depth)
  case 0
  then show ?thesis
    using brackets_read [of "Suc 0"] by (simp add: py_json_loads_def json_loads_with_def open_value_def)
next
  case (Suc d)
  with brackets_array [of "[]" depth depth] show ?thesis
    by (simp add: py_json_loads_def json_loads_with_def brackets_read open_value_def del: replicate.simps)
      (simp add: open_value_def)
qed

lemma deep_record:
  assumes "file_path st (bind_key sid) = Inr path" and "d path = Some (replicate (Suc (fs_depth st)) 91)"
  shows "file_get_binding st t sid d = Inl (Exn RecursionError (S ''maximum recursion depth exceeded''))"
proof -
  have "list_all visible (replicate (Suc (fs_depth st)) 91)" by (simp add: list_all_iff visible_def)
  moreover have "utf8 (replicate n 91) = replicate n 91" for n by (induction n) (simp_all add: utf8_Cons utf8_char_def)
  ultimately have "read_text (replicate (Suc (fs_depth st)) 91) = Inr (replicate (Suc (fs_depth st)) 91)"
    using read_text_ascii by metis
  with assms brackets_too_deep show ?thesis
    by (simp add: file_get_binding_def file_read_def del: replicate.simps)
qed

lemma deep_record_not_revoked:
  assumes "file_path st (bind_key (rc_session_id ctx)) = Inr path"
    and "w_store w path = Some (replicate (Suc (fs_depth st)) 91)"
  shows "outcome (file_store_ops st) (revoke sv ctx et) w =
      Inl (Exn RecursionError (S ''maximum recursion depth exceeded''))"
    and "w_store (after (file_store_ops st) (revoke sv ctx et) w) = w_store w"
  using deep_record [where d = "w_store w", OF assms]
  by (simp_all add: outcome_def after_def revoke_code file_store_ops_def)

end
