(* ===== verification/FileLock.thy ===== *)
theory FileLock
  imports FileStore
begin

text \<open>
  The operations of \<open>FileStore\<close> at the grain of the file system: each access to a file, each look at the
  clock and the lock around every write is a step of its own, reads take no lock, and the operations of
  concurrent requests interleave at every step. The lock makes the writes equivalent to the operations of
  theory \<open>FileStore\<close>, one after the other; the last section says what a read can see meanwhile.
\<close>

section \<open>Operations as steps\<close>

datatype 'a file_prog =
    Finish "'a result"
  | Clock "rat \<Rightarrow> 'a file_prog"
  | ReadFile pystr "bytes option \<Rightarrow> 'a file_prog"
  | ReplaceFile pystr bytes "'a file_prog"
  | UnlinkFile pystr "'a file_prog"
  | Acquire "'a file_prog"
  | Release "'a file_prog"

text \<open>\<open>_read\<close>, \<open>_write\<close> (whose temporary file becomes the record in one step) and \<open>_unlink\<close>.\<close>

definition read_steps ::
  "file_store \<Rightarrow> pystr \<Rightarrow> (pystr option result \<Rightarrow> 'a file_prog) \<Rightarrow> 'a file_prog" where
  "read_steps st key k =
     (case file_path st key of
        Inl e \<Rightarrow> k (Inl e)
      | Inr path \<Rightarrow> ReadFile path (\<lambda>found.
     case found of
       None \<Rightarrow> k (Inr None)
     | Some bs \<Rightarrow>
     (case bind_res (read_text bs) (py_json_loads (fs_depth st)) of
        Inl e \<Rightarrow>
          if isinstance e ValueError
          then k (Inl (Exn CorruptStateError (S ''Unreadable store record: '' @ exn_msg e)))
          else k (Inl e)
      | Inr envelope \<Rightarrow>
          (case (as_int (envelope_field envelope ''exp''), as_str (envelope_field envelope ''v'')) of
             (Some expires, Some v) \<Rightarrow>
               Clock (\<lambda>now. k (if of_int expires < now then Inr None else Inr (Some v)))
           | _ \<Rightarrow> k (Inl (Exn CorruptStateError
               (S ''Store record envelope has missing or wrong-typed fields'')))))))"

definition write_steps ::
  "file_store \<Rightarrow> pystr \<Rightarrow> pystr \<Rightarrow> int \<Rightarrow> (unit result \<Rightarrow> 'a file_prog) \<Rightarrow> 'a file_prog" where
  "write_steps st key v ttl k = Clock (\<lambda>now.
     case file_path st key of
       Inl e \<Rightarrow> k (Inl e)
     | Inr path \<Rightarrow> ReplaceFile path (utf8 (envelope_text v (py_int now + ttl))) (k (Inr ())))"

definition unlink_steps :: "file_store \<Rightarrow> pystr \<Rightarrow> (unit result \<Rightarrow> 'a file_prog) \<Rightarrow> 'a file_prog" where
  "unlink_steps st key k =
     (case file_path st key of Inl e \<Rightarrow> k (Inl e) | Inr path \<Rightarrow> UnlinkFile path (k (Inr ())))"

definition get_pending_steps ::
  "file_store \<Rightarrow> pystr \<Rightarrow> (pending_registration option result \<Rightarrow> 'a file_prog) \<Rightarrow> 'a file_prog" where
  "get_pending_steps st session_id k = read_steps st (reg_key session_id) (\<lambda>read.
     k (bind_res read (\<lambda>raw.
     case raw of
       None \<Rightarrow> Inr None
     | Some r \<Rightarrow> bind_res (pending_from_json (fs_depth st) r) (\<lambda>p. Inr (Some p)))))"

definition get_binding_steps ::
  "file_store \<Rightarrow> pystr \<Rightarrow> (binding option result \<Rightarrow> 'a file_prog) \<Rightarrow> 'a file_prog" where
  "get_binding_steps st session_id k = read_steps st (bind_key session_id) (\<lambda>read.
     k (bind_res read (\<lambda>raw.
     case raw of
       None \<Rightarrow> Inr None
     | Some r \<Rightarrow> bind_res (binding_from_json (fs_depth st) r) (\<lambda>b. Inr (Some b)))))"

definition put_binding_steps ::
  "file_store \<Rightarrow> pystr \<Rightarrow> binding \<Rightarrow> (unit result \<Rightarrow> 'a file_prog) \<Rightarrow> 'a file_prog" where
  "put_binding_steps st session_id binding k =
     write_steps st (bind_key session_id) (binding_to_json binding) (fs_session_ttl st) k"

text \<open>The calls of the store, and what they return.\<close>

datatype file_op =
    OpPutPending pystr pending_registration
  | OpGetPending pystr
  | OpDeletePending pystr
  | OpPutBinding pystr binding
  | OpGetBinding pystr
  | OpDelete pystr
  | OpCommit pystr pending_registration binding
  | OpReplace pystr binding binding

datatype file_reply =
    NoReply
  | PendingReply "pending_registration option"
  | BindingReply "binding option"
  | BoolReply bool

definition after_step :: "unit result \<Rightarrow> (file_reply result \<Rightarrow> 'a file_prog) \<Rightarrow> 'a file_prog \<Rightarrow> 'a file_prog" where
  "after_step r k p = (case r of Inl e \<Rightarrow> k (Inl e) | Inr _ \<Rightarrow> p)"

fun op_body :: "file_store \<Rightarrow> file_op \<Rightarrow> (file_reply result \<Rightarrow> 'a file_prog) \<Rightarrow> 'a file_prog" where
  "op_body st (OpPutPending sid p) k =
     write_steps st (reg_key sid) (pending_to_json p) (fs_challenge_ttl st) (\<lambda>r.
     after_step r k (k (Inr NoReply)))"
| "op_body st (OpGetPending sid) k = get_pending_steps st sid (\<lambda>r. k (map_sum id PendingReply r))"
| "op_body st (OpDeletePending sid) k =
     unlink_steps st (reg_key sid) (\<lambda>r. after_step r k (k (Inr NoReply)))"
| "op_body st (OpPutBinding sid b) k = put_binding_steps st sid b (\<lambda>r. after_step r k (k (Inr NoReply)))"
| "op_body st (OpGetBinding sid) k = get_binding_steps st sid (\<lambda>r. k (map_sum id BindingReply r))"
| "op_body st (OpDelete sid) k =
     unlink_steps st (reg_key sid) (\<lambda>r. after_step r k (
     unlink_steps st (bind_key sid) (\<lambda>r. after_step r k (k (Inr NoReply)))))"
| "op_body st (OpCommit sid offer b) k = get_pending_steps st sid (\<lambda>read.
     case read of
       Inl e \<Rightarrow> k (Inl e)
     | Inr p \<Rightarrow>
         if p \<noteq> Some offer then k (Inr (BoolReply False))
         else unlink_steps st (reg_key sid) (\<lambda>r. after_step r k (
           put_binding_steps st sid b (\<lambda>r. after_step r k (k (Inr (BoolReply True)))))))"
| "op_body st (OpReplace sid expected b) k = get_binding_steps st sid (\<lambda>read.
     case read of
       Inl e \<Rightarrow> k (Inl e)
     | Inr p \<Rightarrow>
         if p \<noteq> Some expected then k (Inr (BoolReply False))
         else put_binding_steps st sid b (\<lambda>r. after_step r k (k (Inr (BoolReply True)))))"

text \<open>\<open>async with self._writes\<close>, around everything but the two reads.\<close>

fun takes_lock :: "file_op \<Rightarrow> bool" where
  "takes_lock (OpGetPending sid) = False"
| "takes_lock (OpGetBinding sid) = False"
| "takes_lock op = True"

definition op_steps :: "file_store \<Rightarrow> file_op \<Rightarrow> file_reply file_prog" where
  "op_steps st op =
     (if takes_lock op then Acquire (op_body st op (\<lambda>r. Release (Finish r))) else op_body st op Finish)"

section \<open>Interleaving\<close>

text \<open>One step of operation \<open>i\<close>, with the clock at \<open>t\<close>, in a directory and a state of the lock.\<close>

fun file_step ::
  "nat \<Rightarrow> 'a file_prog \<Rightarrow> rat \<Rightarrow> disk \<times> nat option \<Rightarrow> ('a file_prog \<times> disk \<times> nat option) option" where
  "file_step i (Finish r) t (d, l) = None"
| "file_step i (Clock k) t (d, l) = Some (k t, d, l)"
| "file_step i (ReadFile path k) t (d, l) = Some (k (d path), d, l)"
| "file_step i (ReplaceFile path bs p) t (d, l) = Some (p, d(path \<mapsto> bs), l)"
| "file_step i (UnlinkFile path p) t (d, l) = Some (p, d(path := None), l)"
| "file_step i (Acquire p) t (d, l) = (if l = None then Some (p, d, Some i) else None)"
| "file_step i (Release p) t (d, l) = Some (p, d, None)"

text \<open>Who moved, and the directory it found.\<close>

inductive file_steps ::
  "(nat \<Rightarrow> 'a file_prog) \<Rightarrow> disk \<Rightarrow> (nat \<times> disk) list \<Rightarrow> (nat \<Rightarrow> 'a file_prog) \<Rightarrow> disk \<Rightarrow> nat option \<Rightarrow> bool"
  for P d where
  fs_done: "file_steps P d [] P d None"
| fs_next: "file_steps P d tr Q d1 l \<Longrightarrow> file_step i (Q i) t (d1, l) = Some (p, d2, l') \<Longrightarrow>
     file_steps P d (tr @ [(i, d1)]) (Q(i := p)) d2 l'"

section \<open>The atomic operations\<close>

fun op_atomic :: "file_store \<Rightarrow> rat \<Rightarrow> rat \<Rightarrow> file_op \<Rightarrow> disk \<Rightarrow> file_reply result \<times> disk" where
  "op_atomic st t t' (OpPutPending sid p) d = map_prod (map_sum id (\<lambda>_. NoReply)) id (file_put_pending st t' sid p d)"
| "op_atomic st t t' (OpGetPending sid) d = (map_sum id PendingReply (file_get_pending st t sid d), d)"
| "op_atomic st t t' (OpDeletePending sid) d = map_prod (map_sum id (\<lambda>_. NoReply)) id (file_delete_pending st sid d)"
| "op_atomic st t t' (OpPutBinding sid b) d = map_prod (map_sum id (\<lambda>_. NoReply)) id (file_put_binding st t' sid b d)"
| "op_atomic st t t' (OpGetBinding sid) d = (map_sum id BindingReply (file_get_binding st t sid d), d)"
| "op_atomic st t t' (OpDelete sid) d = map_prod (map_sum id (\<lambda>_. NoReply)) id (file_delete st sid d)"
| "op_atomic st t t' (OpCommit sid offer b) d =
     map_prod (map_sum id BoolReply) id (file_commit_registration st t t' sid offer b d)"
| "op_atomic st t t' (OpReplace sid expected b) d =
     map_prod (map_sum id BoolReply) id (file_replace_binding st t t' sid expected b d)"

text \<open>How an operation that runs on its own can end, the lock aside.\<close>

primrec completes :: "'a file_prog \<Rightarrow> disk \<Rightarrow> 'a result \<times> disk \<Rightarrow> bool" where
  "completes (Finish r) d u \<longleftrightarrow> u = (r, d)"
| "completes (Clock k) d u \<longleftrightarrow> (\<exists>t. completes (k t) d u)"
| "completes (ReadFile path k) d u \<longleftrightarrow> completes (k (d path)) d u"
| "completes (ReplaceFile path bs p) d u \<longleftrightarrow> completes p (d(path \<mapsto> bs)) u"
| "completes (UnlinkFile path p) d u \<longleftrightarrow> completes p (d(path := None)) u"
| "completes (Acquire p) d u \<longleftrightarrow> completes p d u"
| "completes (Release p) d u \<longleftrightarrow> completes p d u"

lemma completes_read:
  "completes (read_steps st key k) d u \<longleftrightarrow> (\<exists>t. completes (k (file_read st t key d)) d u)"
  by (auto simp: read_steps_def file_read_def split: sum.split option.split)

lemma completes_write:
  "completes (write_steps st key v ttl k) d u \<longleftrightarrow>
     (\<exists>t. completes (k (fst (file_write st t key v ttl d))) (snd (file_write st t key v ttl d)) u)"
  by (auto simp: write_steps_def file_write_def split: sum.split)

lemma completes_unlink:
  "completes (unlink_steps st key k) d u \<longleftrightarrow>
     completes (k (fst (file_unlink st key d))) (snd (file_unlink st key d)) u"
  by (simp add: unlink_steps_def file_unlink_def split: sum.split)

lemma completes_after: "completes (after_step r k p) d u \<longleftrightarrow>
    (case r of Inl e \<Rightarrow> completes (k (Inl e)) d u | Inr _ \<Rightarrow> completes p d u)"
  by (simp add: after_step_def split: sum.split)

lemma completes_get:
  "completes (get_pending_steps st sid k1) d u \<longleftrightarrow> (\<exists>t. completes (k1 (file_get_pending st t sid d)) d u)"
  "completes (get_binding_steps st sid k2) d u \<longleftrightarrow> (\<exists>t. completes (k2 (file_get_binding st t sid d)) d u)"
  by (simp_all add: get_pending_steps_def get_binding_steps_def completes_read file_get_pending_def file_get_binding_def)

lemma completes_put:
  "completes (put_binding_steps st sid b k) d u \<longleftrightarrow>
     (\<exists>t. completes (k (fst (file_put_binding st t sid b d))) (snd (file_put_binding st t sid b d)) u)"
  by (simp add: put_binding_steps_def completes_write file_put_binding_def)

lemmas completes_parts = completes_write completes_unlink completes_after completes_get completes_put

lemma op_completes:
  assumes "\<And>r d. completes (k r) d u \<longleftrightarrow> u = (r, d)" and "completes (op_body st op k) d u"
  shows "\<exists>t t'. op_atomic st t t' op d = u"
proof -
  have reply: "completes (after_step r k (k (Inr NoReply))) d u \<longleftrightarrow> u = (map_sum id (\<lambda>_. NoReply) r, d)" for r d
    by (cases r) (simp_all add: completes_after assms(1))
  note atomic = map_prod_def case_prod_unfold
  show ?thesis
proof (cases op)
  case (OpPutPending sid p)
  with assms(2) show ?thesis
    by (auto simp: completes_write reply file_put_pending_def atomic)
next
  case (OpPutBinding sid b)
  with assms(2) show ?thesis by (auto simp: completes_put reply atomic)
next
  case (OpDelete sid)
  with assms(2) show ?thesis
    by (auto simp: completes_unlink completes_after [of _ k "unlink_steps st (bind_key sid) _"] reply assms(1)
        file_delete_def atomic split: sum.splits)
next
  case (OpCommit sid offer b)
  with assms(2) obtain t where "completes (case file_get_pending st t sid d of
      Inl e \<Rightarrow> k (Inl e)
    | Inr p \<Rightarrow> if p \<noteq> Some offer then k (Inr (BoolReply False))
        else unlink_steps st (reg_key sid) (\<lambda>r. after_step r k (
          put_binding_steps st sid b (\<lambda>r. after_step r k (k (Inr (BoolReply True))))))) d u"
    by (auto simp: completes_get)
  then have "\<exists>t'. op_atomic st t t' op d = u"
    by (auto simp: OpCommit completes_parts assms(1) file_commit_registration_def case_prod_unfold
        split: sum.splits if_splits)
  then show ?thesis by blast
next
  case (OpReplace sid expected b)
  with assms(2) obtain t where "completes (case file_get_binding st t sid d of
      Inl e \<Rightarrow> k (Inl e)
    | Inr p \<Rightarrow> if p \<noteq> Some expected then k (Inr (BoolReply False))
        else put_binding_steps st sid b (\<lambda>r. after_step r k (k (Inr (BoolReply True))))) d u"
    by (auto simp: completes_get)
  then have "\<exists>t'. op_atomic st t t' op d = u"
    by (auto simp: OpReplace completes_parts assms(1) file_replace_binding_def case_prod_unfold
        split: sum.splits if_splits)
  then show ?thesis by blast
qed (use assms(2) in \<open>auto simp: completes_unlink completes_get reply assms(1) file_delete_pending_def atomic\<close>)
qed

section \<open>What the others can see\<close>

text \<open>Every directory an operation leaves on its way, if nobody else writes.\<close>

primrec along :: "(disk \<Rightarrow> bool) \<Rightarrow> 'a file_prog \<Rightarrow> disk \<Rightarrow> bool" where
  "along R (Finish r) d \<longleftrightarrow> R d"
| "along R (Clock k) d \<longleftrightarrow> R d \<and> (\<forall>t. along R (k t) d)"
| "along R (ReadFile path k) d \<longleftrightarrow> R d \<and> along R (k (d path)) d"
| "along R (ReplaceFile path bs p) d \<longleftrightarrow> R d \<and> along R p (d(path \<mapsto> bs))"
| "along R (UnlinkFile path p) d \<longleftrightarrow> R d \<and> along R p (d(path := None))"
| "along R (Acquire p) d \<longleftrightarrow> R d \<and> along R p d"
| "along R (Release p) d \<longleftrightarrow> R d \<and> along R p d"

lemma along_now: "along R p d \<Longrightarrow> R d"
  by (cases p) simp_all

text \<open>
  The directory before the operation, the one after it, and the one between the two effects of a commit
  or a deletion, where the offer is gone already.
\<close>

fun halfway :: "file_store \<Rightarrow> file_op \<Rightarrow> disk \<Rightarrow> disk \<Rightarrow> bool" where
  "halfway st (OpDelete sid) d d1 \<longleftrightarrow> d1 = snd (file_unlink st (reg_key sid) d)"
| "halfway st (OpCommit sid offer b) d d1 \<longleftrightarrow>
     (\<exists>t. file_get_pending st t sid d = Inr (Some offer)) \<and> d1 = snd (file_unlink st (reg_key sid) d)"
| "halfway st op d d1 \<longleftrightarrow> False"

definition seen :: "file_store \<Rightarrow> file_op \<Rightarrow> disk \<Rightarrow> disk \<Rightarrow> bool" where
  "seen st op d d1 \<longleftrightarrow>
     d1 = d \<or> (\<exists>t t'. snd (op_atomic st t t' op d) = d1) \<or> halfway st op d d1"

lemma along_read:
  "R d \<Longrightarrow> (\<And>t. along R (k (file_read st t key d)) d) \<Longrightarrow> along R (read_steps st key k) d"
proof -
  assume now: "R d" and rest: "along R (k (file_read st t key d)) d" for t
  show ?thesis
    using now rest [of 0] rest
    by (auto simp: read_steps_def file_read_def if_distrib [of k] if_distrib [of Inl] split: sum.split option.split
        split del: if_split)
qed

lemma along_write:
  "R d \<Longrightarrow> (\<And>t. along R (k (fst (file_write st t key v ttl d))) (snd (file_write st t key v ttl d))) \<Longrightarrow>
     along R (write_steps st key v ttl k) d"
  by (auto simp: write_steps_def file_write_def split: sum.splits)

lemma along_unlink:
  "R d \<Longrightarrow> along R (k (fst (file_unlink st key d))) (snd (file_unlink st key d)) \<Longrightarrow>
     along R (unlink_steps st key k) d"
  by (auto simp: unlink_steps_def file_unlink_def split: sum.splits)

lemma along_get:
  "R d \<Longrightarrow> (\<And>t. along R (k1 (file_get_pending st t sid d)) d) \<Longrightarrow> along R (get_pending_steps st sid k1) d"
  "R d \<Longrightarrow> (\<And>t. along R (k2 (file_get_binding st t sid d)) d) \<Longrightarrow> along R (get_binding_steps st sid k2) d"
  by (simp_all add: get_pending_steps_def get_binding_steps_def along_read file_get_pending_def file_get_binding_def)

lemma along_put:
  "R d \<Longrightarrow> (\<And>t. along R (k (fst (file_put_binding st t sid b d))) (snd (file_put_binding st t sid b d))) \<Longrightarrow>
     along R (put_binding_steps st sid b k) d"
  by (simp add: put_binding_steps_def along_write file_put_binding_def)

lemma along_after:
  "along R (after_step r k p) d \<longleftrightarrow> (case r of Inl e \<Rightarrow> along R (k (Inl e)) d | Inr _ \<Rightarrow> along R p d)"
  by (simp add: after_step_def split: sum.split)

lemma op_along:
  assumes "\<And>r d. along R (k r) d \<longleftrightarrow> R d" and "\<And>d1. seen st op d d1 \<Longrightarrow> R d1"
  shows "along R (op_body st op k) d"
proof -
  have now: "R d" using assms(2) by (simp add: seen_def)
  have last: "R (snd (op_atomic st t t' op d))" for t t' using assms(2) by (auto simp: seen_def)
  show ?thesis
  proof (cases op)
    case (OpCommit sid offer b)
    have window: "R (snd (file_unlink st (reg_key sid) d))"
      if "file_get_pending st t sid d = Inr (Some offer)" for t
      using assms(2) OpCommit that by (auto simp: seen_def)
    have put: "R (snd (file_put_binding st t' sid b (snd (file_unlink st (reg_key sid) d))))"
      if "file_get_pending st t sid d = Inr (Some offer)" "fst (file_unlink st (reg_key sid) d) = Inr u" for t t' u
      using last [of t t'] that
      by (auto simp: OpCommit file_commit_registration_def case_prod_unfold split: sum.splits)
    show ?thesis
      unfolding OpCommit
      by (auto simp: along_after assms(1) now window put intro!: along_get along_unlink along_put split: sum.splits)
  next
    case (OpDelete sid)
    have window: "R (snd (file_unlink st (reg_key sid) d))" using assms(2) OpDelete by (auto simp: seen_def)
    show ?thesis
      using last unfolding OpDelete
      by (auto simp: along_after assms(1) now window file_delete_def case_prod_unfold
          intro!: along_unlink split: sum.splits)
  next
    case (OpReplace sid expected b)
    have put: "R (snd (file_put_binding st t' sid b d))" if "file_get_binding st t sid d = Inr (Some expected)" for t t'
      using last [of t t'] that by (auto simp: OpReplace file_replace_binding_def case_prod_unfold split: sum.splits)
    show ?thesis
      unfolding OpReplace
      by (auto simp: along_after assms(1) now put intro!: along_get along_put split: sum.splits)
  qed (use last now in \<open>auto simp: along_after assms(1) file_put_pending_def file_delete_pending_def
      intro!: along_write along_get along_unlink along_put split: sum.splits\<close>)
qed

section \<open>The lock makes the writes one after the other\<close>

text \<open>The operations \<open>ser\<close>, each at once and with what it returned.\<close>

inductive serial ::
  "file_store \<Rightarrow> (nat \<Rightarrow> file_op) \<Rightarrow> disk \<Rightarrow> (nat \<times> file_reply result) list \<Rightarrow> disk \<Rightarrow> bool"
  for st ops d0 where
  ser_done: "serial st ops d0 [] d0"
| ser_next: "serial st ops d0 ser d \<Longrightarrow> op_atomic st t t' (ops i) d = (out, d') \<Longrightarrow>
     serial st ops d0 (ser @ [(i, out)]) d'"

text \<open>The shape of an operation that holds the lock, and of one that reads.\<close>

primrec held :: "'a file_prog \<Rightarrow> bool" where
  "held (Finish r) \<longleftrightarrow> False"
| "held (Clock k) \<longleftrightarrow> (\<forall>t. held (k t))"
| "held (ReadFile path k) \<longleftrightarrow> (\<forall>x. held (k x))"
| "held (ReplaceFile path bs p) \<longleftrightarrow> held p"
| "held (UnlinkFile path p) \<longleftrightarrow> held p"
| "held (Acquire p) \<longleftrightarrow> False"
| "held (Release p) \<longleftrightarrow> (\<exists>r. p = Finish r)"

primrec only_clock :: "'a file_prog \<Rightarrow> bool" where
  "only_clock (Finish r) \<longleftrightarrow> True"
| "only_clock (Clock k) \<longleftrightarrow> (\<forall>t. only_clock (k t))"
| "only_clock (ReadFile path k) \<longleftrightarrow> False"
| "only_clock (ReplaceFile path bs p) \<longleftrightarrow> False"
| "only_clock (UnlinkFile path p) \<longleftrightarrow> False"
| "only_clock (Acquire p) \<longleftrightarrow> False"
| "only_clock (Release p) \<longleftrightarrow> False"

definition reads_once :: "'a file_prog \<Rightarrow> bool" where
  "reads_once p \<longleftrightarrow> (\<exists>r. p = Finish r) \<or> (\<exists>path k. p = ReadFile path k \<and> (\<forall>x. only_clock (k x)))"

lemma held_body:
  assumes "\<And>r. held (k r)"
  shows "held (op_body st op k)"
proof -
  have parts:
    "(\<And>r. held (k1 r)) \<Longrightarrow> held (read_steps st key k1)"
    "(\<And>r. held (k2 r)) \<Longrightarrow> held (write_steps st key v ttl k2)"
    "(\<And>r. held (k2 r)) \<Longrightarrow> held (unlink_steps st key k2)"
    "held p \<Longrightarrow> held (after_step r k p)" for key v ttl k1 k2 r p
    using assms
    by (simp_all add: read_steps_def write_steps_def unlink_steps_def after_step_def split: sum.split option.split)
  show ?thesis
    using assms
    by (cases op)
      (simp_all add: get_pending_steps_def get_binding_steps_def put_binding_steps_def parts split: sum.split)
qed

lemma reads_once_body:
  assumes "\<not> takes_lock op"
  shows "reads_once (op_body st op Finish)"
proof -
  have "reads_once (read_steps st key (\<lambda>r. Finish (f r)))" for key f
    by (auto simp: reads_once_def read_steps_def split: sum.split option.split)
  then show ?thesis
    using assms by (cases op) (simp_all add: get_pending_steps_def get_binding_steps_def)
qed

lemma only_clock_step:
  assumes "only_clock p" and "file_step i p t (d, l) = Some (q, d', l')"
  shows "only_clock q \<and> d' = d \<and> l' = l \<and> (\<forall>u. completes q d1 u \<longrightarrow> completes p d1 u)"
  using assms by (cases p) auto

lemma reads_once_step:
  assumes "reads_once p" and "file_step i p t (d, l) = Some (q, d', l')"
  shows "only_clock q \<and> d' = d \<and> l' = l \<and> (\<forall>u. completes q d u \<longrightarrow> completes p d u)"
  using assms by (auto simp: reads_once_def)

lemma held_step:
  assumes "held p" and "file_step i p t (d, l) = Some (q, d', l')"
  shows "(held q \<and> l' = l \<or> (\<exists>r. q = Finish r) \<and> l' = None \<and> d' = d) \<and>
    (\<forall>u. completes q d' u \<longrightarrow> completes p d u) \<and> (along R p d \<longrightarrow> along R q d')"
  using assms by (cases p) auto

lemma held_can_step: "held p \<Longrightarrow> file_step i p t (d, l) \<noteq> None"
  by (cases p) auto

lemma lock_body:
  assumes "takes_lock op" and "completes (op_body st op (\<lambda>r. Release (Finish r))) d u"
  shows "\<exists>t t'. op_atomic st t t' op d = u"
  using assms(2) by (rule op_completes [rotated]) auto

lemma read_body:
  assumes "completes (op_body st op Finish) d u"
  shows "\<exists>t t'. op_atomic st t t' op d = u"
  using assms by (rule op_completes [rotated]) auto

text \<open>What is true of every operation at every moment.\<close>

definition waiting_or_done ::
  "file_store \<Rightarrow> (nat \<Rightarrow> file_op) \<Rightarrow> (nat \<times> file_reply result) list \<Rightarrow> nat \<Rightarrow> file_reply file_prog \<Rightarrow> bool" where
  "waiting_or_done st ops ser j p \<longleftrightarrow>
     (if j \<in> fst ` set ser then \<exists>r. p = Finish r \<and> (j, r) \<in> set ser else p = op_steps st (ops j))"

definition has_lock ::
  "file_store \<Rightarrow> file_op \<Rightarrow> disk \<Rightarrow> file_reply file_prog \<Rightarrow> disk \<Rightarrow> bool" where
  "has_lock st op ds p d \<longleftrightarrow> takes_lock op \<and> held p \<and> along (seen st op ds) p d \<and>
     (\<forall>u. completes p d u \<longrightarrow> (\<exists>t t'. op_atomic st t t' op ds = u))"

definition reader_at :: "file_store \<Rightarrow> file_op \<Rightarrow> disk set \<Rightarrow> file_reply file_prog \<Rightarrow> bool" where
  "reader_at st op ds p \<longleftrightarrow> p = op_steps st op \<or>
     (\<exists>d \<in> ds. only_clock p \<and> (\<forall>u. completes p d u \<longrightarrow> (\<exists>t t'. op_atomic st t t' op d = u)))"

text \<open>
  The directories on the way: what some first operations of the order made, and what the next one, or
  the one that holds the lock, makes of it.
\<close>

fun next_up :: "(nat \<times> 'a) list \<Rightarrow> nat option \<Rightarrow> nat option" where
  "next_up [] l = l"
| "next_up ((i, r) # ser) l = Some i"

definition momentary ::
  "file_store \<Rightarrow> (nat \<Rightarrow> file_op) \<Rightarrow> disk \<Rightarrow> (nat \<times> file_reply result) list \<Rightarrow> nat option \<Rightarrow> disk \<Rightarrow> bool" where
  "momentary st ops d0 ser l d \<longleftrightarrow>
     (\<exists>ser1 ser2 d1. ser = ser1 @ ser2 \<and> serial st ops d0 ser1 d1 \<and>
        (d = d1 \<or> (\<exists>i. next_up ser2 l = Some i \<and> seen st (ops i) d1 d)))"

definition directories :: "nat \<Rightarrow> (nat \<times> disk) list \<Rightarrow> disk set" where
  "directories j tr = {d. (j, d) \<in> set tr}"

definition lock_inv ::
  "file_store \<Rightarrow> (nat \<Rightarrow> file_op) \<Rightarrow> disk \<Rightarrow> (nat \<times> disk) list \<Rightarrow> (nat \<Rightarrow> file_reply file_prog) \<Rightarrow> disk \<Rightarrow>
   nat option \<Rightarrow> (nat \<times> file_reply result) list \<Rightarrow> disk \<Rightarrow> bool" where
  "lock_inv st ops d0 tr P d l ser ds \<longleftrightarrow>
     serial st ops d0 ser ds \<and> distinct (map fst ser) \<and>
     (case l of None \<Rightarrow> d = ds | Some i \<Rightarrow> i \<notin> fst ` set ser \<and> has_lock st (ops i) ds (P i) d) \<and>
     (\<forall>j. takes_lock (ops j) \<longrightarrow> l \<noteq> Some j \<longrightarrow> waiting_or_done st ops ser j (P j)) \<and>
     (\<forall>j. \<not> takes_lock (ops j) \<longrightarrow> reader_at st (ops j) (directories j tr) (P j)) \<and>
     (\<forall>j \<in> fst ` set ser. takes_lock (ops j)) \<and>
     (\<forall>u \<in> set tr. momentary st ops d0 ser l (snd u))"


lemma momentaryI:
  "serial st ops d0 ser1 d1 \<Longrightarrow> d = d1 \<or> (\<exists>i. next_up ser2 l = Some i \<and> seen st (ops i) d1 d) \<Longrightarrow>
     momentary st ops d0 (ser1 @ ser2) l d"
  unfolding momentary_def by blast

lemma momentary_now:
  assumes "lock_inv st ops d0 tr P d l ser ds"
  shows "momentary st ops d0 ser l d"
proof -
  have "d = ds \<or> (\<exists>i. l = Some i \<and> seen st (ops i) ds d)"
    using assms by (auto simp: lock_inv_def has_lock_def dest: along_now split: option.splits)
  moreover have "serial st ops d0 ser ds" using assms by (simp add: lock_inv_def)
  ultimately show ?thesis using momentaryI [of st ops d0 ser ds d "[]" l] by simp
qed

lemma next_up_lock: "next_up ser None = Some i \<Longrightarrow> next_up ser l = Some i"
  by (cases ser) auto

lemma next_up_snoc: "next_up (ser @ [(i, r)]) l = next_up ser (Some i)"
  by (cases ser) auto

lemma momentary_lock: "momentary st ops d0 ser None d \<Longrightarrow> momentary st ops d0 ser l d"
  unfolding momentary_def using next_up_lock by blast

lemma momentary_unlock: "momentary st ops d0 ser (Some i) d \<Longrightarrow> momentary st ops d0 (ser @ [(i, r)]) None d"
proof -
  assume "momentary st ops d0 ser (Some i) d"
  then obtain ser1 ser2 d1 where "ser = ser1 @ ser2" "serial st ops d0 ser1 d1"
      "d = d1 \<or> (\<exists>j. next_up (ser2 @ [(i, r)]) None = Some j \<and> seen st (ops j) d1 d)"
    unfolding momentary_def next_up_snoc by blast
  then show ?thesis using momentaryI [of st ops d0 ser1 d1 d "ser2 @ [(i, r)]" None] by simp
qed

lemma directories_snoc: "directories j (tr @ [(i, d)]) = directories j tr \<union> (if j = i then {d} else {})"
  by (auto simp: directories_def)

lemma in_served: "i \<in> fst ` X \<longleftrightarrow> (\<exists>r. (i, r) \<in> X)"
  by force

lemma reader_at_mono: "reader_at st op ds p \<Longrightarrow> ds \<subseteq> ds' \<Longrightarrow> reader_at st op ds' p"
  unfolding reader_at_def by blast

lemma reader_step:
  assumes reader_at: "reader_at st op ds p" and op: "\<not> takes_lock op"
    and step: "file_step i p t (d, l) = Some (q, d', l')"
  shows "reader_at st op (insert d ds) q \<and> d' = d \<and> l' = l"
  using reader_at unfolding reader_at_def
proof (elim disjE bexE conjE)
  assume p: "p = op_steps st op"
  then have body: "p = op_body st op Finish" using op by (simp add: op_steps_def)
  have "only_clock q \<and> d' = d \<and> l' = l \<and> (\<forall>u. completes q d u \<longrightarrow> completes p d u)"
    using reads_once_step [OF reads_once_body [OF op, of st]] step body by blast
  then show "(q = op_steps st op \<or> (\<exists>d \<in> insert d ds. only_clock q \<and>
      (\<forall>u. completes q d u \<longrightarrow> (\<exists>t t'. op_atomic st t t' op d = u)))) \<and> d' = d \<and> l' = l"
    using read_body [of st op d] body by blast
next
  fix d1
  assume "d1 \<in> ds" and "only_clock p" and "\<forall>u. completes p d1 u \<longrightarrow> (\<exists>t t'. op_atomic st t t' op d1 = u)"
  then show "(q = op_steps st op \<or> (\<exists>d \<in> insert d ds. only_clock q \<and>
      (\<forall>u. completes q d u \<longrightarrow> (\<exists>t t'. op_atomic st t t' op d = u)))) \<and> d' = d \<and> l' = l"
    using only_clock_step [OF _ step, of d1] by blast
qed

lemma acquired:
  assumes "takes_lock op"
  shows "has_lock st op d (op_body st op (\<lambda>r. Release (Finish r))) d"
  unfolding has_lock_def
proof (intro conjI allI impI)
  show "held (op_body st op (\<lambda>r. Release (Finish r)))" by (simp add: held_body)
  show "along (seen st op d) (op_body st op (\<lambda>r. Release (Finish r))) d" by (rule op_along) simp_all
qed (use assms lock_body in auto)

lemma lock_inv_start: "lock_inv st ops d0 [] (\<lambda>i. op_steps st (ops i)) d0 None [] d0"
  by (simp add: lock_inv_def ser_done waiting_or_done_def reader_at_def)

lemma lock_inv_step:
  assumes inv: "lock_inv st ops d0 tr P d l ser ds" and step: "file_step i (P i) t (d, l) = Some (p, d', l')"
  shows "\<exists>ser' ds'. lock_inv st ops d0 (tr @ [(i, d)]) (P(i := p)) d' l' ser' ds'"
proof -
  have now: "momentary st ops d0 ser l d" using inv by (rule momentary_now)
  have readers: "reader_at st (ops j) (directories j (tr @ [(i, d)])) (P j)" if "\<not> takes_lock (ops j)" for j
    using inv that by (auto simp: lock_inv_def directories_snoc intro: reader_at_mono)
  have found: "\<forall>u \<in> set (tr @ [(i, d)]). momentary st ops d0 ser l (snd u)"
    using inv now by (auto simp: lock_inv_def)
  consider (reader) "\<not> takes_lock (ops i)" | (waiter) "takes_lock (ops i)" "l \<noteq> Some i" | (holder) "l = Some i"
    by blast
  then show ?thesis
  proof cases
    case reader
    have r: "reader_at st (ops i) (insert d (directories i tr)) p \<and> d' = d \<and> l' = l"
      by (rule reader_step [OF _ reader step]) (use inv reader in \<open>simp add: lock_inv_def\<close>)
    have "l \<noteq> Some i" using inv reader by (auto simp: lock_inv_def has_lock_def)
    then have "lock_inv st ops d0 (tr @ [(i, d)]) (P(i := p)) d' l' ser ds"
      using inv r reader readers found
      by (auto simp: lock_inv_def directories_snoc in_served split: option.split)
    then show ?thesis by blast
  next
    case waiter
    then have w: "waiting_or_done st ops ser i (P i)" using inv by (simp add: lock_inv_def)
    then have new: "i \<notin> fst ` set ser" using step unfolding waiting_or_done_def by (cases "i \<in> fst ` set ser") auto
    have "P i = op_steps st (ops i)" using w new by (simp add: waiting_or_done_def)
    then have got: "l = None" "p = op_body st (ops i) (\<lambda>r. Release (Finish r))" "d' = d" "l' = Some i"
      using step waiter by (auto simp: op_steps_def split: if_splits)
    have "lock_inv st ops d0 (tr @ [(i, d)]) (P(i := p)) d' l' ser ds"
      using inv got new waiter readers found momentary_lock [of st ops d0 ser _ "Some i"] acquired [OF waiter(1), of st d]
      by (auto simp: lock_inv_def)
    then show ?thesis by blast
  next
    case holder
    then have has: "has_lock st (ops i) ds (P i) d" and new: "i \<notin> fst ` set ser"
      using inv by (simp_all add: lock_inv_def)
    have moved: "(held p \<and> l' = l \<or> (\<exists>r. p = Finish r) \<and> l' = None \<and> d' = d) \<and>
        (\<forall>u. completes p d' u \<longrightarrow> completes (P i) d u) \<and> along (seen st (ops i) ds) p d'"
      using held_step [OF _ step] has unfolding has_lock_def by blast
    then consider (on) "held p" "l' = l" | (out) r where "p = Finish r" "l' = None" "d' = d" by blast
    then show ?thesis
    proof cases
      case on
      then have "has_lock st (ops i) ds p d'" using has moved unfolding has_lock_def by blast
      then have "lock_inv st ops d0 (tr @ [(i, d)]) (P(i := p)) d' l' ser ds"
        using inv on holder new has readers found by (auto simp: lock_inv_def has_lock_def)
      then show ?thesis by blast
    next
      case out
      then have "completes (P i) d (r, d')" using moved by simp
      then obtain t1 t2 where "op_atomic st t1 t2 (ops i) ds = (r, d')" using has unfolding has_lock_def by blast
      then have ser: "serial st ops d0 (ser @ [(i, r)]) d'" using inv by (auto simp: lock_inv_def intro: ser_next)
      have "lock_inv st ops d0 (tr @ [(i, d)]) (P(i := p)) d' l' (ser @ [(i, r)]) d'"
        using inv out holder new ser has readers found momentary_unlock [of st ops d0 ser i _ r]
        by (auto simp: lock_inv_def has_lock_def waiting_or_done_def)
      then show ?thesis by blast
    qed
  qed
qed

lemma lock_inv_steps:
  assumes "file_steps (\<lambda>i. op_steps st (ops i)) d0 tr P d l"
  shows "\<exists>ser ds. lock_inv st ops d0 tr P d l ser ds"
  using assms
proof induction
  case fs_done
  show ?case using lock_inv_start by blast
next
  case (fs_next tr Q d1 l i t p d2 l')
  then show ?case using lock_inv_step by blast
qed

section \<open>What follows\<close>

lemma writers_in_order:
  assumes inv: "lock_inv st ops d0 tr P d l ser ds" and op: "takes_lock (ops j)"
  shows "P j = Finish r \<longleftrightarrow> (j, r) \<in> set ser"
proof (cases "l = Some j")
  case True
  then show ?thesis using inv by (auto simp: lock_inv_def has_lock_def in_served)
next
  case False
  then have w: "waiting_or_done st ops ser j (P j)" and once: "distinct (map fst ser)"
    using inv op by (simp_all add: lock_inv_def)
  show ?thesis
  proof (cases "j \<in> fst ` set ser")
    case True
    then obtain r1 where "P j = Finish r1" "(j, r1) \<in> set ser" using w by (auto simp: waiting_or_done_def)
    then show ?thesis using eq_key_imp_eq_value [OF once] by auto
  next
    case False
    then show ?thesis using w op by (auto simp: waiting_or_done_def op_steps_def in_served)
  qed
qed

lemma reader_found:
  assumes inv: "lock_inv st ops d0 tr P d l ser ds" and op: "\<not> takes_lock (ops j)" and r: "P j = Finish r"
  shows "op_steps st (ops j) = Finish r \<or>
    (\<exists>d1 t t'. (j, d1) \<in> set tr \<and> momentary st ops d0 ser l d1 \<and> op_atomic st t t' (ops j) d1 = (r, d1))"
proof -
  have "reader_at st (ops j) (directories j tr) (Finish r)" and seen: "\<forall>u \<in> set tr. momentary st ops d0 ser l (snd u)"
    using inv op r [symmetric] by (auto simp: lock_inv_def)
  then show ?thesis unfolding reader_at_def directories_def by fastforce
qed

lemma someone_can_step:
  assumes inv: "lock_inv st ops d0 tr P d l ser ds" and left: "\<forall>r. P j \<noteq> Finish r"
  shows "\<exists>i. \<forall>t. file_step i (P i) t (d, l) \<noteq> None"
proof (cases l)
  case None
  then have "\<forall>t. file_step j (P j) t (d, l) \<noteq> None" using left by (cases "P j") auto
  then show ?thesis by blast
next
  case (Some i)
  then have "held (P i)" using inv by (simp add: lock_inv_def has_lock_def)
  then show ?thesis using held_can_step by blast
qed

end
