(* ===== verification/DemoApp.thy ===== *)
theory DemoApp
  imports Flow Codec
begin

text \<open>
  The routes of \<open>examples/demo_server.py\<close>: the reference integration of the library, with its
  enforcement gate. A handler alternates between the library's coroutines and the dictionary of
  application sessions, which other requests may change whenever it awaits.
\<close>

section \<open>Requests and responses\<close>

type_synonym sessions = "pystr \<rightharpoonup> pystr"

record http_request =
  rq_method :: pystr
  rq_path :: pystr
  rq_query :: "(pystr \<times> pystr) list"
  rq_headers :: "(pystr \<times> pystr) list"
  rq_cookies :: "(pystr \<times> pystr) list"

record http_response =
  rp_status :: int
  rp_headers :: "(pystr \<times> pystr) list"
  rp_body :: pystr

definition Response :: "int \<Rightarrow> http_response" where
  "Response status = \<lparr>rp_status = status, rp_headers = [], rp_body = []\<rparr>"

definition APP_SESSION_COOKIE :: pystr where
  "APP_SESSION_COOKIE = S ''demo_session''"

text \<open>\<open>"; ".join(parts)\<close>\<close>

fun join_with :: "pystr \<Rightarrow> pystr list \<Rightarrow> pystr" where
  "join_with sep [] = []"
| "join_with sep [p] = p"
| "join_with sep (p # q # ps) = p @ sep @ join_with sep (q # ps)"

definition set_cookie_header :: "set_cookie \<Rightarrow> pystr prog" where
  "set_cookie_header c =
     (let first = [ck_name c @ S ''='' @ (if ck_delete c then [] else ck_value c), S ''Path='' @ ck_path c];
          last = (if ck_secure c then [S ''Secure''] else []) @
            (if ck_http_only c then [S ''HttpOnly''] else []) @ [S ''SameSite='' @ ck_same_site c] in
      if ck_delete c
      then Return (join_with (S ''; '')
        (first @ [S ''Expires=Thu, 01 Jan 1970 00:00:01 GMT'', S ''Max-Age=0''] @ last))
      else Now (\<lambda>now. Return (join_with (S ''; '')
        (first @ [S ''Max-Age='' @ py_int_str (max (ck_expires_at c - now) 0)] @ last))))"

definition set_header :: "pystr \<Rightarrow> pystr \<Rightarrow> http_response \<Rightarrow> http_response" where
  "set_header name v r = r\<lparr>rp_headers :=
     filter (\<lambda>(n, _). py_lower n \<noteq> py_lower name) (rp_headers r) @ [(name, v)]\<rparr>"

primrec add_cookies :: "set_cookie list \<Rightarrow> http_response \<Rightarrow> http_response prog" where
  "add_cookies [] r = Return r"
| "add_cookies (c # cs) r =
     bind (set_cookie_header c) (\<lambda>v.
     add_cookies cs (r\<lparr>rp_headers := rp_headers r @ [(S ''Set-Cookie'', v)]\<rparr>))"

definition apply_response :: "http_response \<Rightarrow> dbsc_response \<Rightarrow> http_response prog" where
  "apply_response r dbsc =
     bind (add_cookies (rs_cookies dbsc) (foldl (\<lambda>r (n, v). set_header n v r) r (rs_headers dbsc))) (\<lambda>r1.
     let r2 = (case rs_content_type dbsc of None \<Rightarrow> r1 | Some t \<Rightarrow> set_header (S ''Content-Type'') t r1);
         r3 = (case rs_status dbsc of None \<Rightarrow> r2 | Some n \<Rightarrow> r2\<lparr>rp_status := n\<rparr>);
         r4 = (case rs_body dbsc of None \<Rightarrow> r3 | Some b \<Rightarrow> r3\<lparr>rp_body := b\<rparr>) in
     Return r4)"

section \<open>Handlers\<close>

text \<open>
  A handler reads and updates the sessions in one go, draws a token, or performs the effects of a
  coroutine whose result is the rest of the handler.
\<close>

datatype 'a app =
    Done 'a
  | Fail exn
  | Sessions "sessions \<Rightarrow> sessions \<times> 'a app"
  | TokenUrlsafe nat "pystr \<Rightarrow> 'a app"
  | Do "'a app prog"

definition await :: "'b prog \<Rightarrow> ('b \<Rightarrow> 'a app) \<Rightarrow> 'a app" where
  "await p k = Do (bind p (\<lambda>x. Return (k x)))"

text \<open>\<open>try: ... except\<close>; what the clauses do not name is raised again by \<open>h\<close>.\<close>

definition try_await :: "'b prog \<Rightarrow> (exn \<Rightarrow> 'a app) \<Rightarrow> ('b \<Rightarrow> 'a app) \<Rightarrow> 'a app" where
  "try_await p h k = Do (try_catch p (\<lambda>e. Return (h e)) (\<lambda>x. Return (k x)))"

text \<open>The application: the library's server and the origin of the site.\<close>

record 'k demo_app =
  ap_dbsc :: "'k server"
  ap_origin :: pystr

definition starts_with :: "pystr \<Rightarrow> pystr \<Rightarrow> bool" where
  "starts_with prefix s \<longleftrightarrow> take (length prefix) s = prefix"

definition app_cookie :: "'k demo_app \<Rightarrow> pystr \<Rightarrow> pystr" where
  "app_cookie ap session_id =
     APP_SESSION_COOKIE @ S ''='' @ session_id @ S ''; Path=/; HttpOnly; SameSite=Lax'' @
     (if starts_with (S ''https://'') (ap_origin ap) then S ''; Secure'' else [])"

definition new_session ::
  "'k demo_app \<Rightarrow> http_response \<Rightarrow> (pystr \<Rightarrow> http_response \<Rightarrow> 'a app) \<Rightarrow> 'a app" where
  "new_session ap r k = TokenUrlsafe 32 (\<lambda>session_id. Sessions (\<lambda>s.
     (s(session_id \<mapsto> []),
      k session_id (r\<lparr>rp_headers := rp_headers r @ [(S ''Set-Cookie'', app_cookie ap session_id)]\<rparr>))))"

definition context_of ::
  "'k demo_app \<Rightarrow> http_request \<Rightarrow> pystr \<Rightarrow> sessions \<Rightarrow> request_context result" where
  "context_of ap rq session_id s =
     RequestContext session_id (or_else (s session_id) []) (ap_origin ap) (rq_headers rq) (rq_cookies rq) None None"

definition with_context ::
  "'k demo_app \<Rightarrow> http_request \<Rightarrow> pystr \<Rightarrow> (request_context \<Rightarrow> 'a app) \<Rightarrow> 'a app" where
  "with_context ap rq session_id k = Sessions (\<lambda>s.
     (s, case context_of ap rq session_id s of Inl e \<Rightarrow> Fail e | Inr ctx \<Rightarrow> k ctx))"

definition session_response_jwt :: "request_context \<Rightarrow> pystr" where
  "session_response_jwt ctx =
     (let first = or_else (header ctx (S ''Sec-Session-Response'')) [];
          second = or_else (header ctx (S ''Secure-Session-Response'')) [] in
      strip_by (\<lambda>c. c = 34) (if first \<noteq> [] then first else second))"

definition json_error :: "int \<Rightarrow> http_response \<Rightarrow> http_response" where
  "json_error status r =
     (set_header (S ''Content-Type'') (S ''application/json'') (r\<lparr>rp_status := status\<rparr>))
       \<lparr>rp_body := S ''{\"ok\": false}''\<rparr>"

definition redirect :: "pystr \<Rightarrow> http_response \<Rightarrow> http_response" where
  "redirect location r =
     r\<lparr>rp_status := 302, rp_headers := rp_headers r @ [(S ''Location'', location)]\<rparr>"

definition register_route ::
  "'k demo_app \<Rightarrow> http_request \<Rightarrow> pystr \<Rightarrow> http_response \<Rightarrow> http_response app" where
  "register_route ap rq session_id r = with_context ap rq session_id (\<lambda>ctx.
     let jwt = session_response_jwt ctx in
     if jwt = [] then Done (r\<lparr>rp_status := 400\<rparr>)
     else try_await (bind (register (ap_dbsc ap) jwt ctx) (apply_response r))
       (\<lambda>e. if isinstance e DbscError then Done (json_error 401 r) else Fail e) Done)"

definition refresh_route ::
  "'k demo_app \<Rightarrow> http_request \<Rightarrow> pystr \<Rightarrow> http_response \<Rightarrow> http_response app" where
  "refresh_route ap rq session_id r = with_context ap rq session_id (\<lambda>ctx.
     let jwt = session_response_jwt ctx;
         challenge = await (bind (issue_refresh_challenge ctx) (apply_response r)) Done in
     if jwt = [] then challenge
     else try_await (bind (refresh (ap_dbsc ap) jwt ctx) (apply_response r))
       (\<lambda>e. if isinstance e RetryableRefreshError then challenge
            else if isinstance e DbscError then
              await (bind (revoke (ap_dbsc ap) ctx True) (apply_response r)) (\<lambda>r1.
              Sessions (\<lambda>s. (s(session_id \<mapsto> []), Done (json_error 401 r1))))
            else Fail e) Done)"

definition terminate_session ::
  "'k demo_app \<Rightarrow> request_context \<Rightarrow> http_response \<Rightarrow> http_response app" where
  "terminate_session ap ctx r =
     await (bind (revoke (ap_dbsc ap) ctx True) (apply_response r)) (\<lambda>r1.
     Sessions (\<lambda>s. (s(rc_session_id ctx \<mapsto> []), Done (redirect (S ''?route=login'') r1))))"

text \<open>The gate's decision on a bound session: \<open>must_check and not bound_cookie_matches(...)\<close>.\<close>

definition gate_refuses :: "'k server \<Rightarrow> binding \<Rightarrow> request_context \<Rightarrow> bool prog" where
  "gate_refuses sv binding ctx =
     bind (if is_document_request ctx then Return True
           else bind (is_within_registration_grace sv binding) (\<lambda>grace. Return (\<not> grace))) (\<lambda>must_check.
     if must_check then bind (bound_cookie_matches sv binding ctx) (\<lambda>ok. Return (\<not> ok))
     else Return False)"

definition COOKIE_AUTH_PAGE :: pystr where
  "COOKIE_AUTH_PAGE = S ''Account page (cookie auth: browser did not register DBSC).''"

definition BOUND_PAGE :: pystr where
  "BOUND_PAGE = S ''Account page (DBSC-bound: device-bound cookie verified).''"

definition account_route ::
  "'k demo_app \<Rightarrow> http_request \<Rightarrow> pystr \<Rightarrow> http_response \<Rightarrow> http_response app" where
  "account_route ap rq session_id r = Sessions (\<lambda>s. (s,
     if or_else (s session_id) [] = [] then Done (redirect (S ''?route=login'') r)
     else with_context ap rq session_id (\<lambda>ctx.
     try_await (session_binding ctx)
       (\<lambda>e. if isinstance e CorruptStateError then terminate_session ap ctx r else Fail e)
       (\<lambda>found. case found of
          None \<Rightarrow> Done (r\<lparr>rp_body := COOKIE_AUTH_PAGE\<rparr>)
        | Some binding \<Rightarrow>
            await (gate_refuses (ap_dbsc ap) binding ctx) (\<lambda>refuses.
            if refuses then terminate_session ap ctx r
            else if is_document_request ctx then
              await (bind (advertise_refresh_challenge (ap_dbsc ap) binding ctx) (apply_response r)) (\<lambda>r1.
              Done (r1\<lparr>rp_body := BOUND_PAGE\<rparr>))
            else Done (r\<lparr>rp_body := BOUND_PAGE\<rparr>))))))"

definition log_in ::
  "'k demo_app \<Rightarrow> http_request \<Rightarrow> pystr \<Rightarrow> http_response \<Rightarrow> http_response app" where
  "log_in ap rq session_id r = Sessions (\<lambda>s. (s(session_id \<mapsto> S ''demo-user''),
     with_context ap rq session_id (\<lambda>ctx.
     await (bind (build_registration_header_response (ap_dbsc ap) ctx) (apply_response r)) (\<lambda>r1.
     Done (r1\<lparr>rp_body := S ''Logged in. DBSC registration offered. <a href='?route=account'>Account</a>''\<rparr>)))))"

text \<open>A known session is torn down and replaced first; \<open>del\<close> raises if it is gone by then.\<close>

definition login_route ::
  "'k demo_app \<Rightarrow> http_request \<Rightarrow> pystr \<Rightarrow> bool \<Rightarrow> http_response \<Rightarrow> http_response app" where
  "login_route ap rq session_id fresh r =
     (if fresh then log_in ap rq session_id r
      else with_context ap rq session_id (\<lambda>old.
        await (bind (revoke (ap_dbsc ap) old False) (apply_response r)) (\<lambda>r1.
        Sessions (\<lambda>s.
          case s session_id of
            None \<Rightarrow> (s, Fail (Exn KeyError session_id))
          | Some _ \<Rightarrow>
              (s(session_id := None), new_session ap r1 (\<lambda>session_id' r2. log_in ap rq session_id' r2))))))"

definition logout_route ::
  "'k demo_app \<Rightarrow> http_request \<Rightarrow> pystr \<Rightarrow> http_response \<Rightarrow> http_response app" where
  "logout_route ap rq session_id r = with_context ap rq session_id (\<lambda>ctx.
     await (bind (revoke (ap_dbsc ap) ctx False) (apply_response r)) (\<lambda>r1.
     Sessions (\<lambda>s. (s(session_id \<mapsto> []),
       Done (r1\<lparr>rp_body := S ''Logged out. <a href='?route=login'>Log in</a>''\<rparr>)))))"

definition route ::
  "'k demo_app \<Rightarrow> http_request \<Rightarrow> pystr \<Rightarrow> bool \<Rightarrow> http_response \<Rightarrow> http_response app" where
  "route ap rq session_id fresh r =
     (let name = map_of (rq_query rq) (S ''route'') in
      if rq_path rq = S ''/dbsc/register'' then register_route ap rq session_id r
      else if rq_path rq = S ''/dbsc/refresh'' then refresh_route ap rq session_id r
      else if name = Some (S ''login'') then login_route ap rq session_id fresh r
      else if name = Some (S ''logout'') then logout_route ap rq session_id r
      else if name = Some (S ''account'') then account_route ap rq session_id r
      else Done (r\<lparr>rp_body :=
        S ''<a href='?route=login'>Log in</a> to start the DBSC demo (use a DBSC-capable browser over HTTPS).''\<rparr>))"

definition handle :: "'k demo_app \<Rightarrow> http_request \<Rightarrow> http_response app" where
  "handle ap rq =
     (let session_id = or_else (map_of (rq_cookies rq) APP_SESSION_COOKIE) [] in
      Sessions (\<lambda>s. (s,
        if s session_id = None then new_session ap (Response 200) (\<lambda>session_id' r. route ap rq session_id' True r)
        else route ap rq session_id False (Response 200))))"

section \<open>Running a handler alone\<close>

definition token_urlsafe :: "nat \<Rightarrow> 's world \<Rightarrow> pystr \<times> 's world" where
  "token_urlsafe n w =
     (b64url_encode (map (w_entropy w) [w_drawn w ..< w_drawn w + n]), w\<lparr>w_drawn := w_drawn w + n\<rparr>)"

type_synonym ('a, 's) outcome = "'a result \<times> sessions \<times> 's world"

primrec app_exec :: "'s store_ops \<Rightarrow> 'a app \<Rightarrow> sessions \<times> 's world \<Rightarrow> ('a, 's) outcome" where
  "app_exec so (Done x) sw = (Inr x, sw)"
| "app_exec so (Fail e) sw = (Inl e, sw)"
| "app_exec so (Sessions k) sw =
     (let (s', run) = map_prod id (app_exec so) (k (fst sw)) in run (s', snd sw))"
| "app_exec so (TokenUrlsafe n k) sw =
     app_exec so (k (fst (token_urlsafe n (snd sw)))) (fst sw, snd (token_urlsafe n (snd sw)))"
| "app_exec so (Do p) sw =
     (case exec so (map_prog (app_exec so) p) (snd sw) of
        (Inl e, w') \<Rightarrow> (Inl e, fst sw, w')
      | (Inr run, w') \<Rightarrow> run (fst sw, w'))"

end
