(* ===== verification/DemoLaws.thy ===== *)
theory DemoLaws
  imports DemoApp
begin

text \<open>
  How the handlers of the example behave: what a handler that runs alone does to the sessions and to
  the store, and what every handler keeps to while others run in between.
\<close>

section \<open>Running alone\<close>

lemma exec_map:
  "exec so (map_prog f p) w = (map_sum id f (fst (exec so p w)), snd (exec so p w))"
  by (induction p arbitrary: w) simp_all

lemma app_exec_sessions [simp]:
  "app_exec so (Sessions k) sw = app_exec so (snd (k (fst sw))) (fst (k (fst sw)), snd sw)"
  by (simp add: case_prod_unfold)

lemma app_exec_do:
  "app_exec so (Do p) sw =
     (case exec so p (snd sw) of
        (Inl e, w') \<Rightarrow> (Inl e, fst sw, w')
      | (Inr a, w') \<Rightarrow> app_exec so a (fst sw, w'))"
  by (cases "fst (exec so p (snd sw))") (simp_all add: exec_map case_prod_unfold)

declare app_exec.simps(3,5) [simp del]

lemma app_exec_await:
  "app_exec so (await p k) sw =
     (case outcome so p (snd sw) of
        Inl e \<Rightarrow> (Inl e, fst sw, after so p (snd sw))
      | Inr x \<Rightarrow> app_exec so (k x) (fst sw, after so p (snd sw)))"
  by (cases "fst (exec so p (snd sw))")
    (simp_all add: await_def app_exec_do exec_bind case_prod_unfold outcome_def after_def)

lemma app_exec_try_await:
  "app_exec so (try_await p h k) sw =
     (case outcome so p (snd sw) of
        Inl e \<Rightarrow> app_exec so (h e) (fst sw, after so p (snd sw))
      | Inr x \<Rightarrow> app_exec so (k x) (fst sw, after so p (snd sw)))"
  by (cases "fst (exec so p (snd sw))")
    (simp_all add: try_await_def app_exec_do exec_try_catch case_prod_unfold outcome_def after_def)

lemma outcome_bind:
  "outcome so (bind p f) w =
     (case outcome so p w of Inl e \<Rightarrow> Inl e | Inr x \<Rightarrow> outcome so (f x) (after so p w))"
  "after so (bind p f) w =
     (case outcome so p w of Inl e \<Rightarrow> after so p w | Inr x \<Rightarrow> after so (f x) (after so p w))"
  by (cases "fst (exec so p w)"; simp add: exec_bind case_prod_unfold outcome_def after_def)+

text \<open>Applying a response of the library reads the clock once per cookie with an expiry.\<close>

lemma passes_none: "\<exists>n. w = pass n w"
  by (rule exI [of _ 0]) (simp add: pass_def)

lemma set_cookie_exec: "\<exists>v n. exec so (set_cookie_header c) w = (Inr v, pass n w)"
proof (cases "ck_delete c")
  case True
  with passes_none [of w] show ?thesis by (simp add: set_cookie_header_def Let_def)
next
  case False
  then show ?thesis by (simp add: set_cookie_header_def Let_def) blast
qed

lemma add_cookies_exec: "\<exists>r' n. exec so (add_cookies cs r) w = (Inr r', pass n w)"
proof (induction cs arbitrary: r w)
  case Nil
  with passes_none [of w] show ?case by simp
next
  case (Cons c cs)
  obtain v n where "exec so (set_cookie_header c) w = (Inr v, pass n w)"
    using set_cookie_exec by blast
  with Cons.IH [of "r\<lparr>rp_headers := rp_headers r @ [(S ''Set-Cookie'', v)]\<rparr>" "pass n w"] show ?case
    by (auto simp: exec_bind)
qed

lemma apply_exec: "\<exists>r' n. exec so (apply_response r d) w = (Inr r', pass n w)"
  using add_cookies_exec [of so "rs_cookies d" "foldl (\<lambda>r (n, v). set_header n v r) r (rs_headers d)" w]
  by (auto simp: apply_response_def exec_bind Let_def)

lemma apply_outcome:
  "\<exists>r'. outcome so (apply_response r d) w = Inr r'" "w_store (after so (apply_response r d) w) = w_store w"
  "w_audit (after so (apply_response r d) w) = w_audit w"
  using apply_exec [of so r d w] by (auto simp: outcome_def after_def)

lemma apply_keeps:
  assumes "outcome so (apply_response r d) w = Inr r'"
  shows "rp_status r' = or_else (rs_status d) (rp_status r)" and "rp_body r' = or_else (rs_body d) (rp_body r)"
proof -
  have hs: "rp_status (foldl (\<lambda>r (n, v). set_header n v r) r hs) = rp_status r \<and>
      rp_body (foldl (\<lambda>r (n, v). set_header n v r) r hs) = rp_body r" for hs
    by (induction hs arbitrary: r) (auto simp: set_header_def)
  have cs: "exec so (add_cookies cs r0) w = (Inr r1, w') \<Longrightarrow>
      rp_status r1 = rp_status r0 \<and> rp_body r1 = rp_body r0" for cs r0 r1 w w'
  proof (induction cs arbitrary: r0 w)
    case (Cons c cs)
    obtain v n where "exec so (set_cookie_header c) w = (Inr v, pass n w)"
      using set_cookie_exec by blast
    with Cons show ?case by (fastforce simp: exec_bind)
  qed simp
  obtain r1 n where r1: "exec so (add_cookies (rs_cookies d) (foldl (\<lambda>r (n, v). set_header n v r) r (rs_headers d))) w =
      (Inr r1, pass n w)" using add_cookies_exec by blast
  with assms cs [OF r1] hs show "rp_status r' = or_else (rs_status d) (rp_status r)"
    and "rp_body r' = or_else (rs_body d) (rp_body r)"
    by (auto simp: apply_response_def outcome_def exec_bind Let_def set_header_def split: option.splits)
qed

section \<open>Ending a session\<close>

context session_store
begin

lemma revoke_alone:
  shows "outcome so (revoke sv ctx et) w = Inr (revoke_response sv)"
    and "get_binding so t (rc_session_id ctx) (w_store (after so (revoke sv ctx et) w)) = Inr None"
    and "get_pending_registration so t (rc_session_id ctx) (w_store (after so (revoke sv ctx et) w)) = Inr None"
    and "sid \<noteq> rc_session_id ctx \<Longrightarrow>
      get_binding so t sid (w_store (after so (revoke sv ctx et) w)) = get_binding so t sid (w_store w)"
proof -
  have "isinstance e CorruptStateError" if "get_binding so u sid s = Inl e" for u sid s e
    using get_binding_corrupt [OF that] by (simp add: isinstance_def)
  then have "\<exists>v. exec so (revoke sv ctx et) w = (Inr (revoke_response sv), v) \<and>
      w_store v = delete_session so (rc_session_id ctx) (w_store w)"
    by (auto simp: revoke_code torn_down_def split: sum.split)
  then show "outcome so (revoke sv ctx et) w = Inr (revoke_response sv)"
    "get_binding so t (rc_session_id ctx) (w_store (after so (revoke sv ctx et) w)) = Inr None"
    "get_pending_registration so t (rc_session_id ctx) (w_store (after so (revoke sv ctx et) w)) = Inr None"
    "sid \<noteq> rc_session_id ctx \<Longrightarrow>
      get_binding so t sid (w_store (after so (revoke sv ctx et) w)) = get_binding so t sid (w_store w)"
    by (auto simp: outcome_def after_def views)
qed

text \<open>Revoking and applying the response, as every ending of a session does.\<close>

lemma revoke_applied:
  obtains r' where "outcome so (bind (revoke sv ctx et) (apply_response r)) w = Inr r'"
    and "rp_status r' = rp_status r" and "rp_body r' = rp_body r"
    and "\<And>t. get_binding so t (rc_session_id ctx) (w_store (after so (bind (revoke sv ctx et) (apply_response r)) w)) = Inr None"
    and "\<And>t. get_pending_registration so t (rc_session_id ctx)
      (w_store (after so (bind (revoke sv ctx et) (apply_response r)) w)) = Inr None"
proof -
  obtain r' where r': "outcome so (apply_response r (revoke_response sv)) (after so (revoke sv ctx et) w) = Inr r'"
    using apply_outcome(1) by blast
  have "rp_status r' = rp_status r" "rp_body r' = rp_body r"
    using apply_keeps [OF r'] by (simp_all add: revoke_response_def empty_response_def)
  then show ?thesis
    by (intro that [of r']) (simp_all add: outcome_bind revoke_alone r' apply_outcome)
qed

end

section \<open>The gate\<close>

definition presents_cookie :: "'k server \<Rightarrow> binding \<Rightarrow> request_context \<Rightarrow> int \<Rightarrow> bool" where
  "presents_cookie sv b ctx now \<longleftrightarrow>
     same_user (b_user_id b) (rc_user_id ctx) \<and>
     (\<exists>v. cookie ctx (cfg_cookie_name (sv_config sv)) = Some v \<and> v \<noteq> [] \<and>
       (v = b_cookie_value b \<or> v = b_previous_cookie_value b \<and> now < b_previous_cookie_expires_at b))"

text \<open>The cookie jar holds only text that has a UTF-8 form, as every cookie read from a request does.\<close>

definition readable_cookies :: "request_context \<Rightarrow> bool" where
  "readable_cookies ctx \<longleftrightarrow> (\<forall>name v. cookie ctx name = Some v \<longrightarrow> encodable v)"

lemma cookie_check_exec:
  assumes "binding_valid b" and "readable_cookies ctx"
  shows "\<exists>n. exec so (bound_cookie_matches sv b ctx) w = (Inr (presents_cookie sv b ctx (tick w 0)), pass n w)"
proof -
  note id = passes_none [of w]
  show ?thesis
  proof (cases "same_user (b_user_id b) (rc_user_id ctx) \<and>
      cookie ctx (cfg_cookie_name (sv_config sv)) \<notin> {None, Some []}")
    case False
    with id show ?thesis by (auto simp: bound_cookie_matches_absent presents_cookie_def)
  next
    case True
    then obtain v where v: "cookie ctx (cfg_cookie_name (sv_config sv)) = Some v" "v \<noteq> []" by auto
    with assms(2) have enc: "encodable v" by (auto simp: readable_cookies_def)
    show ?thesis
      using True v id by (auto simp: bound_cookie_matches_code [OF assms(1) _ v enc] presents_cookie_def)
  qed
qed

definition within_grace :: "'k server \<Rightarrow> binding \<Rightarrow> int \<Rightarrow> bool" where
  "within_grace sv b now \<longleftrightarrow> now - b_created_at b < cfg_registration_grace_seconds (sv_config sv)"

text \<open>What lets a request to the protected page of a bound session through.\<close>

definition passes_gate :: "'k server \<Rightarrow> binding \<Rightarrow> request_context \<Rightarrow> 's world \<Rightarrow> bool" where
  "passes_gate sv b ctx w \<longleftrightarrow>
     (if is_document_request ctx then presents_cookie sv b ctx (tick w 1)
      else within_grace sv b (tick w 1) \<or> presents_cookie sv b ctx (tick w 2))"

lemma gate_refuses_exec:
  assumes "binding_valid b" and "readable_cookies ctx"
  shows "\<exists>n. exec so (gate_refuses sv b ctx) (pass 1 w) = (Inr (\<not> passes_gate sv b ctx w), pass n w)"
proof -
  obtain n m where "exec so (bound_cookie_matches sv b ctx) (pass 1 w) =
      (Inr (presents_cookie sv b ctx (tick (pass 1 w) 0)), pass n (pass 1 w))"
    "exec so (bound_cookie_matches sv b ctx) (pass 2 w) =
      (Inr (presents_cookie sv b ctx (tick (pass 2 w) 0)), pass m (pass 2 w))"
    using cookie_check_exec [OF assms] by metis
  then show ?thesis
    by (cases "is_document_request ctx"; cases "within_grace sv b (tick w 1)")
      (auto simp: gate_refuses_def is_within_registration_grace_def exec_bind passes_gate_def within_grace_def
        numeral_2_eq_2)
qed

context session_store
begin

lemma terminate_alone:
  obtains r' w' where "app_exec so (terminate_session ap ctx r) (s, w) = (Inr (redirect (S ''?route=login'') r'),
      s(rc_session_id ctx \<mapsto> []), w')"
    and "rp_body r' = rp_body r"
    and "\<And>t. get_binding so t (rc_session_id ctx) (w_store w') = Inr None"
    and "\<And>t. get_pending_registration so t (rc_session_id ctx) (w_store w') = Inr None"
proof -
  obtain r' where "outcome so (bind (revoke (ap_dbsc ap) ctx True) (apply_response r)) w = Inr r'"
    "rp_status r' = rp_status r" "rp_body r' = rp_body r"
    "\<And>t. get_binding so t (rc_session_id ctx)
      (w_store (after so (bind (revoke (ap_dbsc ap) ctx True) (apply_response r)) w)) = Inr None"
    "\<And>t. get_pending_registration so t (rc_session_id ctx)
      (w_store (after so (bind (revoke (ap_dbsc ap) ctx True) (apply_response r)) w)) = Inr None"
    by (rule revoke_applied [where sv = "ap_dbsc ap" and ctx = ctx and et = True and r = r and w = w]) (rule that)
  then show ?thesis
    by (intro that [of r' "after so (bind (revoke (ap_dbsc ap) ctx True) (apply_response r)) w"])
      (simp_all add: terminate_session_def app_exec_await)
qed

lemma context_session: "context_of ap rq sid s = Inr ctx \<Longrightarrow>
    rc_session_id ctx = sid \<and> rc_user_id ctx = or_else (s sid) []"
  by (auto simp: context_of_def RequestContext_def bind_res_eq_Inr)

text \<open>A page of a session that is logged in, up to the gate.\<close>

lemma account_found:
  assumes "s sid = Some user" and "user \<noteq> []" and "context_of ap rq sid s = Inr ctx"
  shows "app_exec so (account_route ap rq sid r) (s, w) =
    (case get_binding so (reading w 0) sid (w_store w) of
       Inl e \<Rightarrow> app_exec so (terminate_session ap ctx r) (s, pass 1 w)
     | Inr None \<Rightarrow> (Inr (r\<lparr>rp_body := COOKIE_AUTH_PAGE\<rparr>), s, pass 1 w)
     | Inr (Some b) \<Rightarrow> app_exec so (await (gate_refuses (ap_dbsc ap) b ctx) (\<lambda>refuses.
          if refuses then terminate_session ap ctx r
          else if is_document_request ctx then
            await (bind (advertise_refresh_challenge (ap_dbsc ap) b ctx) (apply_response r)) (\<lambda>r1.
            Done (r1\<lparr>rp_body := BOUND_PAGE\<rparr>))
          else Done (r\<lparr>rp_body := BOUND_PAGE\<rparr>))) (s, pass 1 w))"
proof -
  have "isinstance e CorruptStateError" if "get_binding so u sid s' = Inl e" for u s' e
    using get_binding_corrupt [OF that] by (simp add: isinstance_def)
  moreover have "rc_session_id ctx = sid" using context_session [OF assms(3)] by simp
  ultimately show ?thesis
    using assms
    by (auto simp: account_route_def with_context_def app_exec_try_await session_binding_def outcome_def after_def
        split: sum.split option.split)
qed

end

section \<open>The other routes\<close>

lemma context_of_ok:
  assumes "is_origin (ap_origin ap)"
  obtains ctx where "context_of ap rq sid s = Inr ctx" and "rc_session_id ctx = sid"
    and "rc_user_id ctx = or_else (s sid) []"
  using assms by (auto simp: context_of_def RequestContext_def require_def)

text \<open>Readings of one store, at whatever times, agree on what they can see.\<close>

context session_store
begin

lemma binding_seen:
  assumes "get_binding so t sid s = Inr (Some b)"
  shows "get_binding so t' sid s \<in> {Inr (Some b), Inr None}"
  using assms binding_expiry [of t t' sid s] binding_expiry [of t' t sid s] by (cases "t \<le> t'") auto

lemma advertise_alone:
  assumes "get_binding so t (rc_session_id ctx) (w_store w) = Inr (Some b)"
  shows "\<exists>resp. outcome so (advertise_refresh_challenge sv b ctx) w = Inr resp \<and>
    rs_status resp = None"
proof -
  have "binding_valid b" using get_binding_valid assms by blast
  moreover have "get_binding so u (rc_session_id ctx) (w_store w) \<in> {Inr (Some b), Inr None}" for u
    using binding_seen [OF assms] .
  then have "get_binding so u (rc_session_id ctx) (w_store w) = Inr (Some b) \<or>
      get_binding so u (rc_session_id ctx) (w_store w) = Inr None" for u by simp
  from this [of "reading w 1"] calculation show ?thesis
    by (auto simp: advertise_refresh_challenge_def outcome_def mark_challenge_advertised_ok replace_atomic
        empty_response_def)
qed

lemma gate_alone:
  fixes r :: http_response
  assumes "s sid = Some user" and "user \<noteq> []" and "context_of ap rq sid s = Inr ctx"
    and "readable_cookies ctx" and bound: "get_binding so (reading w 0) sid (w_store w) = Inr (Some b)"
  defines "run \<equiv> app_exec so (account_route ap rq sid r) (s, w)"
  shows "passes_gate (ap_dbsc ap) b ctx w \<Longrightarrow>
      \<exists>r' w'. run = (Inr r', s, w') \<and> rp_body r' = BOUND_PAGE \<and> rp_status r' = rp_status r"
    and "\<not> passes_gate (ap_dbsc ap) b ctx w \<Longrightarrow>
      \<exists>r' w'. run = (Inr (redirect (S ''?route=login'') r'), s(sid \<mapsto> []), w') \<and> rp_body r' = rp_body r \<and>
        (\<forall>t. get_binding so t sid (w_store w') = Inr None)"
proof -
  have sid: "rc_session_id ctx = sid" using context_session [OF assms(3)] by simp
  have valid: "binding_valid b" using get_binding_valid bound by blast
  obtain n where gate: "outcome so (gate_refuses (ap_dbsc ap) b ctx) (pass 1 w) = Inr (\<not> passes_gate (ap_dbsc ap) b ctx w)"
    "after so (gate_refuses (ap_dbsc ap) b ctx) (pass 1 w) = pass n w"
    using gate_refuses_exec [OF valid assms(4), of so "ap_dbsc ap" w] by (auto simp: outcome_def after_def)
  note run = run_def account_found [OF assms(1-3)] bound app_exec_await gate
  show "\<exists>r' w'. run = (Inr r', s, w') \<and> rp_body r' = BOUND_PAGE \<and> rp_status r' = rp_status r"
    if pass: "passes_gate (ap_dbsc ap) b ctx w"
  proof (cases "is_document_request ctx")
    case False
    with pass show ?thesis by (simp add: run del: One_nat_def)
  next
    case True
    obtain resp where adv: "outcome so (advertise_refresh_challenge (ap_dbsc ap) b ctx) (pass n w) = Inr resp"
      "rs_status resp = None"
      using advertise_alone [of "reading w 0" ctx "pass n w" b "ap_dbsc ap"] bound by (auto simp: sid)
    obtain r' where r': "outcome so (apply_response r resp)
        (after so (advertise_refresh_challenge (ap_dbsc ap) b ctx) (pass n w)) = Inr r'"
      using apply_outcome(1) by blast
    with pass True adv apply_keeps(1) [OF r'] show ?thesis
      by (simp add: run outcome_bind del: One_nat_def)
  qed
  show "\<exists>r' w'. run = (Inr (redirect (S ''?route=login'') r'), s(sid \<mapsto> []), w') \<and> rp_body r' = rp_body r \<and>
      (\<forall>t. get_binding so t sid (w_store w') = Inr None)" if refuse: "\<not> passes_gate (ap_dbsc ap) b ctx w"
  proof -
    obtain r' w' where "app_exec so (terminate_session ap ctx r) (s, pass n w) =
        (Inr (redirect (S ''?route=login'') r'), s(sid \<mapsto> []), w')"
      "rp_body r' = rp_body r" "\<And>t. get_binding so t sid (w_store w') = Inr None"
      using terminate_alone [of ap ctx r s "pass n w"] unfolding sid by metis
    with refuse show ?thesis by (intro exI [of _ r'] exI [of _ w']) (simp add: run del: One_nat_def)
  qed
qed

text \<open>The account page of a user who is logged in, with a readable binding and without one.\<close>

lemma bound_gate:
  assumes "s sid = Some user" and "user \<noteq> []" and "context_of ap rq sid s = Inr ctx"
    and "readable_cookies ctx" and "get_binding so (reading w 0) sid (w_store w) = Inr (Some b)"
  shows "\<exists>r' s' w'. app_exec so (account_route ap rq sid r) (s, w) = (Inr r', s', w') \<and>
    (if (if is_document_request ctx then presents_cookie (ap_dbsc ap) b ctx (tick w 1)
         else tick w 1 - b_created_at b < cfg_registration_grace_seconds (sv_config (ap_dbsc ap)) \<or>
           presents_cookie (ap_dbsc ap) b ctx (tick w 2))
     then s' = s \<and> rp_body r' = BOUND_PAGE \<and> rp_status r' = rp_status r
     else s' = s(sid \<mapsto> []) \<and> (\<forall>t. get_binding so t sid (w_store w') = Inr None) \<and>
       rp_status r' = 302 \<and> rp_body r' = rp_body r \<and>
       (S ''Location'', S ''?route=login'') \<in> set (rp_headers r'))"
proof (cases "passes_gate (ap_dbsc ap) b ctx w")
  case True
  with gate_alone(1) [OF assms, of r] show ?thesis by (fastforce simp: passes_gate_def within_grace_def)
next
  case False
  with gate_alone(2) [OF assms, of r] show ?thesis
    by (fastforce simp: passes_gate_def within_grace_def redirect_def)
qed

lemma unbound_gate:
  fixes r :: http_response
  assumes "s sid = Some user" and "user \<noteq> []" and "context_of ap rq sid s = Inr ctx"
  shows "case get_binding so (reading w 0) sid (w_store w) of
      Inl e \<Rightarrow> \<exists>r' w'. app_exec so (account_route ap rq sid r) (s, w) = (Inr r', s(sid \<mapsto> []), w') \<and>
        rp_status r' = 302 \<and> rp_body r' = rp_body r \<and> (\<forall>t. get_binding so t sid (w_store w') = Inr None)
    | Inr None \<Rightarrow> app_exec so (account_route ap rq sid r) (s, w) = (Inr (r\<lparr>rp_body := COOKIE_AUTH_PAGE\<rparr>), s, pass 1 w)
    | Inr (Some b) \<Rightarrow> True"
proof -
  have sid: "rc_session_id ctx = sid" using context_session [OF assms(3)] by simp
  obtain r' w' where "app_exec so (terminate_session ap ctx r) (s, pass 1 w) =
      (Inr (redirect (S ''?route=login'') r'), s(sid \<mapsto> []), w')"
    "rp_body r' = rp_body r" "\<And>t. get_binding so t sid (w_store w') = Inr None"
    using terminate_alone [of ap ctx r s "pass 1 w"] unfolding sid by metis
  then show ?thesis
    by (simp add: account_found [OF assms] redirect_def del: One_nat_def split: sum.split option.split)
qed

lemma refresh_route_run:
  assumes "context_of ap rq sid s = Inr ctx" and "session_response_jwt ctx \<noteq> []"
  shows "app_exec so (refresh_route ap rq sid r) (s, w) =
    (let challenge = await (bind (issue_refresh_challenge ctx) (apply_response r)) Done;
         jwt = session_response_jwt ctx;
         w1 = after so (refresh (ap_dbsc ap) jwt ctx) w in
     case outcome so (refresh (ap_dbsc ap) jwt ctx) w of
       Inl e \<Rightarrow>
         if isinstance e RetryableRefreshError then app_exec so challenge (s, w1)
         else if isinstance e DbscError then
           app_exec so (await (bind (revoke (ap_dbsc ap) ctx True) (apply_response r)) (\<lambda>r1.
             Sessions (\<lambda>s. (s(sid \<mapsto> []), Done (json_error 401 r1))))) (s, w1)
         else (Inl e, s, w1)
     | Inr d \<Rightarrow> (outcome so (apply_response r d) w1, s, after so (apply_response r d) w1))"
proof -
  have "\<exists>r'. outcome so (apply_response r d) w1 = Inr r'" for d w1 using apply_outcome(1) by blast
  then show ?thesis
    using assms
    by (auto simp: refresh_route_def with_context_def app_exec_try_await outcome_bind Let_def split: sum.split)
      (metis Inl_Inr_False)+
qed

end

end
