(* ===== verification/DemoRuns.thy ===== *)
theory DemoRuns
  imports DemoLaws
begin

text \<open>
  Handlers of the example interleaved: at every effect of a library coroutine and whenever a handler
  looks at the sessions. Two facts about any number of concurrent requests: a session becomes
  logged in only under an id drawn by a login request (no session fixation), and two logins with the
  same session cookie can make the slower one fail.
\<close>

section \<open>One step, and any schedule\<close>

text \<open>
  What a step shows: a token drawn, an effect of a coroutine, the sessions as the handler found them,
  or that it goes on with the result of a coroutine.
\<close>

datatype label = Drew pystr | Effect event | Saw sessions | Resumed

fun app_step :: "'s store_ops \<Rightarrow> 'a app \<Rightarrow> sessions \<Rightarrow> 's world \<Rightarrow>
    (label \<times> 'a app \<times> sessions \<times> 's world) option" where
  "app_step so (Done x) s w = None"
| "app_step so (Fail e) s w = None"
| "app_step so (Sessions k) s w = Some (Saw s, snd (k s), fst (k s), w)"
| "app_step so (TokenUrlsafe n k) s w =
     (let (v, w') = token_urlsafe n w in Some (Drew v, k v, s, w'))"
| "app_step so (Do p) s w =
     (case step so p w of
        Some (ev, q, w') \<Rightarrow> Some (Effect ev, Do q, s, w')
      | None \<Rightarrow> (case p of Return a \<Rightarrow> Some (Resumed, a, s, w) | Raise e \<Rightarrow> Some (Resumed, Fail e, s, w) | _ \<Rightarrow> None))"

text \<open>Running alone is repeated stepping.\<close>

lemma app_exec_step:
  "app_exec so a (s, w) =
     (case app_step so a s w of
        None \<Rightarrow> app_exec so a (s, w)
      | Some (l, a', s', w') \<Rightarrow> app_exec so a' (s', w'))"
proof (cases a)
  case (Do p)
  show ?thesis
  proof (cases "step so p w")
    case None
    then show ?thesis unfolding Do by (cases p) (auto simp: app_exec_do Let_def case_prod_unfold)
  next
    case (Some u)
    then obtain ev q w1 where u: "step so p w = Some (ev, q, w1)" by (cases u) auto
    then have "exec so p w = exec so q w1" using exec_step [of so p w] by simp
    with u show ?thesis unfolding Do by (auto simp: app_exec_do split: prod.splits sum.splits)
  qed
qed (auto simp: case_prod_unfold Let_def)

inductive app_steps ::
  "'s store_ops \<Rightarrow> (nat \<Rightarrow> 'a app) \<Rightarrow> sessions \<Rightarrow> 's world \<Rightarrow> (nat \<times> label) list \<Rightarrow> (nat \<Rightarrow> 'a app) \<Rightarrow>
   sessions \<Rightarrow> 's world \<Rightarrow> bool" for so A s w where
  adone: "app_steps so A s w [] A s w"
| anext: "app_steps so A s w tr A' s' w' \<Longrightarrow> app_step so (A' i) s' w' = Some (l, a, s'', w'') \<Longrightarrow>
     app_steps so A s w (tr @ [(i, l)]) (A'(i := a)) s'' w''"

section \<open>No session fixation\<close>

definition logged_in :: "sessions \<Rightarrow> pystr \<Rightarrow> bool" where
  "logged_in s session_id \<longleftrightarrow> or_else (s session_id) [] \<noteq> []"

lemma logged_in_update [simp]:
  "logged_in (s(sid \<mapsto> u)) x \<longleftrightarrow> (if x = sid then u \<noteq> [] else logged_in s x)"
  "logged_in (s(sid := None)) x \<longleftrightarrow> x \<noteq> sid \<and> logged_in s x"
  by (auto simp: logged_in_def)

text \<open>
  A handler that logs a session in only under one of the ids \<open>D\<close>, to which it adds, if \<open>grow\<close>, the
  tokens it draws.
\<close>

primrec logs_in_only :: "bool \<Rightarrow> 'a app \<Rightarrow> pystr set \<Rightarrow> bool" where
  "logs_in_only grow (Done x) = (\<lambda>D. True)"
| "logs_in_only grow (Fail e) = (\<lambda>D. True)"
| "logs_in_only grow (Sessions k) = (\<lambda>D. \<forall>s. case map_prod id (logs_in_only grow) (k s) of
     (s', ok) \<Rightarrow> (\<forall>x. logged_in s' x \<longrightarrow> logged_in s x \<or> x \<in> D) \<and> ok D)"
| "logs_in_only grow (TokenUrlsafe n k) =
     (\<lambda>D. \<forall>v. logs_in_only grow (k v) (if grow then insert v D else D))"
| "logs_in_only grow (Do p) = (\<lambda>D. pred_prog (\<lambda>ok. ok D) (map_prog (logs_in_only grow) p))"

lemma logs_in_only_sessions [simp]:
  "logs_in_only grow (Sessions k) D \<longleftrightarrow>
     (\<forall>s. (\<forall>x. logged_in (fst (k s)) x \<longrightarrow> logged_in s x \<or> x \<in> D) \<and> logs_in_only grow (snd (k s)) D)"
  by (simp add: case_prod_unfold)

lemma logs_in_only_do [simp]:
  "logs_in_only grow (Do p) D \<longleftrightarrow> pred_prog (\<lambda>a. logs_in_only grow a D) p"
  by (simp add: prog.pred_map o_def)

declare logs_in_only.simps(3,5) [simp del]

lemma pred_prog_bind: "(\<And>x. pred_prog P (f x)) \<Longrightarrow> pred_prog P (bind p f)"
  by (induction p) auto

lemma pred_prog_try:
  "(\<And>e. pred_prog P (h e)) \<Longrightarrow> (\<And>x. pred_prog P (f x)) \<Longrightarrow> pred_prog P (try_catch p h f)"
  by (induction p) auto

lemma logs_in_only_await [intro!]:
  "(\<And>x. logs_in_only grow (k x) D) \<Longrightarrow> logs_in_only grow (await p k) D"
  "(\<And>e. logs_in_only grow (h e) D) \<Longrightarrow> (\<And>x. logs_in_only grow (k x) D) \<Longrightarrow>
     logs_in_only grow (try_await p h k) D"
  by (auto simp: await_def try_await_def intro!: pred_prog_bind pred_prog_try)

lemma logs_in_only_context [intro!]:
  "(\<And>ctx. logs_in_only grow (k ctx) D) \<Longrightarrow> logs_in_only grow (with_context ap rq sid k) D"
  by (auto simp: with_context_def split: sum.split)

definition login_request :: "http_request \<Rightarrow> bool" where
  "login_request rq \<longleftrightarrow> rq_path rq \<notin> {S ''/dbsc/register'', S ''/dbsc/refresh''} \<and>
     map_of (rq_query rq) (S ''route'') = Some (S ''login'')"

lemma terminate_logs_in: "logs_in_only grow (terminate_session ap ctx r) D"
  by (auto simp: terminate_session_def)

lemma log_in_logs_in: "sid \<in> D \<Longrightarrow> logs_in_only grow (log_in ap rq sid r) D"
  by (auto simp: log_in_def)

lemma route_logs_in:
  assumes "login_request rq \<Longrightarrow> grow \<and> (fresh \<longrightarrow> sid \<in> D)"
  shows "logs_in_only grow (route ap rq sid fresh r) D"
proof (cases "login_request rq")
  case True
  with assms have "logs_in_only grow (login_route ap rq sid fresh r) D"
    by (auto simp: login_route_def new_session_def log_in_logs_in split: option.split)
  with True show ?thesis by (auto simp: route_def login_request_def)
next
  case False
  then show ?thesis
    by (auto simp: route_def login_request_def register_route_def refresh_route_def account_route_def
        logout_route_def Let_def terminate_logs_in split: option.split)
qed

lemma handle_logs_in: "logs_in_only (login_request rq) (handle ap rq) {}"
  by (auto simp: handle_def Let_def new_session_def intro: route_logs_in)

lemma app_step_logs_in:
  assumes "app_step so a s w = Some (l, a', s', w')" and "logs_in_only grow a D"
  shows "logs_in_only grow a' (D \<union> (if grow then {v. l = Drew v} else {})) \<and>
    (\<forall>x. logged_in s' x \<longrightarrow> logged_in s x \<or> x \<in> D)"
proof (cases a)
  case (TokenUrlsafe n k)
  with assms show ?thesis by (auto simp: Let_def case_prod_unfold split: if_splits)
next
  case (Do p)
  then show ?thesis
    using assms by (cases p) (auto simp: Let_def case_prod_unfold)
qed (use assms in auto)

lemma drawn_before_login:
  assumes "app_steps so (\<lambda>i. handle ap (rqs i)) s w tr A s' w'"
  shows "logs_in_only (login_request (rqs i)) (A i) {v. login_request (rqs i) \<and> (i, Drew v) \<in> set tr} \<and>
    (logged_in s' x \<longrightarrow> logged_in s x \<or> (\<exists>j. login_request (rqs j) \<and> (j, Drew x) \<in> set tr))"
  using assms
proof (induction arbitrary: i x rule: app_steps.induct)
  case adone
  then show ?case using handle_logs_in by simp
next
  case (anext tr A s' w' j l a s'' w'')
  let ?D = "\<lambda>tr i. {v. login_request (rqs i) \<and> (i, Drew v) \<in> set tr}"
  have IH: "logs_in_only (login_request (rqs i)) (A i) (?D tr i)" for i using anext.IH by blast
  have step: "logs_in_only (login_request (rqs j)) a
      (?D tr j \<union> (if login_request (rqs j) then {v. l = Drew v} else {}))"
    "\<forall>x. logged_in s'' x \<longrightarrow> logged_in s' x \<or> x \<in> ?D tr j"
    using app_step_logs_in [OF anext.hyps(2) IH] by blast+
  have "?D tr j \<union> (if login_request (rqs j) then {v. l = Drew v} else {}) = ?D (tr @ [(j, l)]) j" by auto
  moreover have "i \<noteq> j \<Longrightarrow> ?D (tr @ [(j, l)]) i = ?D tr i" by auto
  ultimately have "logs_in_only (login_request (rqs i)) ((A(j := a)) i) (?D (tr @ [(j, l)]) i)"
    using step(1) IH [of i] by (cases "i = j") auto
  moreover have "logged_in s x \<or> (\<exists>j. login_request (rqs j) \<and> (j, Drew x) \<in> set tr)" if "logged_in s' x"
    using anext.IH that by blast
  ultimately show ?case using step(2) by auto
qed

section \<open>Two logins at once\<close>

lemma app_steps_one:
  assumes "app_step so (A i) s w = Some (l, a, s', w')"
  shows "app_steps so A s w [(i, l)] (A(i := a)) s' w'"
proof -
  have "app_steps so A s w ([] @ [(i, l)]) (A(i := a)) s' w'"
    by (rule app_steps.anext [where A' = A and i = i, OF app_steps.adone assms])
  then show ?thesis by (simp only: append_Nil)
qed

lemma app_steps_trans:
  assumes "app_steps so A' s' w' us A'' s'' w''" and "app_steps so A s w tr A' s' w'"
  shows "app_steps so A s w (tr @ us) A'' s'' w''"
  using assms
proof (induction rule: app_steps.induct)
  case (anext us B s1 w1 i l a s2 w2)
  from app_steps.anext [OF anext.IH [OF anext.prems] anext.hyps(2)] show ?case by (simp only: append_assoc)
qed (simp only: append_Nil2)

text \<open>A handler that performs the effects of a coroutine while the others wait.\<close>

lemma do_steps_next:
  assumes "A i = Do p" and "step so p w = Some (ev, q, w1)"
    and "\<And>B. B i = Do q \<Longrightarrow> \<exists>tr. app_steps so B s w1 tr (B(i := a)) s w'"
  shows "\<exists>tr. app_steps so A s w tr (A(i := a)) s w'"
proof -
  have "app_steps so A s w [(i, Effect ev)] (A(i := Do q)) s w1"
    using assms(1,2) by (intro app_steps_one) simp
  moreover obtain tr where "app_steps so (A(i := Do q)) s w1 tr ((A(i := Do q))(i := a)) s w'"
    using assms(3) [of "A(i := Do q)"] by auto
  ultimately show ?thesis using app_steps_trans by fastforce
qed

lemma do_steps:
  assumes "exec so p w = (Inr a, w')" and "A i = Do p"
  shows "\<exists>tr. app_steps so A s w tr (A(i := a)) s w'"
  using assms
proof (induction p arbitrary: w A)
  case (Return x)
  then have "app_steps so A s w [(i, Resumed)] (A(i := a)) s w'"
    by (intro app_steps_one) simp
  then show ?case by blast
next
  case (Now k)
  show ?case
    by (rule do_steps_next [where A = A and i = i, OF Now.prems(2)], rule step_cases, rule Now.IH [OF rangeI])
      (use Now.prems in \<open>simp_all add: on_store_def\<close>)
next
  case (TokenHex n k)
  show ?case
    by (rule do_steps_next [where A = A and i = i, OF TokenHex.prems(2)], rule step_cases, rule TokenHex.IH [OF rangeI])
      (use TokenHex.prems in \<open>simp_all add: on_store_def\<close>)
next
  case (Log ev m u k)
  show ?case
    by (rule do_steps_next [where A = A and i = i, OF Log.prems(2)], rule step_cases, rule Log.IH)
      (use Log.prems in \<open>simp_all add: on_store_def\<close>)
next
  case (PutPending sid r k)
  show ?case
    by (rule do_steps_next [where A = A and i = i, OF PutPending.prems(2)], rule step_cases, rule PutPending.IH)
      (use PutPending.prems in \<open>simp_all add: on_store_def\<close>)
next
  case (GetPending sid k)
  show ?case
    by (rule do_steps_next [where A = A and i = i, OF GetPending.prems(2)], rule step_cases, rule GetPending.IH [OF rangeI])
      (use GetPending.prems in \<open>simp_all add: on_store_def\<close>)
next
  case (GetBinding sid k)
  show ?case
    by (rule do_steps_next [where A = A and i = i, OF GetBinding.prems(2)], rule step_cases, rule GetBinding.IH [OF rangeI])
      (use GetBinding.prems in \<open>simp_all add: on_store_def\<close>)
next
  case (DeleteSession sid k)
  show ?case
    by (rule do_steps_next [where A = A and i = i, OF DeleteSession.prems(2)], rule step_cases, rule DeleteSession.IH)
      (use DeleteSession.prems in \<open>simp_all add: on_store_def\<close>)
next
  case (CommitRegistration sid q b k)
  show ?case
    by (rule do_steps_next [where A = A and i = i, OF CommitRegistration.prems(2)], rule step_cases, rule CommitRegistration.IH [OF rangeI])
      (use CommitRegistration.prems in \<open>simp_all add: on_store_def\<close>)
next
  case (ReplaceBinding sid e n k)
  show ?case
    by (rule do_steps_next [where A = A and i = i, OF ReplaceBinding.prems(2)], rule step_cases, rule ReplaceBinding.IH [OF rangeI])
      (use ReplaceBinding.prems in \<open>simp_all add: on_store_def\<close>)
qed simp

lemma await_steps:
  assumes "outcome so p w = Inr x" and "A i = await p k"
  shows "\<exists>tr. app_steps so A s w tr (A(i := k x)) s (after so p w)"
proof (rule do_steps)
  show "A i = Do (bind p (\<lambda>x. Return (k x)))" using assms(2) by (simp add: await_def)
  show "exec so (bind p (\<lambda>x. Return (k x))) w = (Inr (k x), after so p w)"
    using assms(1) by (simp add: exec_bind outcome_def after_def case_prod_unfold)
qed

lemma sessions_steps:
  assumes "A i = Sessions k"
  shows "app_steps so A s w [(i, Saw s)] (A(i := snd (k s))) (fst (k s)) w"
  using assms by (intro app_steps_one) simp

definition replaces_session :: "'k demo_app \<Rightarrow> http_request \<Rightarrow> pystr \<Rightarrow> http_response \<Rightarrow> http_response app" where
  "replaces_session ap rq sid r1 = Sessions (\<lambda>s.
     case s sid of
       None \<Rightarrow> (s, Fail (Exn KeyError sid))
     | Some _ \<Rightarrow> (s(sid := None), new_session ap r1 (\<lambda>session_id' r2. log_in ap rq session_id' r2)))"

context session_store
begin

text \<open>A login with a known session cookie reaches the point where it replaces the session.\<close>

lemma login_reaches_replacement:
  assumes "login_request rq" and "map_of (rq_cookies rq) APP_SESSION_COOKIE = Some sid"
    and "s sid = Some user" and "context_of ap rq sid s = Inr ctx" and "A i = handle ap rq"
  shows "\<exists>tr r1 w'. app_steps so A s w tr (A(i := replaces_session ap rq sid r1)) s w'"
proof -
  let ?D = "replaces_session ap rq sid"
  define B where "B = with_context ap rq sid (\<lambda>old.
      await (bind (revoke (ap_dbsc ap) old False) (apply_response (Response 200))) ?D)"
  have "route ap rq sid False (Response 200) = B"
    using assms(1) by (auto simp: route_def login_request_def login_route_def B_def replaces_session_def [abs_def])
  with assms(2,3,5) have "\<exists>k. A i = Sessions k \<and> k s = (s, B)" by (simp add: handle_def Let_def)
  then obtain k where "A i = Sessions k" "k s = (s, B)" by blast
  with sessions_steps [of A i k so s w] have one: "app_steps so A s w [(i, Saw s)] (A(i := B)) s w" by simp
  let ?p = "bind (revoke (ap_dbsc ap) ctx False) (apply_response (Response 200))"
  have two: "app_steps so (A(i := B)) s w [(i, Saw s)] (A(i := await ?p ?D)) s w"
    using sessions_steps [of "A(i := B)" i _ so s w] assms(4) by (simp add: B_def with_context_def)
  obtain r1 where "outcome so ?p w = Inr r1"
    by (rule revoke_applied [where sv = "ap_dbsc ap" and ctx = ctx and et = False and r = "Response 200" and w = w])
  then obtain tr where "app_steps so (A(i := await ?p ?D)) s w tr (A(i := ?D r1)) s (after so ?p w)"
    using await_steps [of so ?p w r1 "A(i := await ?p ?D)" i ?D s] by auto
  from app_steps_trans [OF app_steps_trans [OF this two] one] show ?thesis by blast
qed

lemma double_login:
  assumes "login_request rq" and "map_of (rq_cookies rq) APP_SESSION_COOKIE = Some sid"
    and "s sid = Some user" and "context_of ap rq sid s = Inr ctx"
  shows "\<exists>tr A s' w'. app_steps so (\<lambda>_. handle ap rq) s w tr A s' w' \<and> A 1 = Fail (Exn KeyError sid)"
proof -
  let ?D = "replaces_session ap rq sid"
  obtain tr0 r0 w0 where r0: "app_steps so (\<lambda>_. handle ap rq) s w tr0 ((\<lambda>_. handle ap rq)(0 := ?D r0)) s w0"
    using login_reaches_replacement [OF assms, of "\<lambda>_. handle ap rq" 0] by blast
  let ?A = "(\<lambda>_. handle ap rq)(0 := ?D r0)"
  have "?A (1 :: nat) = handle ap rq" by simp
  from login_reaches_replacement [where A = ?A and i = 1, OF assms this, of w0] obtain tr1 r1 w1 where
    r1: "app_steps so ?A s w0 tr1 (?A(1 := ?D r1)) s w1" by blast
  let ?B = "?A(1 := ?D r1)" and ?n = "new_session ap r0 (\<lambda>session_id' r2. log_in ap rq session_id' r2)"
  have "app_steps so ?B s w1 [(0, Saw s)] (?B(0 := ?n)) (s(sid := None)) w1"
    using sessions_steps [of ?B 0 _ so s w1] assms(3) by (simp add: replaces_session_def)
  moreover have "app_steps so (?B(0 := ?n)) (s(sid := None)) w1 [(1, Saw (s(sid := None)))]
      (?B(0 := ?n, 1 := Fail (Exn KeyError sid))) (s(sid := None)) w1"
    using sessions_steps [of "?B(0 := ?n)" 1 _ so "s(sid := None)" w1] by (simp add: replaces_session_def)
  ultimately have "app_steps so (\<lambda>_. handle ap rq) s w (((tr0 @ tr1) @ [(0, Saw s)]) @ [(1, Saw (s(sid := None)))])
      (?B(0 := ?n, 1 := Fail (Exn KeyError sid))) (s(sid := None)) w1"
    using app_steps_trans [OF _ app_steps_trans [OF _ app_steps_trans [OF r1 r0]]] by blast
  moreover have "(?B(0 := ?n, 1 := Fail (Exn KeyError sid))) 1 = Fail (Exn KeyError sid)" by simp
  ultimately show ?thesis by blast
qed

end

section \<open>Logging in\<close>

lemma after_clock [simp]: "w_clock (after so p w) = w_clock w"
  by (simp add: after_def exec_clock)

lemma apply_world:
  "w_clock (after so (apply_response r d) w) = w_clock w" "w_entropy (after so (apply_response r d) w) = w_entropy w"
  "w_drawn (after so (apply_response r d) w) = w_drawn w"
  using apply_exec [of so r d w] by (auto simp: after_def)

context session_store
begin

lemma revoke_world:
  "w_entropy (after so (revoke sv ctx et) w) = w_entropy w" "w_drawn (after so (revoke sv ctx et) w) = w_drawn w"
proof -
  have "isinstance e CorruptStateError" if "get_binding so u sid s = Inl e" for u sid s e
    using get_binding_corrupt [OF that] by (simp add: isinstance_def)
  then show "w_entropy (after so (revoke sv ctx et) w) = w_entropy w" "w_drawn (after so (revoke sv ctx et) w) = w_drawn w"
    by (auto simp: after_def revoke_code torn_down_def split: sum.split)
qed

text \<open>Logging a session in offers it a registration.\<close>

lemma log_in_alone:
  assumes "is_origin (ap_origin ap)" and "\<And>k. time_ok (py_int (w_clock w k))"
  shows "\<exists>r' w' q t0. app_exec so (log_in ap rq sid r) (s, w) = (Inr r', s(sid \<mapsto> S ''demo-user''), w') \<and>
    w_store w' = put_pending_registration so t0 sid q (w_store w) \<and> pending_storable q \<and> p_user_id q = S ''demo-user''"
proof -
  obtain ctx where ctx: "context_of ap rq sid (s(sid \<mapsto> S ''demo-user'')) = Inr ctx"
    "rc_session_id ctx = sid" "rc_user_id ctx = S ''demo-user''"
    by (rule context_of_ok [OF assms(1), of rq sid "s(sid \<mapsto> S ''demo-user'')"]) simp
  let ?p = "build_registration_header_response (ap_dbsc ap) ctx" and ?q = "new_offer ctx (draw w 0) (tick w 0)"
  obtain d where d: "outcome so ?p w = Inr d" using offer_completes(1) by blast
  obtain r1 where r1: "outcome so (apply_response r d) (after so ?p w) = Inr r1" using apply_outcome(1) by blast
  have "time_ok (tick w 0)" using assms(2) by (simp add: tick_def reading_def del: py_int_reading)
  then have "pending_storable ?q"
    using ctx(3) by (simp add: new_offer_def pending_storable_def pending_valid_def hex_safe time_ok_int_ok)
  moreover have "w_store (after so (bind ?p (apply_response r)) w) = put_pending_registration so (reading w 1) sid ?q (w_store w)"
    using ctx(2) by (simp add: outcome_bind d apply_outcome offer_completes(2))
  moreover have "\<exists>r'. app_exec so (log_in ap rq sid r) (s, w) =
      (Inr r', s(sid \<mapsto> S ''demo-user''), after so (bind ?p (apply_response r)) w)"
    by (simp add: log_in_def with_context_def ctx app_exec_await outcome_bind d r1)
  ultimately show ?thesis using ctx(3) by (metis new_offer_def pending_registration.select_convs(1))
qed

lemma login_alone:
  assumes "is_origin (ap_origin ap)" and "\<And>k. time_ok (py_int (w_clock w k))"
    and "login_request rq" and "map_of (rq_cookies rq) APP_SESSION_COOKIE = Some sid" and "s sid = Some user"
  defines "new \<equiv> fst (token_urlsafe 32 w)"
  shows "\<exists>r' w' q t0. app_exec so (handle ap rq) (s, w) = (Inr r', s(sid := None, new \<mapsto> S ''demo-user''), w') \<and>
    (\<forall>t. get_binding so t sid (w_store w') = Inr None) \<and> pending_storable q \<and> p_user_id q = S ''demo-user'' \<and>
    (\<forall>t. t \<le> of_int (py_int t0 + pending_ttl) \<longrightarrow> get_pending_registration so t new (w_store w') = Inr (Some q))"
proof -
  obtain ctx where ctx: "context_of ap rq sid s = Inr ctx" "rc_session_id ctx = sid"
    by (rule context_of_ok [OF assms(1), of rq sid s]) simp
  let ?p = "bind (revoke (ap_dbsc ap) ctx False) (apply_response (Response 200))"
  let ?w1 = "after so ?p w"
  obtain r1 where r1: "outcome so ?p w = Inr r1"
    and gone: "\<And>t. get_binding so t sid (w_store ?w1) = Inr None"
    by (rule revoke_applied [where sv = "ap_dbsc ap" and ctx = ctx and et = False and r = "Response 200" and w = w])
      (use ctx(2) in auto)
  have same: "w_entropy ?w1 = w_entropy w" "w_drawn ?w1 = w_drawn w"
    by (simp_all add: outcome_bind revoke_alone(1) revoke_world apply_world)
  then have new: "fst (token_urlsafe 32 ?w1) = new" by (simp add: new_def token_urlsafe_def)
  let ?w2 = "snd (token_urlsafe 32 ?w1)"
  have w2: "w_store ?w2 = w_store ?w1" "w_clock ?w2 = w_clock w" by (simp_all add: token_urlsafe_def)
  let ?r2 = "r1\<lparr>rp_headers := rp_headers r1 @ [(S ''Set-Cookie'', app_cookie ap new)]\<rparr>"
  have "app_exec so (handle ap rq) (s, w) = app_exec so (log_in ap rq new ?r2) (s(sid := None, new \<mapsto> []), ?w2)"
    using assms(3-5)
    by (simp add: handle_def route_def login_request_def login_route_def with_context_def ctx(1) app_exec_await r1
        new_session_def new Let_def)
  moreover obtain r' w' q t0 where
    "app_exec so (log_in ap rq new ?r2) (s(sid := None, new \<mapsto> []), ?w2) =
      (Inr r', (s(sid := None, new \<mapsto> []))(new \<mapsto> S ''demo-user''), w')"
    and w': "w_store w' = put_pending_registration so t0 new q (w_store ?w2)"
    and q: "pending_storable q" "p_user_id q = S ''demo-user''"
    using log_in_alone [OF assms(1), of ?w2 rq new ?r2 "s(sid := None, new \<mapsto> [])"] assms(2) w2(2) by auto
  moreover have "get_binding so t sid (w_store w') = Inr None" for t
    by (simp add: w' w2 get_binding_put_pending gone)
  moreover have "t \<le> of_int (py_int t0 + pending_ttl) \<Longrightarrow> get_pending_registration so t new (w_store w') = Inr (Some q)" for t
    unfolding w' by (rule get_put_pending [OF q(1)])
  ultimately show ?thesis by (metis fun_upd_upd)
qed

lemma logout_alone:
  assumes "is_origin (ap_origin ap)"
  shows "\<exists>r' w'. app_exec so (logout_route ap rq sid r) (s, w) = (Inr r', s(sid \<mapsto> []), w') \<and>
    (\<forall>t. get_binding so t sid (w_store w') = Inr None) \<and>
    (\<forall>t. get_pending_registration so t sid (w_store w') = Inr None)"
proof -
  obtain ctx where ctx: "context_of ap rq sid s = Inr ctx" "rc_session_id ctx = sid"
    by (rule context_of_ok [OF assms(1), of rq sid s]) simp
  let ?p = "bind (revoke (ap_dbsc ap) ctx False) (apply_response r)"
  obtain r1 where "outcome so ?p w = Inr r1" "\<And>t. get_binding so t sid (w_store (after so ?p w)) = Inr None"
    "\<And>t. get_pending_registration so t sid (w_store (after so ?p w)) = Inr None"
    by (rule revoke_applied [where sv = "ap_dbsc ap" and ctx = ctx and et = False and r = r and w = w])
      (use ctx(2) in auto)
  then show ?thesis by (simp add: logout_route_def with_context_def ctx(1) app_exec_await)
qed

end

end
