(* ===== verification/Emit.thy ===== *)
theory Emit
  imports Requests
begin

text \<open>
  What leaves the server: every header value is printable ASCII, every cookie is one the browser
  stores under the \<open>__Host-\<close> rules, and the session instructions are JSON that reads back as what
  was meant.
\<close>

section \<open>Printable text\<close>

lemma sf_safe_visible: "is_sf_string_safe v \<Longrightarrow> list_all visible v"
  by (auto simp: is_sf_string_safe_iff list_all_iff sf_char_def visible_def)

lemma S_visible: "list_all visible (S s) \<longleftrightarrow> list_all (\<lambda>c. visible (of_char c)) s"
  by (simp add: S_def list.pred_map o_def)

lemma in_range_visible: "in_range a b c \<Longrightarrow> visible (of_char a) \<Longrightarrow> visible (of_char b) \<Longrightarrow> visible c"
  by (simp add: in_range_def visible_def)

lemma one_of_visible: "one_of cs c \<Longrightarrow> list_all (\<lambda>d. visible (of_char d)) cs \<Longrightarrow> visible c"
  by (auto simp: one_of_def S_def list_all_iff)

lemma alnum_visible: "alnum_cls c \<Longrightarrow> visible c"
  by (auto simp: alnum_cls_def in_range_def visible_def)

lemma path_visible: "is_path p \<Longrightarrow> list_all visible p"
proof -
  have "visible c" if "path_char c" for c
    using that unfolding path_char_def
  proof (elim disjE)
    assume "one_of ''-._~!$&()*+,;=:@%/'' c"
    then show ?thesis by (rule one_of_visible) (simp add: visible_def)
  qed (erule alnum_visible | simp add: visible_def)+
  then show "is_path p \<Longrightarrow> list_all visible p"
    by (auto simp: is_path_iff list_all_iff visible_def [of 47])
qed

lemma label_visible: "host_label l \<Longrightarrow> list_all visible l"
proof -
  have "visible c" if "label_char c" for c
    using that unfolding label_char_def
    by (elim disjE) (simp add: alnum_visible, erule one_of_visible, simp add: visible_def)
  then show "host_label l \<Longrightarrow> list_all visible l" by (auto simp: host_label_def list_all_iff)
qed

lemma dotted_visible: "dotted_labels h \<Longrightarrow> list_all visible h"
proof -
  have "list_all visible (py_join 46 ls)" if "list_all host_label ls" for ls
    using that by (induction "46::nat" ls rule: py_join.induct) (auto simp: label_visible visible_def [of 46])
  then show "dotted_labels h \<Longrightarrow> list_all visible h" by (auto simp: dotted_labels_def)
qed

lemma port_visible: "port_suffix p \<Longrightarrow> list_all visible p"
  by (auto simp: port_suffix_def list_all_iff S_def visible_def [of 58] digit_cls_def in_range_def)
    (auto simp: visible_def)

lemma host_pattern_visible: "is_host_pattern h \<Longrightarrow> list_all visible h"
  by (auto simp: is_host_pattern_iff dotted_visible port_visible S_visible)
    (simp_all add: visible_def)

lemma origin_visible: "is_origin v \<Longrightarrow> list_all visible v"
proof -
  have addr: "list_all visible a" if "list_all ipv6_char a" for a
  proof -
    have "visible c" if "ipv6_char c" for c
      using that unfolding ipv6_char_def digit_cls_def
      by (elim disjE) (erule in_range_visible one_of_visible, simp add: visible_def, (simp add: visible_def)?)+
    with that show ?thesis by (auto simp: list_all_iff)
  qed
  have "list_all visible h" if "https_host h" for h
    using that by (auto simp: https_host_def dotted_visible addr S_visible visible_def)
  moreover have "list_all visible h" if "loopback_host h" for h
    using that by (auto simp: loopback_host_def S_visible visible_def)
  ultimately show "is_origin v \<Longrightarrow> list_all visible v"
    by (auto simp: is_origin_iff port_visible S_visible) (simp_all add: visible_def)
qed

lemma cookie_name_visible: "is_cookie_name v \<Longrightarrow> list_all visible v"
proof -
  have "visible c" if "cookie_name_char c" for c
    using that unfolding cookie_name_char_def
  proof (elim disjE)
    assume "one_of ''!#$%&*+-.^_|~'' c"
    then show ?thesis by (rule one_of_visible) (simp add: visible_def)
  qed (erule alnum_visible | simp add: visible_def)+
  then show "is_cookie_name v \<Longrightarrow> list_all visible v"
    by (auto simp: is_cookie_name_iff S_visible visible_def elim!: list.pred_mono_strong)
qed

lemma visible_str_ok: "list_all visible v \<Longrightarrow> str_ok v"
  by (rule str_ok_no_surrogates) (auto simp: list_all_iff visible_def is_surrogate_def)


section \<open>Headers and cookies\<close>

text \<open>A header that cannot split a response, and a cookie with the attributes the design relies on.\<close>

definition safe_header :: "pystr \<times> pystr \<Rightarrow> bool" where
  "safe_header h \<longleftrightarrow> list_all visible (fst h) \<and> list_all visible (snd h)"

definition host_cookie :: "config \<Rightarrow> set_cookie \<Rightarrow> bool" where
  "host_cookie cfg c \<longleftrightarrow>
     ck_name c = cfg_cookie_name cfg \<and> is_cookie_value (ck_value c) \<and> ck_path c = S ''/'' \<and>
     ck_secure c \<and> ck_http_only c \<and> ck_same_site c \<in> set SAME_SITE_VALUES"

lemma safe_headers:
  "list_all safe_header NO_STORE"
  "is_sf_string_safe i \<Longrightarrow> safe_header (S ''Sec-Secure-Session-Id'', i)"
  "is_sf_string_safe i \<Longrightarrow> is_sf_string_safe c \<Longrightarrow> list_all safe_header (challenge_headers i c)"
  "is_path (cfg_register_path (sv_config sv)) \<Longrightarrow> is_sf_string_safe c \<Longrightarrow>
     safe_header (S ''Secure-Session-Registration'', registration_header sv c)"
  by (simp_all add: safe_header_def NO_STORE_def challenge_headers_def registration_header_def quoted_def
      ALGORITHM_def S_visible sf_safe_visible path_visible)
    (simp_all add: visible_def)

lemma host_cookies:
  "config_valid cfg \<Longrightarrow> is_cookie_value v \<Longrightarrow>
     host_cookie cfg (Cookie (cfg_cookie_name cfg) v t (cfg_cookie_same_site cfg))"
  "host_cookie cfg (cookie_deletion (cfg_cookie_name cfg))"
  by (simp_all add: host_cookie_def Cookie_def cookie_deletion_def config_valid_def SAME_SITE_VALUES_def)

lemma valid_binding_safe:
  "binding_valid b \<Longrightarrow> is_sf_string_safe (b_session_identifier b)"
  "binding_valid b \<Longrightarrow> is_sf_string_safe (b_challenge b)"
  "binding_valid b \<Longrightarrow> is_cookie_value (b_cookie_value b)"
  by (simp_all add: binding_valid_def)

text \<open>Every successful response of every request has only safe headers and cookies.\<close>

lemma response_safe:
  assumes run: "runs (serve sv r) evs (Inr resp)" and ok: "list_all reply_valid evs"
    and cfg: "config_valid (sv_config sv)"
  shows "list_all safe_header (rs_headers resp) \<and> list_all (host_cookie (sv_config sv)) (rs_cookies resp)"
proof (cases r)
  case (Offer ctx)
  with run obtain c where "is_sf_string_safe c" "resp = empty_response\<lparr>rs_headers :=
      (S ''Secure-Session-Registration'', registration_header sv c) # NO_STORE\<rparr>"
    by (auto simp: offer_iff)
  with cfg show ?thesis by (simp add: empty_response_def safe_headers config_valid_def)
next
  case (Register jwt ctx)
  with run obtain b t where "binding_valid b" "resp = register_response sv ctx b t"
    by (auto simp: register_success_iff)
  with cfg show ?thesis by (simp add: register_response_def safe_headers host_cookies valid_binding_safe)
next
  case (IssueChallenge ctx)
  with run have "issued 3 ctx evs resp"
    by (simp add: issue_refresh_challenge_def MAX_UPDATE_ATTEMPTS_def issue_success)
  then show ?thesis
    using ok unfolding issued_def
  proof (elim disjE exE conjE)
    fix b h now pre
    assume "binding_valid (challenged_binding b h now)" "resp = challenge_403 (b_session_identifier b) h"
    with valid_binding_safe(1,2) [of "challenged_binding b h now"] show ?thesis
      by (simp add: challenge_403_def empty_response_def safe_headers)
  qed (auto simp: challenge_403_def bare_403_def empty_response_def safe_headers valid_binding_safe)
next
  case (Refresh jwt ctx)
  with run have "refreshed 3 sv jwt ctx evs resp"
    by (simp add: refresh_def MAX_UPDATE_ATTEMPTS_def refresh_success)
  then obtain b t where "binding_valid b" "resp = refresh_response sv ctx b t"
    unfolding refreshed_def by blast
  with cfg show ?thesis by (simp add: refresh_response_def safe_headers host_cookies valid_binding_safe)
next
  case (Revoke ctx et)
  with run revoke_success [of sv ctx et evs resp] show ?thesis
    by (simp add: revoke_response_def empty_response_def safe_headers host_cookies)
next
  case (Advertise b ctx)
  with run have "runs (advertise_refresh_challenge sv b ctx) evs (Inr resp)" by simp
  from advertise_conduct [OF this] show ?thesis
    by (auto simp: empty_response_def safe_headers valid_binding_safe)
qed

section \<open>The session instructions\<close>

lemma scope_rule_json:
  "scope_rule_valid r \<Longrightarrow> json_ok (JObj (scope_to_dict r)) \<and> json_depth (JObj (scope_to_dict r)) = 1"
  by (cases r)
    (auto simp: scope_to_dict_def scope_rule_valid_def scope_type_value_def pred_option_def
      visible_str_ok path_visible host_pattern_visible split: option.splits scope_rule_type.splits)

text \<open>The context and the configuration were accepted by their constructors.\<close>

definition instructable :: "'k server \<Rightarrow> request_context \<Rightarrow> bool" where
  "instructable sv ctx \<longleftrightarrow>
     config_valid (sv_config sv) \<and> is_origin (rc_origin_host_url ctx) \<and>
     list_all is_host_pattern (allowed_refresh_initiators sv ctx) \<and>
     list_all scope_rule_valid (scope_specification sv ctx)"

lemma depth_array:
  "list_all (\<lambda>v. json_depth v \<le> d) vs \<Longrightarrow> json_depth (JArr vs) \<le> Suc d"
  by (induction vs) auto

lemma depth_strings: "json_depth (JArr (map JStr xs)) \<le> 1"
  by (induction xs) auto

lemma instructions_ok:
  assumes "instructable sv ctx" and "is_sf_string_safe sid"
  shows "json_ok (JObj (instructions sv sid ctx))" and "json_depth (JObj (instructions sv sid ctx)) \<le> 4"
proof -
  have rules: "list_all (\<lambda>r. json_ok (JObj (scope_to_dict r))) (scope_specification sv ctx)"
    "json_depth (JArr (map (\<lambda>r. JObj (scope_to_dict r)) (scope_specification sv ctx))) \<le> 2"
    using assms(1) scope_rule_json depth_array [of 1]
    by (auto simp: instructable_def list_all_iff numeral_2_eq_2 simp del: json_ok.simps json_depth.simps)
  have hosts: "list_all str_ok (allowed_refresh_initiators sv ctx)"
    using assms(1) visible_str_ok [OF host_pattern_visible]
    by (simp add: instructable_def) (blast intro: list.pred_mono_strong)
  have cfg: "str_ok (cfg_refresh_path (sv_config sv))" "str_ok (cfg_cookie_name (sv_config sv))"
    "str_ok (rc_origin_host_url ctx)" "str_ok sid"
    "str_ok (S ''Path=/; Secure; HttpOnly; SameSite='' @ cfg_cookie_same_site (sv_config sv))"
    using assms(1,2)
    by (auto simp: instructable_def config_valid_def SAME_SITE_VALUES_def sf_safe_visible path_visible
        cookie_name_visible origin_visible simp flip: S_append intro: visible_str_ok)
  show "json_ok (JObj (instructions sv sid ctx))"
    using rules(1) hosts cfg by (simp add: instructions_def Let_def list.pred_map o_def)
  show "json_depth (JObj (instructions sv sid ctx)) \<le> 4"
    using rules(2) depth_strings [of "allowed_refresh_initiators sv ctx"] by (simp add: instructions_def Let_def)
qed

lemma instructions_read_back:
  assumes "instructable sv ctx" and "is_sf_string_safe sid" and "4 \<le> depth"
  shows "loads_object depth (instructions_json sv sid ctx) = Some (instructions sv sid ctx)"
  unfolding instructions_json_def
  using instructions_ok [OF assms(1,2)] assms(3) by (intro loads_object_dumps) simp_all

text \<open>The body of a registration and of a refresh, and the binding that its write stored.\<close>

lemma body_binding:
  assumes "runs (register sv jwt ctx) evs (Inr resp) \<or> runs (refresh sv jwt ctx) evs (Inr resp)"
  shows "\<exists>b. rs_body resp = Some (instructions_json sv (b_session_identifier b) ctx) \<and>
    binding_valid b \<and>
    ((\<exists>q. ECommit (rc_session_id ctx) q b (Inr True) \<in> set evs) \<or>
     (\<exists>e. EReplace (rc_session_id ctx) e b (Inr True) \<in> set evs))"
  using assms
proof
  assume "runs (register sv jwt ctx) evs (Inr resp)"
  then show ?thesis unfolding register_success_iff by (fastforce simp: register_response_def)
next
  assume "runs (refresh sv jwt ctx) evs (Inr resp)"
  then have "refreshed 3 sv jwt ctx evs resp"
    unfolding refresh_def MAX_UPDATE_ATTEMPTS_def by (rule refresh_success)
  then obtain b now ck ch t where "binding_valid (rotated_binding sv b now ck ch)"
    "EReplace (rc_session_id ctx) b (rotated_binding sv b now ck ch) (Inr True) \<in> set evs"
    "resp = refresh_response sv ctx (rotated_binding sv b now ck ch) t"
    unfolding refreshed_def by auto
  then show ?thesis
    by (intro exI [of _ "rotated_binding sv b now ck ch"]) (auto simp: refresh_response_def)
qed

end
