(* ===== verification/DemoWire.thy ===== *)
theory DemoWire
  imports DemoApp Emit
begin

text \<open>
  \<open>Response.encode\<close> of \<open>examples/demo_server.py\<close>: the bytes of a response. A reader that splits the
  head at its line ends gets back the status line and exactly the headers that were set, followed by
  the body: no value can add a header or end the head.
\<close>

section \<open>Encoding\<close>

definition HTTP_PHRASES :: "(int \<times> string) list" where
  "HTTP_PHRASES =
     [(100, ''Continue''), (101, ''Switching Protocols''), (102, ''Processing''), (103, ''Early Hints''),
      (200, ''OK''), (201, ''Created''), (202, ''Accepted''), (203, ''Non-Authoritative Information''),
      (204, ''No Content''), (205, ''Reset Content''), (206, ''Partial Content''), (207, ''Multi-Status''),
      (208, ''Already Reported''), (226, ''IM Used''), (300, ''Multiple Choices''),
      (301, ''Moved Permanently''), (302, ''Found''), (303, ''See Other''), (304, ''Not Modified''),
      (305, ''Use Proxy''), (307, ''Temporary Redirect''), (308, ''Permanent Redirect''),
      (400, ''Bad Request''), (401, ''Unauthorized''), (402, ''Payment Required''), (403, ''Forbidden''),
      (404, ''Not Found''), (405, ''Method Not Allowed''), (406, ''Not Acceptable''),
      (407, ''Proxy Authentication Required''), (408, ''Request Timeout''), (409, ''Conflict''), (410, ''Gone''),
      (411, ''Length Required''), (412, ''Precondition Failed''), (413, ''Content Too Large''),
      (414, ''URI Too Long''), (415, ''Unsupported Media Type''), (416, ''Range Not Satisfiable''),
      (417, ''Expectation Failed''), (418, ''I'm a Teapot''), (421, ''Misdirected Request''),
      (422, ''Unprocessable Content''), (423, ''Locked''), (424, ''Failed Dependency''), (425, ''Too Early''),
      (426, ''Upgrade Required''), (428, ''Precondition Required''), (429, ''Too Many Requests''),
      (431, ''Request Header Fields Too Large''), (451, ''Unavailable For Legal Reasons''),
      (500, ''Internal Server Error''), (501, ''Not Implemented''), (502, ''Bad Gateway''),
      (503, ''Service Unavailable''), (504, ''Gateway Timeout''), (505, ''HTTP Version Not Supported''),
      (506, ''Variant Also Negotiates''), (507, ''Insufficient Storage''), (508, ''Loop Detected''),
      (510, ''Not Extended''), (511, ''Network Authentication Required'')]"

definition http_phrase :: "int \<Rightarrow> pystr result" where
  "http_phrase status =
     (case map_of HTTP_PHRASES status of
        Some reason \<Rightarrow> Inr (S reason)
      | None \<Rightarrow> Inl (Exn ValueError (py_int_str status @ S '' is not a valid HTTPStatus'')))"

text \<open>\<open>s.encode("latin-1")\<close>\<close>

definition latin1 :: "pystr \<Rightarrow> bytes result" where
  "latin1 s =
     (if list_all (\<lambda>c. c < 256) s then Inr s
      else Inl (Exn UnicodeEncodeError (S ''ordinal not in range(256)'')))"

definition DEFAULT_HEADERS :: "(pystr \<times> pystr) list" where
  "DEFAULT_HEADERS =
     [(S ''Content-Type'', S ''text/html; charset=utf-8''),
      (S ''Cache-Control'', S ''no-store''),
      (S ''X-Content-Type-Options'', S ''nosniff''),
      (S ''Content-Security-Policy'', S ''default-src 'none'; frame-ancestors '' @ [39] @ S ''none'' @ [39]),
      (S ''Referrer-Policy'', S ''no-referrer'')]"

definition CRLF :: pystr where
  "CRLF = [13, 10]"

definition header_line :: "pystr \<times> pystr \<Rightarrow> pystr" where
  "header_line h = fst h @ S '': '' @ snd h"

definition all_headers :: "http_response \<Rightarrow> nat \<Rightarrow> (pystr \<times> pystr) list" where
  "all_headers r body_length =
     (let hs = rp_headers r @
            [(S ''Content-Length'', py_int_str (int body_length)), (S ''Connection'', S ''close'')];
          present = map (\<lambda>(name, _). py_lower name) hs in
      hs @ filter (\<lambda>(name, _). py_lower name \<notin> set present) DEFAULT_HEADERS)"

definition status_line :: "int \<Rightarrow> pystr \<Rightarrow> pystr" where
  "status_line status reason = S ''HTTP/1.1 '' @ py_int_str status @ S '' '' @ reason"

definition encode :: "http_response \<Rightarrow> bytes result" where
  "encode r =
     bind_res (http_phrase (rp_status r)) (\<lambda>reason.
     bind_res (py_encode (rp_body r)) (\<lambda>body.
     let head = status_line (rp_status r) reason @ CRLF @
           concat (map (\<lambda>h. header_line h @ CRLF) (all_headers r (length body))) in
     bind_res (latin1 head) (\<lambda>head_bytes. Inr (head_bytes @ CRLF @ body))))"

section \<open>Reading the head back\<close>

text \<open>A line is what comes before the first carriage return and line feed.\<close>

fun split_line :: "bytes \<Rightarrow> (bytes \<times> bytes) option" where
  "split_line (c # d # r) =
     (if c = 13 \<and> d = 10 then Some ([], r)
      else map_option (\<lambda>(l, q). (c # l, q)) (split_line (d # r)))"
| "split_line _ = None"

lemma split_line_shorter: "split_line s = Some (l, r) \<Longrightarrow> length r < length s"
proof (induction s arbitrary: l r rule: split_line.induct)
  case (1 c d s)
  show ?case
  proof (cases "c = 13 \<and> d = 10")
    case True
    with "1.prems" show ?thesis by auto
  next
    case False
    with "1.prems" obtain l' where "split_line (d # s) = Some (l', r)" by (auto simp del: split_line.simps) (auto split: if_splits)
    from "1.IH" [OF False this] show ?thesis by simp
  qed
qed simp_all

function read_head :: "bytes \<Rightarrow> (bytes list \<times> bytes) option" where
  "read_head s =
     (case split_line s of
        None \<Rightarrow> None
      | Some (l, r) \<Rightarrow>
          if l = [] then Some ([], r)
          else map_option (\<lambda>(ls, body). (l # ls, body)) (read_head r))"
  by pat_completeness auto
termination
  by (relation "measure length") (auto dest: split_line_shorter)

declare read_head.simps [simp del]

lemma split_line_append: "13 \<notin> set l \<Longrightarrow> split_line (l @ CRLF @ r) = Some (l, r)"
proof (induction l)
  case (Cons c l)
  then show ?case by (cases l) (auto simp: CRLF_def)
qed (simp add: CRLF_def)

lemma read_head_lines:
  "list_all (\<lambda>l. l \<noteq> [] \<and> 13 \<notin> set l) ls \<Longrightarrow>
     read_head (concat (map (\<lambda>l. l @ CRLF) ls) @ CRLF @ body) = Some (ls, body)"
proof (induction ls)
  case Nil
  have "split_line ([] @ CRLF @ body) = Some ([], body)" by (rule split_line_append) simp
  then show ?case by (simp add: read_head.simps)
next
  case (Cons l ls)
  then show ?case
    by (subst read_head.simps) (simp add: split_line_append)
qed

lemma visible_line: "list_all visible l \<Longrightarrow> 13 \<notin> set l \<and> list_all (\<lambda>c. c < 256) l"
  by (auto simp: list_all_iff visible_def)

lemma phrase_visible: "http_phrase status = Inr reason \<Longrightarrow> list_all visible reason"
proof -
  have "list_all (\<lambda>(n, p). list_all (\<lambda>c. visible (of_char c)) p) HTTP_PHRASES"
    by (simp add: HTTP_PHRASES_def visible_def)
  then show "http_phrase status = Inr reason \<Longrightarrow> list_all visible reason"
    by (auto simp: http_phrase_def list_all_iff [of _ HTTP_PHRASES] S_visible split: option.splits
        dest!: map_of_SomeD)
qed

lemma header_line_visible: "safe_header h \<Longrightarrow> list_all visible (header_line h) \<and> header_line h \<noteq> []"
  by (simp add: safe_header_def header_line_def pystr_eval visible_def)

lemma all_headers_safe: "list_all safe_header (rp_headers r) \<Longrightarrow> list_all safe_header (all_headers r n)"
proof -
  have "list_all safe_header DEFAULT_HEADERS" by code_simp
  moreover have "safe_header (S ''Content-Length'', py_int_str (int n))" "safe_header (S ''Connection'', S ''close'')"
    by (simp_all add: safe_header_def int_text_visible S_visible) (simp_all add: visible_def)
  ultimately show "list_all safe_header (rp_headers r) \<Longrightarrow> list_all safe_header (all_headers r n)"
    by (auto simp: all_headers_def Let_def list_all_iff)
qed

lemma encode_reads_back:
  assumes "list_all safe_header (rp_headers r)" and "http_phrase (rp_status r) = Inr reason"
    and "encodable (rp_body r)"
  shows "\<exists>bs. encode r = Inr bs \<and> read_head bs = Some
    (status_line (rp_status r) reason #
     map header_line (all_headers r (length (utf8 (rp_body r)))), utf8 (rp_body r))"
proof -
  let ?body = "utf8 (rp_body r)"
  let ?lines = "status_line (rp_status r) reason # map header_line (all_headers r (length ?body))"
  have "list_all visible (status_line (rp_status r) reason)"
    using phrase_visible [OF assms(2)] by (simp add: status_line_def int_text_visible pystr_eval visible_def)
  moreover have "status_line (rp_status r) reason \<noteq> []" by (simp add: status_line_def pystr_eval)
  moreover have "list_all (\<lambda>h. list_all visible (header_line h) \<and> header_line h \<noteq> []) (all_headers r (length ?body))"
    by (rule list.pred_mono_strong [OF all_headers_safe [OF assms(1)]]) (rule header_line_visible)
  ultimately have vis: "list_all (\<lambda>l. list_all visible l \<and> l \<noteq> []) ?lines"
    by (simp add: list.pred_map o_def)
  then have "list_all (\<lambda>l. l \<noteq> [] \<and> 13 \<notin> set l) ?lines"
    by (rule list.pred_mono_strong) (use visible_line in blast)
  from read_head_lines [OF this, of ?body] have
    "read_head (concat (map (\<lambda>l. l @ CRLF) ?lines) @ CRLF @ ?body) = Some (?lines, ?body)" .
  moreover have "list_all (\<lambda>c. c < 256) (concat (map (\<lambda>l. l @ CRLF) ?lines))"
    using vis visible_line by (fastforce simp: list_all_iff CRLF_def)
  moreover have "concat (map (\<lambda>l. l @ CRLF) ?lines) = status_line (rp_status r) reason @ CRLF @
      concat (map (\<lambda>h. header_line h @ CRLF) (all_headers r (length ?body)))"
    by (simp add: o_def)
  moreover have "py_encode (rp_body r) = Inr ?body" using assms(3) by (simp add: py_encode_def encodable_def)
  ultimately show ?thesis using assms(2) by (simp only: encode_def bind_res_simps Let_def latin1_def if_True) simp
qed

end
