(* ===== verification/HttpText.thy ===== *)
theory HttpText
  imports Codec "HOL-Library.AList"
begin

text \<open>
  What \<open>read_request\<close> of \<open>examples/demo_server.py\<close> uses of Python's standard library: the text
  methods around a header line, \<open>int()\<close>, \<open>urlsplit\<close> and \<open>parse_qs\<close> of \<open>urllib.parse\<close>, and
  \<open>SimpleCookie\<close> of \<open>http.cookies\<close>, as CPython 3.14 has them. The text comes from bytes decoded as
  Latin-1, so every character is below 256. A dictionary is an association list in insertion order,
  and setting a key that is there keeps its place.
\<close>

section \<open>Lines and numbers\<close>

text \<open>\<open>s.rstrip("\r\n")\<close>\<close>

definition rstrip_newlines :: "pystr \<Rightarrow> pystr" where
  "rstrip_newlines s = rev (dropWhile (\<lambda>c. c = 13 \<or> c = 10) (rev s))"

text \<open>\<open>s.partition(sep)\<close> for a one-character separator: whether it is there tells the middle part.\<close>

definition py_partition :: "nat \<Rightarrow> pystr \<Rightarrow> pystr \<times> bool \<times> pystr" where
  "py_partition c s = (takeWhile (\<lambda>d. d \<noteq> c) s, c \<in> set s, tl (dropWhile (\<lambda>d. d \<noteq> c) s))"

text \<open>The blanks that \<open>int()\<close> takes in Latin-1 text; unlike \<open>strip()\<close> it does not take 28 to 31.\<close>

definition int_space :: "nat \<Rightarrow> bool" where
  "int_space c \<longleftrightarrow> c = 32 \<or> (9 \<le> c \<and> c \<le> 13) \<or> c = 133 \<or> c = 160"

text \<open>
  \<open>int(s)\<close>: blanks around it, a sign, digits with single underscores between them, and at most 4300
  digits; \<open>None\<close> for its \<open>ValueError\<close>.
\<close>

definition py_int_of_str :: "pystr \<Rightarrow> int option" where
  "py_int_of_str s =
     (let w = strip_by int_space s;
          signed = w \<noteq> [] \<and> (hd w = 43 \<or> hd w = 45);
          groups = py_split 95 (if signed then tl w else w);
          digits = concat groups in
      if list_all (\<lambda>g. g \<noteq> [] \<and> list_all is_digit g) groups \<and> length digits \<le> max_str_digits
      then Some (if signed \<and> hd w = 45 then - int (dec_value digits) else int (dec_value digits))
      else None)"

section \<open>URLs\<close>

text \<open>
  \<open>bs.decode("utf-8", "replace")\<close>: each maximal part of a sequence that is not well formed becomes one
  U+FFFD.
\<close>

definition second_ok :: "nat \<Rightarrow> nat \<Rightarrow> bool" where
  "second_ok a b \<longleftrightarrow>
     (if a = 224 then 160 \<le> b \<and> b < 192
      else if a = 237 then 128 \<le> b \<and> b < 160
      else if a = 240 then 144 \<le> b \<and> b < 192
      else if a = 244 then 128 \<le> b \<and> b < 144
      else is_cont b)"

fun utf8_replace :: "bytes \<Rightarrow> pystr" where
  "utf8_replace [] = []"
| "utf8_replace (a # r) =
     (if a < 128 then a # utf8_replace r
      else if 194 \<le> a \<and> a < 245 then
        (case r of
           [] \<Rightarrow> [65533]
         | b # r1 \<Rightarrow>
             if \<not> second_ok a b then 65533 # utf8_replace r
             else if a < 224 then ((a - 192) * 64 + (b - 128)) # utf8_replace r1
             else (case r1 of
                [] \<Rightarrow> [65533]
              | c # r2 \<Rightarrow>
                  if \<not> is_cont c then 65533 # utf8_replace r1
                  else if a < 240
                  then (((a - 224) * 64 + (b - 128)) * 64 + (c - 128)) # utf8_replace r2
                  else (case r2 of
                     [] \<Rightarrow> [65533]
                   | d # r3 \<Rightarrow>
                       if \<not> is_cont d then 65533 # utf8_replace r2
                       else ((((a - 240) * 64 + (b - 128)) * 64 + (c - 128)) * 64 + (d - 128)) #
                         utf8_replace r3)))
      else 65533 # utf8_replace r)"

text \<open>\<open>unquote_to_bytes\<close> on ASCII text, and \<open>unquote\<close>, which leaves other characters alone.\<close>

fun unquote_bytes :: "pystr \<Rightarrow> bytes" where
  "unquote_bytes (c # h # l # r) =
     (if c = 37 then
        (case (hex_val h, hex_val l) of
           (Some a, Some b) \<Rightarrow> (16 * a + b) # unquote_bytes r
         | _ \<Rightarrow> c # unquote_bytes (h # l # r))
      else c # unquote_bytes (h # l # r))"
| "unquote_bytes s = s"

function unquote :: "pystr \<Rightarrow> pystr" where
  "unquote s =
     (case s of
        [] \<Rightarrow> []
      | c # r \<Rightarrow>
          if c < 128
          then utf8_replace (unquote_bytes (takeWhile (\<lambda>c. c < 128) s)) @ unquote (dropWhile (\<lambda>c. c < 128) s)
          else c # unquote r)"
  by pat_completeness auto
termination
  by (relation "measure length") (auto simp: le_imp_less_Suc length_dropWhile_le)

declare unquote.simps [simp del]

definition unquote_plus :: "pystr \<Rightarrow> pystr" where
  "unquote_plus s = unquote (map (\<lambda>c. if c = 43 then 32 else c) s)"

text \<open>\<open>parse_qs\<close> before its values are grouped by name: pairs without a value are dropped.\<close>

definition parse_qsl :: "pystr \<Rightarrow> (pystr \<times> pystr) list" where
  "parse_qsl qs =
     concat (map (\<lambda>pair. let (name, _, v) = py_partition 61 pair in
       if v = [] then [] else [(unquote_plus name, unquote_plus v)]) (py_split 38 qs))"

text \<open>\<open>{k: v[0] for k, v in parse_qs(qs).items()}\<close>: the first value of each name.\<close>

definition first_values :: "(pystr \<times> pystr) list \<Rightarrow> (pystr \<times> pystr) list" where
  "first_values = foldl (\<lambda>d (k, v). if map_of d k = None then d @ [(k, v)] else d) []"

text \<open>
  \<open>urlsplit(url)\<close>, of which the path and the query are used. \<open>netloc_ok\<close> is the check of a bracketed
  host with the module \<open>ipaddress\<close>.
\<close>

definition scheme_char :: "nat \<Rightarrow> bool" where
  "scheme_char c \<longleftrightarrow> alnum_cls c \<or> c = 43 \<or> c = 45 \<or> c = 46"

definition ascii_alpha :: "nat \<Rightarrow> bool" where
  "ascii_alpha c \<longleftrightarrow> (65 \<le> c \<and> c \<le> 90) \<or> (97 \<le> c \<and> c \<le> 122)"

definition after_scheme :: "pystr \<Rightarrow> pystr" where
  "after_scheme url =
     (let (scheme, colon, rest) = py_partition 58 url in
      if colon \<and> scheme \<noteq> [] \<and> ascii_alpha (hd url) \<and> list_all scheme_char scheme then rest else url)"

definition urlsplit :: "(pystr \<Rightarrow> bool) \<Rightarrow> pystr \<Rightarrow> (pystr \<times> pystr) result" where
  "urlsplit netloc_ok target =
     (let url = filter (\<lambda>c. c \<notin> {9, 10, 13}) (dropWhile (\<lambda>c. c \<le> 32) target);
          url1 = after_scheme url;
          delim = (\<lambda>c. c \<noteq> 47 \<and> c \<noteq> 63 \<and> c \<noteq> 35);
          netloc = (if take 2 url1 = [47, 47] then takeWhile delim (drop 2 url1) else []);
          url2 = (if take 2 url1 = [47, 47] then dropWhile delim (drop 2 url1) else url1);
          (url3, _, _) = py_partition 35 url2;
          (path, _, query) = py_partition 63 url3 in
      if (91 \<in> set netloc) \<noteq> (93 \<in> set netloc) \<or> 91 \<in> set netloc \<and> \<not> netloc_ok netloc
      then Inl (Exn ValueError (S ''Invalid IPv6 URL''))
      else Inr (path, query))"

section \<open>Cookies\<close>

text \<open>
  One match of \<open>_CookiePattern\<close>. Its key is lazy and everything else is greedy, but each part ends
  where a character of the next one begins, so that a match needs no search beyond the length of the key.
\<close>

definition ascii_space :: "nat \<Rightarrow> bool" where
  "ascii_space c \<longleftrightarrow> c = 32 \<or> (9 \<le> c \<and> c \<le> 13)"

definition word_char :: "nat \<Rightarrow> bool" where
  "word_char c \<longleftrightarrow> alnum_cls c \<or> c = 95"

definition cookie_key_char :: "nat \<Rightarrow> bool" where
  "cookie_key_char c \<longleftrightarrow> word_char c \<or> one_of ''!#%&~`><@,:/$*+-.^|)(?}{='' c \<or> c = 39"

definition cookie_value_char :: "nat \<Rightarrow> bool" where
  "cookie_value_char c \<longleftrightarrow> cookie_key_char c \<or> c = 91 \<or> c = 93"

text \<open>What is left after \<open>\s*(\s+|;|$)\<close>.\<close>

definition cookie_end :: "pystr \<Rightarrow> pystr option" where
  "cookie_end s =
     (let r = dropWhile ascii_space s in
      if r = [] then Some [] else if hd r = 59 then Some (tl r) else if r \<noteq> s then Some r else None)"

text \<open>\<open>"(?:[^\\"]|\\.)*"\<close>, from after the opening quote: what is between the quotes, and the rest.\<close>

fun quoted_value :: "pystr \<Rightarrow> (pystr \<times> pystr) option" where
  "quoted_value [] = None"
| "quoted_value (c # r) =
     (if c = 34 then Some ([], r)
      else if c = 92 then
        (case r of
           [] \<Rightarrow> None
         | d # r' \<Rightarrow> if d = 10 then None else map_option (\<lambda>(v, q). (c # d # v, q)) (quoted_value r'))
      else map_option (\<lambda>(v, q). (c # v, q)) (quoted_value r))"

text \<open>\<open>(\w{3,6}day|\w{3}),\s[\w\d\s-]{9,11}\s[\d:]{8}\sGMT\<close>: at most one length can match.\<close>

definition date_value :: "pystr \<Rightarrow> (pystr \<times> pystr) option" where
  "date_value s =
     (let (day, comma, r) = py_partition 44 s;
          day_ok = list_all word_char day \<and>
            (length day = 3 \<or> 6 \<le> length day \<and> length day \<le> 9 \<and> drop (length day - 3) day = S ''day'');
          fits = (\<lambda>n. length r \<ge> n + 14 \<and> ascii_space (r ! 0) \<and>
            list_all (\<lambda>c. word_char c \<or> ascii_space c \<or> c = 45) (take n (drop 1 r)) \<and>
            ascii_space (r ! (n + 1)) \<and> list_all (\<lambda>c. is_digit c \<or> c = 58) (take 8 (drop (n + 2) r)) \<and>
            ascii_space (r ! (n + 10)) \<and> take 3 (drop (n + 11) r) = S ''GMT'') in
      if comma \<and> day_ok then
        map_option (\<lambda>n. (day @ 44 # take (n + 14) r, drop (n + 14) r)) (find fits [11, 10, 9])
      else None)"

definition then_end :: "pystr \<times> pystr \<Rightarrow> (pystr \<times> pystr) option" where
  "then_end u = map_option (Pair (fst u)) (cookie_end (snd u))"

definition or_try :: "'a option \<Rightarrow> 'a option \<Rightarrow> 'a option" where
  "or_try a b = (case a of None \<Rightarrow> b | Some x \<Rightarrow> Some x)"

text \<open>
  The optional group with the value, and the end of the match. If no value fits, the blanks after the
  equals sign can still stand between an empty value and the end.
\<close>

definition cookie_value :: "pystr \<Rightarrow> (pystr \<times> pystr) option" where
  "cookie_value s =
     (let r1 = dropWhile ascii_space s in
      if r1 = [] \<or> hd r1 \<noteq> 61 then None
      else
        let r2 = tl r1; r3 = dropWhile ascii_space r2;
            quoted = (if r3 \<noteq> [] \<and> hd r3 = 34
              then map_option (\<lambda>(v, q). (34 # v @ [34], q)) (quoted_value (tl r3)) else None);
            plain = (takeWhile cookie_value_char r3, dropWhile cookie_value_char r3) in
        or_try (Option.bind quoted then_end)
          (or_try (Option.bind (date_value r3) then_end)
            (or_try (then_end plain) (if r3 \<noteq> r2 then Some ([], r3) else None))))"

text \<open>\<open>_unquote\<close>: the text between two quotes, with its escapes.\<close>

definition octal :: "nat \<Rightarrow> bool" where
  "octal c \<longleftrightarrow> 48 \<le> c \<and> c \<le> 55"

fun cookie_unescape :: "pystr \<Rightarrow> pystr" where
  "cookie_unescape (e # a # b # c # r) =
     (if e = 92 \<and> octal a \<and> a \<le> 51 \<and> octal b \<and> octal c
      then (64 * (a - 48) + 8 * (b - 48) + (c - 48)) # cookie_unescape r
      else if e = 92 \<and> a \<noteq> 10 then a # cookie_unescape (b # c # r)
      else e # cookie_unescape (a # b # c # r))"
| "cookie_unescape (e # a # r) =
     (if e = 92 \<and> a \<noteq> 10 then a # cookie_unescape r else e # cookie_unescape (a # r))"
| "cookie_unescape s = s"

definition cookie_unquote :: "pystr \<Rightarrow> pystr" where
  "cookie_unquote s =
     (if length s < 2 \<or> hd s \<noteq> 34 \<or> last s \<noteq> 34 then s else cookie_unescape (butlast (tl s)))"

text \<open>
  \<open>__parse_string\<close>: the attributes and the pairs in order, or \<open>None\<close> where it gives up on the whole
  header.
\<close>

datatype cookie_item = Attribute pystr | KeyValue pystr pystr

definition RESERVED_COOKIE_NAMES :: "pystr list" where
  "RESERVED_COOKIE_NAMES = map S [''expires'', ''path'', ''comment'', ''domain'', ''max-age'', ''secure'',
     ''httponly'', ''version'', ''samesite'', ''partitioned'']"

definition COOKIE_FLAGS :: "pystr list" where
  "COOKIE_FLAGS = map S [''secure'', ''httponly'', ''partitioned'']"

lemma cookie_end_length: "cookie_end s = Some r \<Longrightarrow> length r \<le> length s"
  using length_dropWhile_le [of ascii_space s]
  by (auto simp: cookie_end_def Let_def split: if_splits)

lemma then_end_length: "then_end u = Some (v, r) \<Longrightarrow> length r \<le> length (snd u)"
  by (auto simp: then_end_def dest: cookie_end_length)

lemma quoted_value_length: "quoted_value s = Some (v, r) \<Longrightarrow> length r \<le> length s"
  by (induction s arbitrary: v r rule: quoted_value.induct)
    (fastforce split: if_splits list.splits)+

lemma date_value_length:
  assumes "date_value s = Some (v, r)"
  shows "length r \<le> length s"
proof -
  define day and rest where "day = takeWhile (\<lambda>d. d \<noteq> 44) s" and "rest = tl (dropWhile (\<lambda>d. d \<noteq> 44) s)"
  have "\<exists>n. r = drop n rest"
    using assms unfolding date_value_def py_partition_def Let_def prod.case day_def [symmetric] rest_def [symmetric]
    by (simp only: split: if_splits) blast+
  moreover have "length rest \<le> length s"
    using length_dropWhile_le [of "\<lambda>d. d \<noteq> 44" s] by (simp add: rest_def)
  ultimately show ?thesis by auto
qed

lemma or_try_eq_Some: "or_try a b = Some x \<longleftrightarrow> a = Some x \<or> a = None \<and> b = Some x"
  by (auto simp: or_try_def split: option.split)

lemma cookie_value_length:
  assumes "cookie_value s = Some (v, r)"
  shows "length r \<le> length s"
proof -
  define r1 where "r1 = dropWhile ascii_space s"
  define r3 where "r3 = dropWhile ascii_space (tl r1)"
  have len: "length r3 \<le> length s" "length (tl r3) \<le> length s" "length (dropWhile cookie_value_char r3) \<le> length s"
    using length_dropWhile_le [of ascii_space s] length_dropWhile_le [of ascii_space "tl r1"]
      length_dropWhile_le [of cookie_value_char r3]
    by (simp_all add: r1_def r3_def)
  from assms consider
      v' q where "quoted_value (tl r3) = Some (v', q)" "then_end (34 # v' @ [34], q) = Some (v, r)"
    | u where "date_value r3 = Some u" "then_end u = Some (v, r)"
    | "then_end (takeWhile cookie_value_char r3, dropWhile cookie_value_char r3) = Some (v, r)"
    | "r = r3"
    unfolding cookie_value_def Let_def r1_def [symmetric] r3_def [symmetric]
    by (simp only: or_try_eq_Some bind_eq_Some_conv map_option_eq_Some split: if_splits) auto
  then show ?thesis
  proof cases
    case (1 v' q)
    then show ?thesis using len quoted_value_length [OF 1(1)] then_end_length [OF 1(2)] by simp
  next
    case (2 u)
    then show ?thesis using len date_value_length [of r3 "fst u" "snd u"] then_end_length [OF 2(2)] by simp
  next
    case 3
    then show ?thesis using len then_end_length [OF 3] by simp
  qed (use len in simp)
qed

lemma foldr_or_try: "foldr (\<lambda>k. or_try (f k)) ks None = Some x \<Longrightarrow> \<exists>k \<in> set ks. f k = Some x"
  by (induction ks) (auto simp: or_try_eq_Some)

definition cookie_at :: "pystr \<Rightarrow> nat \<Rightarrow> (pystr \<times> pystr option \<times> pystr) option" where
  "cookie_at s k =
     or_try (map_option (\<lambda>(v, q). (take k s, Some v, q)) (cookie_value (drop k s)))
       (map_option (\<lambda>q. (take k s, None, q)) (cookie_end (drop k s)))"

definition cookie_match :: "pystr \<Rightarrow> (pystr \<times> pystr option \<times> pystr) option" where
  "cookie_match s =
     (let s1 = dropWhile ascii_space s in
      foldr (\<lambda>k. or_try (cookie_at s1 k)) [1 ..< Suc (length (takeWhile cookie_key_char s1))] None)"

lemma cookie_match_length:
  assumes "cookie_match s = Some (k, v, r)"
  shows "length r < length s"
proof -
  let ?s1 = "dropWhile ascii_space s"
  obtain n where n: "n \<in> set [1 ..< Suc (length (takeWhile cookie_key_char ?s1))]"
    and at: "cookie_at ?s1 n = Some (k, v, r)"
    using foldr_or_try [OF assms [unfolded cookie_match_def Let_def]] by blast
  have "length r \<le> length (drop n ?s1)"
    using at by (auto simp: cookie_at_def or_try_eq_Some dest: cookie_value_length cookie_end_length simp del: length_drop)
  moreover have "length (takeWhile cookie_key_char ?s1) \<le> length ?s1" by (rule length_takeWhile_le)
  ultimately show ?thesis using n length_dropWhile_le [of ascii_space s] by auto
qed

function cookie_items :: "bool \<Rightarrow> pystr \<Rightarrow> cookie_item list option" where
  "cookie_items seen s =
     (case cookie_match s of
        None \<Rightarrow> Some []
      | Some (key, v, rest) \<Rightarrow>
          if hd key = 36 then
            (if seen then map_option ((#) (Attribute (tl key))) (cookie_items seen rest)
             else cookie_items seen rest)
          else if py_lower key \<in> set RESERVED_COOKIE_NAMES then
            (if seen \<and> (v \<noteq> None \<or> py_lower key \<in> set COOKIE_FLAGS)
             then map_option ((#) (Attribute key)) (cookie_items seen rest) else None)
          else
            (case v of
               None \<Rightarrow> None
             | Some coded \<Rightarrow> map_option ((#) (KeyValue key (cookie_unquote coded))) (cookie_items True rest)))"
  by pat_completeness auto
termination
  by (relation "measure (\<lambda>(_, s). length s)") (auto dest: cookie_match_length)

declare cookie_items.simps [simp del]

definition legal_cookie_name :: "pystr \<Rightarrow> bool" where
  "legal_cookie_name key \<longleftrightarrow>
     key \<noteq> [] \<and> list_all (\<lambda>c. alnum_cls c \<or> one_of ''!#$%&*+-.^_`|~:'' c \<or> c = 39) key"

text \<open>
  \<open>with suppress(CookieError): jar.load(s)\<close>, then the names with their values: what was set before an
  illegal name or attribute stays.
\<close>

fun jar_of :: "cookie_item list \<Rightarrow> (pystr \<times> pystr) list \<Rightarrow> (pystr \<times> pystr) list" where
  "jar_of [] jar = jar"
| "jar_of (Attribute name # items) jar =
     (if py_lower name \<in> set RESERVED_COOKIE_NAMES then jar_of items jar else jar)"
| "jar_of (KeyValue key v # items) jar =
     (if legal_cookie_name key then jar_of items (AList.update key v jar) else jar)"

definition load_cookies :: "pystr \<Rightarrow> (pystr \<times> pystr) list" where
  "load_cookies s = (case cookie_items False s of None \<Rightarrow> [] | Some items \<Rightarrow> jar_of items [])"

end
