(* ===== verification/DemoRequest.thy ===== *)
theory DemoRequest
  imports HttpText DemoWire
begin

text \<open>
  \<open>read_request\<close> of \<open>examples/demo_server.py\<close> and what \<open>serve\<close> does with one connection: reading the
  head of a request from the bytes that arrive, handling it, and the answer when either fails.
\<close>

section \<open>Reading a connection\<close>

text \<open>
  The bytes the server gets to read, and how they end: the client ends the stream, falls silent, which the
  timeout around the read turns into a \<open>TimeoutError\<close>, or resets the connection.
\<close>

datatype stream_end = AtEof | Silent | Reset

type_synonym stream = "bytes \<times> stream_end"

definition STREAM_LIMIT :: nat where
  "STREAM_LIMIT = 65536"

definition MAX_HEADER_LINES :: nat where
  "MAX_HEADER_LINES = 100"

definition MAX_BODY_BYTES :: int where
  "MAX_BODY_BYTES = 64 * 1024"

text \<open>\<open>await reader.readline()\<close>: a line with its line feed, or what is left at the end of the stream.\<close>

definition read_line :: "stream \<Rightarrow> (bytes \<times> stream) result" where
  "read_line c =
     (let bs = fst c; line = takeWhile (\<lambda>b. b \<noteq> 10) bs in
      if length line > STREAM_LIMIT then Inl (Exn ValueError (S ''chunk is longer than limit''))
      else if 10 \<in> set bs then Inr (line @ [10], drop (Suc (length line)) bs, snd c)
      else (case snd c of
          AtEof \<Rightarrow> Inr (bs, [], AtEof)
        | Silent \<Rightarrow> Inl (Exn TimeoutError [])
        | Reset \<Rightarrow> Inl (Exn ConnectionResetError (S ''Connection lost''))))"

text \<open>\<open>await reader.readexactly(n)\<close>\<close>

definition read_exactly :: "nat \<Rightarrow> stream \<Rightarrow> (bytes \<times> stream) result" where
  "read_exactly n c =
     (if n \<le> length (fst c) then Inr (take n (fst c), drop n (fst c), snd c)
      else (case snd c of
          AtEof \<Rightarrow> Inl (Exn IncompleteReadError [])
        | Silent \<Rightarrow> Inl (Exn TimeoutError [])
        | Reset \<Rightarrow> Inl (Exn ConnectionResetError (S ''Connection lost''))))"

text \<open>\<open>(await reader.readline()).decode("latin-1").rstrip("\r\n")\<close>\<close>

definition text_line :: "stream \<Rightarrow> (pystr \<times> stream) result" where
  "text_line c = bind_res (read_line c) (\<lambda>(line, c1). Inr (rstrip_newlines line, c1))"

text \<open>One header line: a repeated header is joined to its earlier value.\<close>

definition add_header :: "pystr \<Rightarrow> pystr \<Rightarrow> (pystr \<times> pystr) list \<Rightarrow> (pystr \<times> pystr) list" where
  "add_header name v headers =
     (let name1 = py_lower (py_strip name);
          joiner = (if name1 = S ''cookie'' then S ''; '' else S '', '') in
      case map_of headers name1 of
        Some old \<Rightarrow> AList.update name1 (old @ joiner @ py_strip v) headers
      | None \<Rightarrow> AList.update name1 (py_strip v) headers)"

text \<open>
  The header lines up to the empty one, of at most \<open>n\<close> lines; \<open>None\<close> where \<open>read_request\<close> returns \<open>None\<close>.
\<close>

primrec read_headers ::
  "nat \<Rightarrow> (pystr \<times> pystr) list \<Rightarrow> stream \<Rightarrow> ((pystr \<times> pystr) list option \<times> stream) result" where
  "read_headers 0 headers c = Inr (None, c)"
| "read_headers (Suc n) headers c =
     bind_res (text_line c) (\<lambda>(line, c1).
     if line = [] then Inr (Some headers, c1)
     else
       let (name, sep, v) = py_partition 58 line in
       if \<not> sep then Inr (None, c1) else read_headers n (add_header name v headers) c1)"

definition content_length :: "(pystr \<times> pystr) list \<Rightarrow> int result" where
  "content_length headers =
     (let v = or_else (map_of headers (S ''content-length'')) (S ''0'') in
      case py_int_of_str (if v = [] then S ''0'' else v) of
        None \<Rightarrow> Inl (Exn ValueError (S ''invalid literal for int()''))
      | Some n \<Rightarrow> Inr n)"

definition read_request :: "(pystr \<Rightarrow> bool) \<Rightarrow> stream \<Rightarrow> http_request option result" where
  "read_request netloc_ok c =
     bind_res (text_line c) (\<lambda>(request_line, c1).
     case py_split 32 request_line of
       [method, target, _] \<Rightarrow>
         bind_res (read_headers MAX_HEADER_LINES [] c1) (\<lambda>(found, c2).
         case found of
           None \<Rightarrow> Inr None
         | Some headers \<Rightarrow>
             bind_res (content_length headers) (\<lambda>len.
             if \<not> (0 \<le> len \<and> len \<le> MAX_BODY_BYTES) then Inr None
             else bind_res (read_exactly (nat len) c2) (\<lambda>_.
             let cookies = (case map_of headers (S ''cookie'') of None \<Rightarrow> [] | Some v \<Rightarrow> load_cookies v) in
             bind_res (urlsplit netloc_ok target) (\<lambda>(path, query).
             Inr (Some \<lparr>rq_method = method, rq_path = path,
               rq_query = first_values (parse_qsl query), rq_headers = headers, rq_cookies = cookies\<rparr>)))))
     | _ \<Rightarrow> Inr None)"

section \<open>Serving a connection\<close>

text \<open>\<open>except Exception\<close> around a handler.\<close>

primrec app_guard :: "'a \<Rightarrow> 'a app \<Rightarrow> 'a app" where
  "app_guard d (Done x) = Done x"
| "app_guard d (Fail e) = Done d"
| "app_guard d (Sessions k) = Sessions (\<lambda>s. map_prod id (app_guard d) (k s))"
| "app_guard d (TokenUrlsafe n k) = TokenUrlsafe n (\<lambda>v. app_guard d (k v))"
| "app_guard d (Do p) = Do (try_catch (map_prog (app_guard d) p) (\<lambda>e. Return (Done d)) Return)"

definition server_error :: http_response where
  "server_error = (Response 500)\<lparr>rp_body := S ''Internal Server Error''\<rparr>"

definition respond :: "'k demo_app \<Rightarrow> http_request option \<Rightarrow> http_response app" where
  "respond ap request =
     (case request of
        None \<Rightarrow> Done (Response 400)
      | Some rq \<Rightarrow> app_guard server_error (handle ap rq))"

primrec app_bind :: "'b app \<Rightarrow> ('b \<Rightarrow> 'a app) \<Rightarrow> 'a app" where
  "app_bind (Done x) f = f x"
| "app_bind (Fail e) f = Fail e"
| "app_bind (Sessions k) f = Sessions (\<lambda>s. map_prod id (\<lambda>a. app_bind a f) (k s))"
| "app_bind (TokenUrlsafe n k) f = TokenUrlsafe n (\<lambda>v. app_bind (k v) f)"
| "app_bind (Do p) f = Do (map_prog (\<lambda>a. app_bind a f) p)"

text \<open>
  The whole connection: the bytes written as the answer, or \<open>None\<close> where the server hangs up. The
  argument \<open>drain\<close> is what \<open>writer.drain()\<close> raises, if it does. A \<open>ConnectionError\<close> ends the connection
  quietly, any other failure leaves \<open>on_connection\<close>, and the writer is closed in every case.
\<close>

definition unless_lost :: "exn \<Rightarrow> 'a \<Rightarrow> 'a app" where
  "unless_lost e x = (if isinstance e ConnectionError then Done x else Fail e)"

definition write_answer :: "exn option \<Rightarrow> http_response \<Rightarrow> bytes option app" where
  "write_answer drain r =
     (case encode r of
        Inl e \<Rightarrow> unless_lost e None
      | Inr bs \<Rightarrow> (case drain of None \<Rightarrow> Done (Some bs) | Some e \<Rightarrow> unless_lost e (Some bs)))"

definition on_connection ::
  "(pystr \<Rightarrow> bool) \<Rightarrow> 'k demo_app \<Rightarrow> stream \<Rightarrow> exn option \<Rightarrow> bytes option app" where
  "on_connection netloc_ok ap c drain =
     (case read_request netloc_ok c of
        Inl e \<Rightarrow>
          if list_ex (isinstance e) [TimeoutError, ValueError, IncompleteReadError, ConnectionError]
          then Done None else unless_lost e None
      | Inr request \<Rightarrow> app_bind (respond ap request) (write_answer drain))"

end
