(* ===== verification/DemoParse.thy ===== *)
theory DemoParse
  imports DemoRequest
begin

text \<open>
  What a browser sends is what the handlers see: the request line, the query, the headers and the
  cookies of a printed request are read back by \<open>read_request\<close>.
\<close>

section \<open>Characters\<close>

lemma cookie_octet_value: "cookie_octet c \<Longrightarrow> cookie_value_char c"
  by (simp add: cookie_octet_def cookie_value_char_def cookie_key_char_def word_char_def alnum_cls_def
        in_range_def one_of_def S_def) presburger

definition cookie_name_ok :: "pystr \<Rightarrow> bool" where
  "cookie_name_ok k \<longleftrightarrow>
     legal_cookie_name k \<and> hd k \<noteq> 36 \<and> py_lower k \<notin> set RESERVED_COOKIE_NAMES"

lemma key_char_limits:
  assumes "cookie_key_char c"
  shows "\<not> ascii_space c \<and> c \<noteq> 59 \<and> c \<noteq> 34"
  using assms
  by (auto simp: cookie_key_char_def word_char_def alnum_cls_def in_range_def one_of_def S_def ascii_space_def)

lemma legal_name_chars:
  assumes "legal_cookie_name k"
  shows "k \<noteq> []" and "list_all (\<lambda>c. cookie_key_char c \<and> c \<noteq> 61) k"
proof -
  have "cookie_key_char c \<and> c \<noteq> 61" if "alnum_cls c \<or> one_of ''!#$%&*+-.^_`|~:'' c \<or> c = 39" for c
    using that by (auto simp: cookie_key_char_def word_char_def alnum_cls_def in_range_def one_of_def S_def)
  then show "k \<noteq> []" "list_all (\<lambda>c. cookie_key_char c \<and> c \<noteq> 61) k"
    using assms by (auto simp: legal_cookie_name_def list_all_iff)
qed

lemma octet_value_char: "list_all cookie_octet v \<Longrightarrow> list_all cookie_value_char v"
  by (auto simp: list_all_iff cookie_octet_value)

lemma octet_limits: "cookie_octet c \<Longrightarrow> \<not> ascii_space c \<and> c \<noteq> 34 \<and> c \<noteq> 59 \<and> c \<noteq> 44"
  by (auto simp: cookie_octet_def ascii_space_def)

section \<open>Cookies\<close>

text \<open>What follows a pair: nothing, or a semicolon.\<close>

definition pair_end :: "pystr \<Rightarrow> bool" where
  "pair_end r \<longleftrightarrow> r = [] \<or> hd r = 59"

lemma pair_end_stops: "pair_end r \<Longrightarrow> r = [] \<or> \<not> cookie_value_char (hd r)" "pair_end r \<Longrightarrow> cookie_end r = Some (tl r)"
proof -
  have "\<not> cookie_value_char 59"
    by (simp add: cookie_value_char_def cookie_key_char_def word_char_def alnum_cls_def in_range_def one_of_def S_def)
  then show "pair_end r \<Longrightarrow> r = [] \<or> \<not> cookie_value_char (hd r)" by (auto simp: pair_end_def)
  show "pair_end r \<Longrightarrow> cookie_end r = Some (tl r)"
    by (cases r) (auto simp: pair_end_def cookie_end_def ascii_space_def)
qed

lemma date_value_none: "44 \<notin> set s \<Longrightarrow> date_value s = None"
  by (simp add: date_value_def py_partition_def)

lemma date_value_pair:
  assumes "list_all cookie_octet v" and "pair_end r"
  shows "date_value (v @ r) = None"
proof (cases "44 \<in> set r")
  case False
  with assms(1) have "44 \<notin> set (v @ r)" by (auto simp: list_all_iff dest: octet_limits)
  then show ?thesis by (rule date_value_none)
next
  case True
  with assms(2) obtain q where r: "r = 59 # q" by (cases r) (auto simp: pair_end_def)
  have "59 \<in> set (takeWhile (\<lambda>d. d \<noteq> 44) (v @ r))"
    using assms(1) by (subst takeWhile_append2) (auto simp: list_all_iff r dest: octet_limits)
  moreover have "\<not> word_char 59" by (simp add: word_char_def alnum_cls_def in_range_def)
  ultimately have "\<not> list_all word_char (takeWhile (\<lambda>d. d \<noteq> 44) (v @ r))"
    unfolding list_all_iff by blast
  then show ?thesis by (simp add: date_value_def py_partition_def)
qed

lemma cookie_value_pair:
  assumes "list_all cookie_octet v" and "pair_end r"
  shows "cookie_value (61 # v @ r) = Some (v, tl r)"
proof -
  have hd: "v @ r = [] \<or> \<not> ascii_space (hd (v @ r)) \<and> hd (v @ r) \<noteq> 34"
    using assms by (cases v; cases r) (auto simp: pair_end_def ascii_space_def dest: octet_limits)
  then have r3: "dropWhile ascii_space (v @ r) = v @ r" by (cases "v @ r") auto
  have v: "takeWhile cookie_value_char (v @ r) = v" "dropWhile cookie_value_char (v @ r) = r"
    using octet_value_char [OF assms(1)] pair_end_stops(1) [OF assms(2)]
    by (simp_all add: takeWhile_append_stop dropWhile_append_stop)
  have "\<not> ascii_space 61" by (simp add: ascii_space_def)
  then show ?thesis
    using hd by (auto simp: cookie_value_def Let_def r3 v date_value_pair [OF assms] then_end_def
        pair_end_stops(2) [OF assms(2)] or_try_def)
qed

lemma foldr_or_try_first:
  assumes "\<And>k. 1 \<le> k \<Longrightarrow> k < n \<Longrightarrow> f k = None" and "f n = Some x" and "1 \<le> n" and "n \<le> m"
  shows "foldr (\<lambda>k. or_try (f k)) [1 ..< Suc m] None = Some x"
proof -
  have "[1 ..< Suc m] = [1 ..< n] @ n # [Suc n ..< Suc m]"
    using assms(3,4) upt_add_eq_append [of 1 n "Suc m - n"] by (simp add: upt_conv_Cons)
  moreover have "foldr (\<lambda>k. or_try (f k)) ks y = y" if "\<forall>k \<in> set ks. f k = None" for ks y
    using that by (induction ks) (auto simp: or_try_def)
  ultimately show ?thesis using assms(1,2) by (simp add: or_try_def)
qed

lemma cookie_match_pair:
  assumes "legal_cookie_name k" and "list_all cookie_octet v" and "pair_end r" and "list_all ascii_space b"
  shows "cookie_match (b @ k @ 61 # v @ r) = Some (k, Some v, tl r)"
proof -
  let ?s = "k @ 61 # v @ r"
  note k = legal_name_chars [OF assms(1)]
  have "\<not> ascii_space (hd k)" using k by (cases k) (auto dest: key_char_limits)
  then have s1: "dropWhile ascii_space (b @ ?s) = ?s"
    using assms(4) k(1) by (intro dropWhile_append_stop) (auto simp: hd_append)
  have "cookie_key_char 61"
    by (simp add: cookie_key_char_def word_char_def alnum_cls_def in_range_def one_of_def S_def)
  then have len: "length k \<le> length (takeWhile cookie_key_char ?s)"
    using k(2) by (subst takeWhile_append2) (auto simp: list_all_iff)
  have at: "cookie_at ?s (length k) = Some (k, Some v, tl r)"
    using cookie_value_pair [OF assms(2,3)] by (simp add: cookie_at_def or_try_def)
  have before: "cookie_at ?s n = None" if n: "n < length k" for n
  proof -
    have "k ! n \<in> set k" using n by simp
    then have c: "\<not> ascii_space (k ! n)" "k ! n \<noteq> 61" "k ! n \<noteq> 59"
      using k(2) key_char_limits by (auto simp: list_all_iff)
    have "drop n ?s = k ! n # drop (Suc n) ?s" using n by (simp add: Cons_nth_drop_Suc [symmetric] nth_append)
    with c show ?thesis by (simp add: cookie_at_def cookie_value_def cookie_end_def or_try_def)
  qed
  have "1 \<le> length k" using k(1) by (cases k) auto
  then show ?thesis
    unfolding cookie_match_def Let_def s1 by (intro foldr_or_try_first [where n = "length k"] before at len)
qed

text \<open>The header a browser sends for its cookies.\<close>

definition cookie_header :: "(pystr \<times> pystr) list \<Rightarrow> pystr" where
  "cookie_header cs = join_with (S ''; '') (map (\<lambda>(k, v). k @ S ''='' @ v) cs)"

definition cookie_ok :: "pystr \<times> pystr \<Rightarrow> bool" where
  "cookie_ok u \<longleftrightarrow> cookie_name_ok (fst u) \<and> is_cookie_value (snd u)"

lemma cookie_header_Cons:
  "cookie_header ((k, v) # cs) = k @ 61 # v @ (if cs = [] then [] else 59 # 32 # cookie_header cs)"
  by (cases cs) (simp_all add: cookie_header_def pystr_eval)

lemma cookie_unquote_octets: "list_all cookie_octet v \<Longrightarrow> cookie_unquote v = v"
  by (cases v) (auto simp: cookie_unquote_def dest: octet_limits)

lemma cookie_items_header:
  "list_all cookie_ok cs \<Longrightarrow> list_all ascii_space b \<Longrightarrow>
     cookie_items seen (b @ cookie_header cs) = Some (map (\<lambda>(k, v). KeyValue k v) cs)"
proof (induction cs arbitrary: seen b)
  case Nil
  then have blank: "dropWhile ascii_space b = []" by (simp add: list_all_iff)
  have "cookie_match b = None" unfolding cookie_match_def Let_def blank by simp
  then show ?case by (simp add: cookie_items.simps cookie_header_def)
next
  case (Cons c cs)
  obtain k v where c: "c = (k, v)" by (cases c)
  let ?r = "if cs = [] then [] else 59 # 32 # cookie_header cs"
  have ok: "legal_cookie_name k" "list_all cookie_octet v" "hd k \<noteq> 36" "py_lower k \<notin> set RESERVED_COOKIE_NAMES"
    using Cons.prems(1) by (auto simp: c cookie_ok_def cookie_name_ok_def is_cookie_value_iff)
  have "pair_end ?r" by (simp add: pair_end_def)
  from cookie_match_pair [OF ok(1,2) this Cons.prems(2)]
  have match: "cookie_match (b @ cookie_header (c # cs)) = Some (k, Some v, tl ?r)"
    unfolding c cookie_header_Cons .
  have "tl ?r = (if cs = [] then [] else [32]) @ cookie_header cs" by (simp add: cookie_header_def)
  moreover have "list_all ascii_space (if cs = [] then [] else [32])" by (simp add: ascii_space_def)
  moreover have "list_all cookie_ok cs" using Cons.prems(1) by simp
  ultimately have "cookie_items True (tl ?r) = Some (map (\<lambda>(k, v). KeyValue k v) cs)"
    using Cons.IH by metis
  then show ?case
    using ok(3,4) by (subst cookie_items.simps) (simp add: match [unfolded c] c cookie_unquote_octets [OF ok(2)] del: py_lower_idem)
qed

lemma update_new: "k \<notin> fst ` set al \<Longrightarrow> AList.update k v al = al @ [(k, v)]"
  by (induction al) auto

lemma jar_of_pairs:
  "list_all cookie_ok cs \<Longrightarrow> distinct (map fst (jar @ cs)) \<Longrightarrow>
     jar_of (map (\<lambda>(k, v). KeyValue k v) cs) jar = jar @ cs"
proof (induction cs arbitrary: jar)
  case (Cons c cs)
  then show ?case
    by (cases c) (simp add: cookie_ok_def cookie_name_ok_def update_new)
qed simp

lemma load_cookie_header:
  assumes "list_all cookie_ok cs" and "distinct (map fst cs)"
  shows "load_cookies (cookie_header cs) = cs"
  using cookie_items_header [OF assms(1), of "[]" False] jar_of_pairs [OF assms(1), of "[]"] assms(2)
  by (simp add: load_cookies_def)

section \<open>The query\<close>

definition unreserved :: "nat \<Rightarrow> bool" where
  "unreserved c \<longleftrightarrow> alnum_cls c \<or> one_of ''-._~'' c"

definition query_text :: "(pystr \<times> pystr) list \<Rightarrow> pystr" where
  "query_text qs = join_with (S ''&'') (map (\<lambda>(k, v). k @ S ''='' @ v) qs)"

definition query_ok :: "pystr \<times> pystr \<Rightarrow> bool" where
  "query_ok u \<longleftrightarrow> list_all unreserved (fst u) \<and> list_all unreserved (snd u) \<and> snd u \<noteq> []"

lemma unreserved_limits:
  "unreserved c \<Longrightarrow> 32 < c \<and> c < 127 \<and> c \<notin> {37, 38, 43, 61, 47, 63, 35, 58}"
  by (auto simp: unreserved_def alnum_cls_def in_range_def one_of_def S_def)

lemma utf8_replace_ascii: "list_all (\<lambda>c. c < 128) s \<Longrightarrow> utf8_replace s = s"
  by (induction s) auto

lemma unquote_bytes_plain: "37 \<notin> set s \<Longrightarrow> unquote_bytes s = s"
  by (induction s rule: unquote_bytes.induct) auto

lemma unquote_plain:
  assumes "list_all unreserved s"
  shows "unquote_plus s = s"
proof -
  have plus: "map (\<lambda>c. if c = 43 then 32 else c) s = s"
    using assms by (auto simp: list_all_iff intro!: map_idI dest: unreserved_limits)
  have ascii: "list_all (\<lambda>c. c < 128) s" "37 \<notin> set s"
    using assms unreserved_limits unfolding list_all_iff by fastforce+
  have all: "takeWhile (\<lambda>c. c < 128) s = s" "dropWhile (\<lambda>c. c < 128) s = []"
    using ascii(1) by (simp_all add: list_all_iff)
  have "unquote [] = []" by (simp add: unquote.simps)
  then have "unquote s = utf8_replace (unquote_bytes s)"
    using ascii(1) unquote.simps [of s] unfolding all by (cases s) simp_all
  then show ?thesis
    by (simp add: unquote_plus_def plus unquote_bytes_plain [OF ascii(2)] utf8_replace_ascii [OF ascii(1)])
qed

lemma query_text_Cons:
  "query_text ((k, v) # qs) = k @ 61 # v @ (if qs = [] then [] else 38 # query_text qs)"
  by (cases qs) (simp_all add: query_text_def pystr_eval)

lemma split_query:
  "list_all query_ok qs \<Longrightarrow> qs \<noteq> [] \<Longrightarrow> py_split 38 (query_text qs) = map (\<lambda>(k, v). k @ 61 # v) qs"
proof (induction qs)
  case (Cons q qs)
  obtain k v where q: "q = (k, v)" by (cases q)
  have sep: "38 \<notin> set (k @ 61 # v)"
    using Cons.prems(1) by (auto simp: q query_ok_def list_all_iff dest: unreserved_limits)
  show ?case
  proof (cases "qs = []")
    case True
    then show ?thesis using py_split_no_sep [OF sep] by (simp add: q query_text_Cons)
  next
    case False
    then show ?thesis
      using py_split_append_sep [OF sep, of "query_text qs"] Cons by (simp add: q query_text_Cons)
  qed
qed simp

lemma parse_query:
  assumes "list_all query_ok qs" and "distinct (map fst qs)"
  shows "first_values (parse_qsl (query_text qs)) = qs"
proof -
  let ?f = "\<lambda>u. let (name, _, w) = py_partition 61 u in
      if w = [] then [] else [(unquote_plus name, unquote_plus w)]"
  have pair: "?f (k @ 61 # v) = [(k, v)]" if "query_ok (k, v)" for k v
  proof -
    have "list_all (\<lambda>d. d \<noteq> 61) k"
      using that by (auto simp: query_ok_def list_all_iff dest: unreserved_limits)
    then have "py_partition 61 (k @ 61 # v) = (k, True, v)"
      by (simp add: py_partition_def takeWhile_append_stop dropWhile_append_stop)
    then show ?thesis using that by (simp add: query_ok_def unquote_plain)
  qed
  have "concat (map ?f (map (\<lambda>(k, v). k @ 61 # v) qs)) = qs"
    using assms(1)
  proof (induction qs)
    case (Cons q qs)
    obtain k v where q: "q = (k, v)" by (cases q)
    with Cons.prems pair have "?f (k @ 61 # v) = [(k, v)]" by simp
    moreover have "concat (map ?f (map (\<lambda>(k, v). k @ 61 # v) qs)) = qs" using Cons by simp
    ultimately show ?case by (simp only: q list.map prod.case concat.simps append.simps)
  qed simp
  moreover have "parse_qsl (query_text []) = []"
    by (simp add: parse_qsl_def query_text_def py_partition_def)
  ultimately have "parse_qsl (query_text qs) = qs"
    using split_query [OF assms(1)] by (cases "qs = []") (auto simp: parse_qsl_def)
  moreover have "foldl (\<lambda>d (k, v). if map_of d k = None then d @ [(k, v)] else d) ps qs = ps @ qs"
    if "distinct (map fst (ps @ qs))" for ps
    using that
  proof (induction qs arbitrary: ps)
    case (Cons q qs)
    then show ?case by (cases q) (auto simp: map_of_eq_None_iff)
  qed simp
  ultimately show ?thesis using assms(2) by (simp add: first_values_def)
qed

section \<open>Lines\<close>

lemma rstrip_newlines_line: "list_all visible l \<Longrightarrow> rstrip_newlines (l @ [13, 10]) = l"
proof -
  assume "list_all visible l"
  then have "rev l = [] \<or> \<not> (hd (rev l) = 13 \<or> hd (rev l) = 10)"
    by (cases l rule: rev_cases) (auto simp: visible_def)
  then show ?thesis by (cases "rev l") (auto simp: rstrip_newlines_def rev_swap)
qed

lemma text_line_crlf:
  assumes "list_all visible l" and "length l < STREAM_LIMIT"
  shows "text_line (l @ CRLF @ r, e) = Inr (l, r, e)"
proof -
  have "list_all (\<lambda>b. b \<noteq> 10) (l @ [13])" using assms(1) by (auto simp: list_all_iff visible_def)
  then have line: "takeWhile (\<lambda>b. b \<noteq> 10) (l @ CRLF @ r) = l @ [13]"
    using takeWhile_append_stop [of "\<lambda>b. b \<noteq> 10" "l @ [13]" "10 # r"] by (simp add: CRLF_def)
  then show ?thesis
    using assms rstrip_newlines_line [OF assms(1)]
    by (simp add: text_line_def read_line_def Let_def CRLF_def)
qed

definition header_ok :: "pystr \<times> pystr \<Rightarrow> bool" where
  "header_ok u \<longleftrightarrow>
     list_all (\<lambda>c. visible c \<and> c \<noteq> 32 \<and> c \<noteq> 58) (fst u) \<and> list_all visible (snd u) \<and>
     (snd u = [] \<or> hd (snd u) \<noteq> 32 \<and> last (snd u) \<noteq> 32) \<and>
     length (fst u) + length (snd u) + 2 < STREAM_LIMIT"

lemma visible_space: "visible c \<Longrightarrow> py_isspace c \<longleftrightarrow> c = 32"
  by (auto simp: visible_def py_isspace_def)

lemma strip_trimmed:
  assumes "list_all visible v" and "v = [] \<or> hd v \<noteq> 32 \<and> last v \<noteq> 32"
  shows "py_strip (32 # v) = v" and "py_strip v = v"
proof -
  have "dropWhile py_isspace v = v" "dropWhile py_isspace (rev v) = rev v"
  proof -
    show "dropWhile py_isspace v = v"
      using assms by (cases v) (auto simp: visible_space)
    show "dropWhile py_isspace (rev v) = rev v"
      using assms by (cases v rule: rev_cases) (auto simp: visible_space)
  qed
  moreover have "py_isspace 32" by (simp add: py_isspace_def)
  ultimately show "py_strip (32 # v) = v" "py_strip v = v" by (simp_all add: py_strip_def strip_by_def)
qed

lemma header_line_parts:
  assumes "header_ok (n, v)"
  shows "py_partition 58 (header_line (n, v)) = (n, True, 32 # v)"
    and "list_all visible (header_line (n, v))" and "header_line (n, v) \<noteq> []"
    and "length (header_line (n, v)) < STREAM_LIMIT"
proof -
  have "list_all (\<lambda>d. d \<noteq> 58) n" using assms by (simp add: header_ok_def list_all_iff)
  then show "py_partition 58 (header_line (n, v)) = (n, True, 32 # v)"
    by (simp add: header_line_def py_partition_def pystr_eval takeWhile_append_stop dropWhile_append_stop)
  show "list_all visible (header_line (n, v))" "header_line (n, v) \<noteq> []" "length (header_line (n, v)) < STREAM_LIMIT"
    using assms by (auto simp: header_ok_def header_line_def pystr_eval list_all_iff visible_def)
qed

lemma add_new_header:
  assumes "header_ok (n, v)" and "py_lower n \<notin> fst ` set headers"
  shows "add_header n (32 # v) headers = headers @ [(py_lower n, v)]"
proof -
  have "list_all visible n" "n = [] \<or> hd n \<noteq> 32 \<and> last n \<noteq> 32"
    using assms(1) by (auto simp: header_ok_def list_all_iff)
  then have "py_strip n = n" by (rule strip_trimmed(2))
  moreover have "py_strip (32 # v) = v"
    using assms(1) by (intro strip_trimmed(1)) (simp_all add: header_ok_def)
  moreover have "map_of headers (py_lower n) = None" using assms(2) by (simp add: map_of_eq_None_iff)
  ultimately show ?thesis by (simp add: add_header_def Let_def update_new [OF assms(2)])
qed

definition lower_names :: "(pystr \<times> pystr) list \<Rightarrow> (pystr \<times> pystr) list" where
  "lower_names hs = map (\<lambda>(n, v). (py_lower n, v)) hs"

lemma read_headers_lines:
  "list_all header_ok hs \<Longrightarrow> distinct (map fst (acc @ lower_names hs)) \<Longrightarrow> length hs < m \<Longrightarrow>
     read_headers m acc (concat (map (\<lambda>h. header_line h @ CRLF) hs) @ CRLF @ body, e) =
       Inr (Some (acc @ lower_names hs), body, e)"
proof (induction m arbitrary: hs acc)
  case (Suc m)
  show ?case
  proof (cases hs)
    case Nil
    have "text_line ([] @ CRLF @ body, e) = Inr ([], body, e)"
      by (rule text_line_crlf) (simp_all add: STREAM_LIMIT_def)
    with Nil show ?thesis by (simp add: lower_names_def)
  next
    case (Cons h hs')
    obtain n v where h: "h = (n, v)" by (cases h)
    with Cons Suc.prems(1) have ok: "header_ok (n, v)" by simp
    note parts = header_line_parts [OF ok]
    let ?acc = "acc @ [(py_lower n, v)]"
    have "py_lower n \<notin> fst ` set acc" using Suc.prems(2) Cons h by (auto simp: lower_names_def)
    then have "add_header n (32 # v) acc = ?acc" by (rule add_new_header [OF ok])
    moreover have "text_line (header_line (n, v) @ CRLF @ r, e) = Inr (header_line (n, v), r, e)" for r
      by (rule text_line_crlf [OF parts(2,4)])
    moreover have "read_headers m ?acc (concat (map (\<lambda>h. header_line h @ CRLF) hs') @ CRLF @ body, e) =
        Inr (Some (?acc @ lower_names hs'), body, e)"
      using Suc.prems Cons h by (intro Suc.IH) (auto simp: lower_names_def)
    ultimately show ?thesis
      using parts(1,3) by (simp add: Cons h lower_names_def del: append_assoc) (simp add: lower_names_def)
  qed
qed simp

section \<open>The request\<close>

definition browser_target :: "pystr \<Rightarrow> (pystr \<times> pystr) list \<Rightarrow> pystr" where
  "browser_target path qs = path @ (if qs = [] then [] else 63 # query_text qs)"

definition browser_headers :: "(pystr \<times> pystr) list \<Rightarrow> (pystr \<times> pystr) list \<Rightarrow> (pystr \<times> pystr) list" where
  "browser_headers hs cs = hs @ (if cs = [] then [] else [(S ''Cookie'', cookie_header cs)])"

definition browser_request ::
  "pystr \<Rightarrow> pystr \<Rightarrow> (pystr \<times> pystr) list \<Rightarrow> (pystr \<times> pystr) list \<Rightarrow> (pystr \<times> pystr) list \<Rightarrow> bytes" where
  "browser_request verb path qs hs cs =
     (verb @ 32 # browser_target path qs @ 32 # S ''HTTP/1.1'') @ CRLF @
     concat (map (\<lambda>h. header_line h @ CRLF) (browser_headers hs cs)) @ CRLF"

lemma query_text_chars:
  "list_all query_ok qs \<Longrightarrow> c \<in> set (query_text qs) \<Longrightarrow> 32 < c \<and> c < 127 \<and> c \<noteq> 35"
proof (induction qs)
  case (Cons q qs)
  obtain k v where q: "q = (k, v)" by (cases q)
  have "32 < d \<and> d < 127 \<and> d \<noteq> 35" if "d \<in> set k \<union> set v" for d
    using Cons.prems(1) that unreserved_limits [of d] by (auto simp: q query_ok_def list_all_iff)
  with Cons show ?case by (auto simp: q query_text_Cons split: if_splits)
qed (simp add: query_text_def)

lemma partition_absent:
  assumes "\<And>d. d \<in> set s \<Longrightarrow> d \<noteq> c"
  shows "py_partition c s = (s, False, [])"
proof -
  have "takeWhile (\<lambda>d. d \<noteq> c) s = s" "dropWhile (\<lambda>d. d \<noteq> c) s = []" "c \<notin> set s" using assms by auto
  then show ?thesis unfolding py_partition_def by (simp only: list.sel)
qed

lemma browser_target_chars:
  assumes "is_path path" and "list_all query_ok qs" and "c \<in> set (browser_target path qs)"
  shows "32 < c \<and> c < 127 \<and> c \<noteq> 35"
proof -
  obtain p where p: "path = 47 # p" and chars: "list_all path_char p"
    using assms(1) by (auto simp: is_path_iff)
  have "32 < d \<and> d < 127 \<and> d \<noteq> 35" if "d \<in> set p" for d
    using chars that
    by (auto simp: list_all_iff path_char_def alnum_cls_def in_range_def one_of_def S_def)
  then show ?thesis
    using assms(3) query_text_chars [OF assms(2)] by (auto simp: browser_target_def p split: if_splits)
qed

lemma urlsplit_target:
  assumes "is_path path" and "list_all query_ok qs"
  shows "urlsplit ok (browser_target path qs) = Inr (path, query_text qs)"
proof -
  let ?t = "browser_target path qs"
  obtain p where p: "path = 47 # p" "p = [] \<or> hd p \<noteq> 47" and chars: "list_all path_char p"
    using assms(1) by (auto simp: is_path_iff)
  have pc: "32 < c \<and> c < 127 \<and> c \<noteq> 35 \<and> c \<noteq> 63" if "c \<in> set p" for c
  proof -
    have "path_char c" using chars that by (simp add: list_all_iff)
    then show ?thesis
      by (auto simp: path_char_def alnum_cls_def in_range_def one_of_def S_def)
  qed
  have tc: "32 < c \<and> c < 127 \<and> c \<noteq> 35" if "c \<in> set ?t" for c
    using browser_target_chars [OF assms that] .
  have "filter (\<lambda>c. c \<notin> {9, 10, 13}) (dropWhile (\<lambda>c. c \<le> 32) ?t) = ?t"
  proof -
    have "dropWhile (\<lambda>c. c \<le> 32) ?t = ?t" by (simp add: browser_target_def p(1))
    moreover have "\<forall>c\<in>set ?t. c \<notin> {9, 10, 13}" using tc by fastforce
    ultimately show ?thesis by (simp only: filter_True)
  qed
  moreover have "after_scheme ?t = ?t"
    by (simp add: after_scheme_def browser_target_def p(1) ascii_alpha_def Let_def case_prod_unfold)
  moreover have "take 2 ?t \<noteq> [47, 47]"
    using p(2) by (cases p) (auto simp: browser_target_def p(1) split: if_splits)
  moreover have "py_partition 35 ?t = (?t, False, [])" using tc by (intro partition_absent) blast
  moreover have "fst (py_partition 63 ?t) = path" "snd (snd (py_partition 63 ?t)) = query_text qs"
  proof -
    have path: "list_all (\<lambda>d. d \<noteq> 63) path" using pc by (auto simp: p(1) list_all_iff)
    have "query_text [] = []" by (simp add: query_text_def)
    then show "fst (py_partition 63 ?t) = path" "snd (snd (py_partition 63 ?t)) = query_text qs"
      using takeWhile_append_stop [OF path, of "if qs = [] then [] else 63 # query_text qs"]
        dropWhile_append_stop [OF path, of "if qs = [] then [] else 63 # query_text qs"]
      by (auto simp: py_partition_def browser_target_def)
  qed
  ultimately show ?thesis by (simp add: urlsplit_def Let_def case_prod_unfold)
qed

text \<open>What the browser may send, for the request to be read as it was meant.\<close>

definition sendable ::
  "pystr \<Rightarrow> pystr \<Rightarrow> (pystr \<times> pystr) list \<Rightarrow> (pystr \<times> pystr) list \<Rightarrow> (pystr \<times> pystr) list \<Rightarrow> bool" where
  "sendable verb path qs hs cs \<longleftrightarrow>
     list_all (\<lambda>c. visible c \<and> c \<noteq> 32) verb \<and> is_path path \<and>
     length verb + length (browser_target path qs) + 10 < STREAM_LIMIT \<and>
     list_all query_ok qs \<and> distinct (map fst qs) \<and>
     list_all header_ok (browser_headers hs cs) \<and> length (browser_headers hs cs) < MAX_HEADER_LINES \<and>
     distinct (map fst (lower_names hs)) \<and>
     S ''cookie'' \<notin> fst ` set (lower_names hs) \<and> S ''content-length'' \<notin> fst ` set (lower_names hs) \<and>
     list_all cookie_ok cs \<and> distinct (map fst cs)"

lemma lower_cookie: "py_lower (S ''Cookie'') = S ''cookie''"
  by (simp add: S_def py_lower_def lower_char_def)

lemma browser_header_names:
  assumes "sendable verb path qs hs cs"
  shows "distinct (map fst (lower_names (browser_headers hs cs)))"
    and "map_of (lower_names (browser_headers hs cs)) (S ''cookie'') =
      (if cs = [] then None else Some (cookie_header cs))"
    and "map_of (lower_names (browser_headers hs cs)) (S ''content-length'') = None"
proof -
  have names: "lower_names (browser_headers hs cs) =
      lower_names hs @ (if cs = [] then [] else [(S ''cookie'', cookie_header cs)])"
    by (simp add: browser_headers_def lower_names_def lower_cookie)
  have new: "S ''cookie'' \<notin> fst ` set (lower_names hs)" "S ''content-length'' \<notin> fst ` set (lower_names hs)"
    using assms by (simp_all add: sendable_def)
  have neq: "S ''cookie'' \<noteq> S ''content-length''" by (simp add: S_def)
  show "distinct (map fst (lower_names (browser_headers hs cs)))"
    using assms new unfolding names by (auto simp: sendable_def)
  have "map_of (lower_names hs) (S ''cookie'') = None" "map_of (lower_names hs) (S ''content-length'') = None"
    using new by (simp_all add: map_of_eq_None_iff)
  then show "map_of (lower_names (browser_headers hs cs)) (S ''cookie'') =
      (if cs = [] then None else Some (cookie_header cs))"
    and "map_of (lower_names (browser_headers hs cs)) (S ''content-length'') = None"
    unfolding names using neq by (simp_all add: map_add_def)
qed

lemma split_request_line:
  assumes "32 \<notin> set m" and "32 \<notin> set t" and "32 \<notin> set v"
  shows "py_split 32 (m @ 32 # t @ 32 # v) = [m, t, v]"
  using py_split_append_sep [OF assms(1)] py_split_append_sep [OF assms(2)] py_split_no_sep [OF assms(3)]
  by simp

lemma no_content_length:
  "map_of headers (S ''content-length'') = None \<Longrightarrow> content_length headers = Inr 0"
  by (simp add: content_length_def or_else_def py_int_of_str_def S_def strip_by_def int_space_def
        is_digit_def max_str_digits_def dec_value_def Let_def)

lemma read_browser_request:
  assumes "sendable verb path qs hs cs"
  shows "read_request ok (browser_request verb path qs hs cs, e) =
    Inr (Some \<lparr>rq_method = verb, rq_path = path, rq_query = qs,
      rq_headers = lower_names (browser_headers hs cs), rq_cookies = cs\<rparr>)"
proof -
  let ?t = "browser_target path qs"
  let ?line = "verb @ 32 # ?t @ 32 # S ''HTTP/1.1''"
  let ?hs = "browser_headers hs cs"
  have path: "is_path path" "list_all query_ok qs" "distinct (map fst qs)"
    using assms by (simp_all add: sendable_def)
  have tc: "32 < c \<and> c < 127 \<and> c \<noteq> 35" if "c \<in> set ?t" for c
    using browser_target_chars [OF path(1,2) that] .
  have version: "list_all visible (S ''HTTP/1.1'')" "32 \<notin> set (S ''HTTP/1.1'')" "length (S ''HTTP/1.1'') = 8"
    by (simp_all add: S_def visible_def)
  have visible: "list_all visible ?line" "length ?line < STREAM_LIMIT"
    using assms tc version by (fastforce simp: sendable_def list_all_iff visible_def)+
  have "text_line (?line @ CRLF @ r, e) = Inr (?line, r, e)" for r by (rule text_line_crlf [OF visible])
  then have first: "text_line (browser_request verb path qs hs cs, e) =
      Inr (?line, concat (map (\<lambda>h. header_line h @ CRLF) ?hs) @ CRLF, e)"
    by (simp add: browser_request_def)
  have "32 \<notin> set verb" "32 \<notin> set ?t" using assms tc by (auto simp: sendable_def list_all_iff)
  then have parts: "py_split 32 ?line = [verb, ?t, S ''HTTP/1.1'']" using version(2) by (rule split_request_line)
  have headers: "read_headers MAX_HEADER_LINES [] (concat (map (\<lambda>h. header_line h @ CRLF) ?hs) @ CRLF, e) =
      Inr (Some (lower_names ?hs), [], e)"
    using read_headers_lines [of ?hs "[]" MAX_HEADER_LINES "[]" e] assms browser_header_names(1) [OF assms]
    by (simp add: sendable_def)
  have length: "content_length (lower_names ?hs) = Inr 0"
    by (rule no_content_length [OF browser_header_names(3) [OF assms]])
  have cookies: "(case map_of (lower_names ?hs) (S ''cookie'') of None \<Rightarrow> [] | Some v \<Rightarrow> load_cookies v) = cs"
    using load_cookie_header [of cs] assms unfolding browser_header_names(2) [OF assms]
    by (simp add: sendable_def)
  show ?thesis
    using urlsplit_target [OF path(1,2), of ok] parse_query [OF path(2,3)]
    by (simp add: read_request_def first parts headers length cookies read_exactly_def MAX_BODY_BYTES_def Let_def)
qed

end
