(* ===== verification/DemoTraces.thy ===== *)
theory DemoTraces
  imports DemoRuns DemoRequest Emit
begin

text \<open>
  What one handler has seen when it ends, whatever the others do in between: \<open>meets a h Q\<close> says that
  after the labels \<open>h\<close> every end of \<open>a\<close> satisfies \<open>Q\<close> with all its labels, for every answer the
  sessions, the store, the clock and the random numbers may give.
\<close>

section \<open>Runs of composed coroutines\<close>

lemma runs_map:
  "runs (map_prog f p) es (Inl e) \<longleftrightarrow> runs p es (Inl e)"
  "runs (map_prog f p) es (Inr y) \<longleftrightarrow> (\<exists>x. runs p es (Inr x) \<and> y = f x)"
  by (induction p arbitrary: es) (auto simp: runs_iff)

definition ends_in ::
  "(event list \<Rightarrow> 'a result \<Rightarrow> bool) \<Rightarrow> ('a result \<Rightarrow> event list \<Rightarrow> bool) \<Rightarrow> event list \<Rightarrow> bool" where
  "ends_in A B evs \<longleftrightarrow> (\<exists>es fs r. evs = es @ fs \<and> A es r \<and> B r fs)"

lemma ends_in_Cons: "ends_in A B evs \<Longrightarrow> (\<And>es r. A es r \<Longrightarrow> A' (ev # es) r) \<Longrightarrow> ends_in A' B (ev # evs)"
  unfolding ends_in_def by (metis append_Cons)

lemma runs_try_catch:
  "runs (try_catch p h f) evs out \<Longrightarrow>
     ends_in (runs p) (\<lambda>r fs. runs (case r of Inl e \<Rightarrow> h e | Inr x \<Rightarrow> f x) fs out) evs"
proof (induction p arbitrary: evs)
  case (Return x)
  then show ?case by (auto simp: ends_in_def)
next
  case (Raise e)
  then show ?case by (auto simp: ends_in_def)
qed (clarsimp simp: runs_iff, rule ends_in_Cons, blast intro: rangeI, simp add: runs_iff)+

lemma runs_result: "runs p es (Inr x) \<Longrightarrow> x \<in> set_prog p"
  by (induction p arbitrary: es) (fastforce simp: runs_iff)+

lemma app_cases_induct [case_names Done Fail Sessions TokenUrlsafe Do]:
  assumes "\<And>x. P (Done x)" and "\<And>e. P (Fail e)"
    and "\<And>k. (\<And>s. P (snd (k s))) \<Longrightarrow> P (Sessions k)"
    and "\<And>n k. (\<And>v. P (k v)) \<Longrightarrow> P (TokenUrlsafe n k)"
    and "\<And>p. (\<And>es b. runs p es (Inr b) \<Longrightarrow> P b) \<Longrightarrow> P (Do p)"
  shows "P a"
proof (induction a)
  case (Sessions k)
  show ?case
  proof (rule assms(3))
    fix s
    have "snd (k s) \<in> Basic_BNFs.snds (k s)" by (rule snds.intros)
    then show "P (snd (k s))" by (rule Sessions.IH [OF rangeI])
  qed
next
  case (Do p)
  show ?case by (rule assms(5)) (rule Do.IH [OF runs_result])
qed (auto intro: assms)

section \<open>The judgement\<close>

definition url_token :: "pystr \<Rightarrow> bool" where
  "url_token v \<longleftrightarrow> list_all (\<lambda>c. alnum_cls c \<or> c = 45 \<or> c = 95) v"

type_synonym 'a verdict = "label list \<Rightarrow> 'a result \<Rightarrow> bool"

primrec meets :: "'a app \<Rightarrow> label list \<Rightarrow> 'a verdict \<Rightarrow> bool" where
  "meets (Done x) = (\<lambda>h Q. Q h (Inr x))"
| "meets (Fail e) = (\<lambda>h Q. Q h (Inl e))"
| "meets (Sessions k) = (\<lambda>h Q. \<forall>s. snd (map_prod id meets (k s)) (h @ [Saw s]) Q)"
| "meets (TokenUrlsafe n k) = (\<lambda>h Q. \<forall>v. url_token v \<longrightarrow> meets (k v) (h @ [Drew v]) Q)"
| "meets (Do p) = (\<lambda>h Q. (\<forall>es. list_all reply_valid es \<longrightarrow>
     (\<forall>e. runs (map_prog meets p) es (Inl e) \<longrightarrow> Q (h @ map Effect es @ [Resumed]) (Inl e)) \<and>
     (\<forall>m. runs (map_prog meets p) es (Inr m) \<longrightarrow> m (h @ map Effect es @ [Resumed]) Q)))"

lemma meets_sessions [simp]: "meets (Sessions k) h Q \<longleftrightarrow> (\<forall>s. meets (snd (k s)) (h @ [Saw s]) Q)"
  by simp

lemma meets_do:
  "meets (Do p) h Q \<longleftrightarrow> (\<forall>es. list_all reply_valid es \<longrightarrow>
     (\<forall>e. runs p es (Inl e) \<longrightarrow> Q (h @ map Effect es @ [Resumed]) (Inl e)) \<and>
     (\<forall>a. runs p es (Inr a) \<longrightarrow> meets a (h @ map Effect es @ [Resumed]) Q))"
  unfolding meets.simps runs_map by blast

declare meets.simps(3,5) [simp del]

lemma meets_await:
  assumes "\<And>es e. list_all reply_valid es \<Longrightarrow> runs p es (Inl e) \<Longrightarrow> Q (h @ map Effect es @ [Resumed]) (Inl e)"
    and "\<And>es x. list_all reply_valid es \<Longrightarrow> runs p es (Inr x) \<Longrightarrow> meets (k x) (h @ map Effect es @ [Resumed]) Q"
  shows "meets (await p k) h Q"
  unfolding await_def meets_do using assms by (auto simp: runs_bind)

lemma meets_try_await:
  assumes "\<And>es e. list_all reply_valid es \<Longrightarrow> runs p es (Inl e) \<Longrightarrow> meets (f e) (h @ map Effect es @ [Resumed]) Q"
    and "\<And>es x. list_all reply_valid es \<Longrightarrow> runs p es (Inr x) \<Longrightarrow> meets (k x) (h @ map Effect es @ [Resumed]) Q"
  shows "meets (try_await p f k) h Q"
proof -
  have "(\<exists>e. runs p es (Inl e) \<and> out = Inr (f e)) \<or> (\<exists>x. runs p es (Inr x) \<and> out = Inr (k x))"
    if "runs (try_catch p (\<lambda>e. Return (f e)) (\<lambda>x. Return (k x))) es out" for es out
    using runs_try_catch [OF that] unfolding ends_in_def
  proof (elim exE conjE)
    fix es1 fs r
    assume "es = es1 @ fs" "runs p es1 r"
      "runs (case r of Inl e \<Rightarrow> Return (f e) | Inr x \<Rightarrow> Return (k x)) fs out"
    then show ?thesis by (cases r) auto
  qed
  then show ?thesis unfolding try_await_def meets_do using assms by blast
qed

lemma meets_with_context:
  assumes "\<And>s ctx. context_of ap rq sid s = Inr ctx \<Longrightarrow> meets (k ctx) (h @ [Saw s]) Q"
    and "\<And>s e. context_of ap rq sid s = Inl e \<Longrightarrow> Q (h @ [Saw s]) (Inl e)"
  shows "meets (with_context ap rq sid k) h Q"
  using assms by (auto simp: with_context_def split: sum.split)

lemma meets_mono: "meets a h Q \<Longrightarrow> (\<And>h out. Q h out \<Longrightarrow> Q' h out) \<Longrightarrow> meets a h Q'"
proof (induction a arbitrary: h rule: app_cases_induct)
  case (Do p)
  then show ?case unfolding meets_do by blast
qed auto

lemma app_bind_do: "app_bind (Do p) f = Do (map_prog (\<lambda>a. app_bind a f) p)"
  by simp

lemma meets_app_bind:
  "meets a h (\<lambda>h out. case out of Inl e \<Rightarrow> Q h (Inl e) | Inr x \<Rightarrow> meets (f x) h Q) \<Longrightarrow> meets (app_bind a f) h Q"
proof (induction a arbitrary: h rule: app_cases_induct)
  case (Sessions k)
  then show ?case by (simp add: case_prod_unfold)
next
  case (Do p)
  show ?case
    unfolding app_bind_do meets_do runs_map
    using Do.prems unfolding meets_do by (auto intro: Do.IH)
qed auto

lemma meets_app_guard:
  "meets a h (\<lambda>h out. case out of Inl e \<Rightarrow> Q h (Inr d) | Inr x \<Rightarrow> Q h (Inr x)) \<Longrightarrow> meets (app_guard d a) h Q"
proof (induction a arbitrary: h rule: app_cases_induct)
  case (Sessions k)
  then show ?case by (simp add: case_prod_unfold)
next
  case (Do p)
  have guard: "app_guard d (Do p) = try_await (map_prog (app_guard d) p) (\<lambda>e. Done d) (\<lambda>a. a)"
    by (simp add: try_await_def)
  show ?case
    unfolding guard
    by (rule meets_try_await) (use Do.prems in \<open>auto simp: meets_do runs_map intro: Do.IH\<close>)
qed auto

section \<open>Interleaved handlers meet their verdicts\<close>

definition labels_of :: "nat \<Rightarrow> (nat \<times> label) list \<Rightarrow> label list" where
  "labels_of i tr = map snd (filter (\<lambda>u. fst u = i) tr)"

lemma labels_of_simps [simp]:
  "labels_of i [] = []"
  "labels_of i (tr @ [(j, l)]) = (if j = i then labels_of i tr @ [l] else labels_of i tr)"
  by (simp_all add: labels_of_def)

lemma token_urlsafe_url: "url_token (fst (token_urlsafe n w))"
proof -
  have "alnum_cls (b64url_char v) \<or> b64url_char v = 45 \<or> b64url_char v = 95" for v
    by (auto simp: b64url_char_def alnum_cls_def in_range_def)
  then show ?thesis by (simp add: token_urlsafe_def url_token_def b64url_encode_def list_all_iff)
qed

text \<open>A handler that has not ended can go on, and it cannot go on for ever.\<close>

lemma app_step_None: "app_step so a s w = None \<longleftrightarrow> (\<exists>x. a = Done x) \<or> (\<exists>e. a = Fail e)"
proof (cases a)
  case (Do p)
  then show ?thesis by (cases p) (auto simp: Let_def case_prod_unfold)
qed (auto simp: Let_def case_prod_unfold)

definition next_of :: "'s store_ops \<Rightarrow> ('a app \<times> 'a app) set" where
  "next_of so = {(a', a). \<exists>s w l s' w'. app_step so a s w = Some (l, a', s', w')}"

lemma next_of_cases:
  "(b, Done x) \<notin> next_of so" "(b, Fail e) \<notin> next_of so"
  "(b, Sessions k) \<in> next_of so \<Longrightarrow> \<exists>s. b = snd (k s)"
  "(b, TokenUrlsafe n d) \<in> next_of so \<Longrightarrow> \<exists>v. b = d v"
  "(b, Do p) \<in> next_of so \<Longrightarrow>
     (\<exists>w ev q w'. step so p w = Some (ev, q, w') \<and> b = Do q) \<or> p = Return b \<or> (\<exists>e. b = Fail e)"
proof -
  show "(b, Do p) \<in> next_of so \<Longrightarrow>
     (\<exists>w ev q w'. step so p w = Some (ev, q, w') \<and> b = Do q) \<or> p = Return b \<or> (\<exists>e. b = Fail e)"
  proof -
    assume "(b, Do p) \<in> next_of so"
    then obtain s w l s' w' where b: "app_step so (Do p) s w = Some (l, b, s', w')" by (auto simp: next_of_def)
    show ?thesis
    proof (cases "step so p w")
      case None
      with b show ?thesis by (cases p) (auto simp: Let_def case_prod_unfold)
    next
      case (Some u)
      with b show ?thesis by (cases u) auto
    qed
  qed
qed (auto simp: next_of_def Let_def case_prod_unfold)

definition prog_next :: "'s store_ops \<Rightarrow> ('a prog \<times> 'a prog) set" where
  "prog_next so = {(q, p). \<exists>w ev w'. step so p w = Some (ev, q, w')}"

lemma step_wf: "wf (prog_next so)"
proof (rule wfUNIVI)
  fix P :: "'a prog \<Rightarrow> bool" and p
  assume "\<forall>p. (\<forall>q. (q, p) \<in> prog_next so \<longrightarrow> P q) \<longrightarrow> P p"
  then have step: "P p" if "\<And>q. (q, p) \<in> prog_next so \<Longrightarrow> P q" for p using that by blast
  show "P p" by (induction p; rule step) (auto simp: prog_next_def Let_def case_prod_unfold)
qed

lemma app_step_wf: "wf (next_of so)"
proof (rule wfUNIVI)
  fix P :: "'a app \<Rightarrow> bool" and a
  assume "\<forall>a. (\<forall>b. (b, a) \<in> next_of so \<longrightarrow> P b) \<longrightarrow> P a"
  then have step: "P a" if "\<And>b. (b, a) \<in> next_of so \<Longrightarrow> P b" for a using that by blast
  have ended: "P (Done x)" "P (Fail e)" for x e by (rule step, simp add: next_of_cases)+
  have coroutine: "P (Do p)" if "\<And>es b. runs p es (Inr b) \<Longrightarrow> P b" for p
    using step_wf [of so] that
  proof (induction p rule: wf_induct_rule)
    case (less p)
    have "P (Do q)" if "step so p w = Some (ev, q, w')" for w ev q w'
    proof (rule less.IH)
      show "(q, p) \<in> prog_next so" using that by (auto simp: prog_next_def)
      show "P b" if "runs q es (Inr b)" for es b
        using less.prems step_runs [OF \<open>step so p w = Some (ev, q, w')\<close> that] by blast
    qed
    moreover have "P b" if "p = Return b" for b using less.prems [of "[]" b] that by simp
    ultimately show ?case by - (rule step, auto dest!: next_of_cases(5) simp: ended)
  qed
  show "P a"
  proof (induction a rule: app_cases_induct)
    case (Sessions k)
    then show ?case by - (rule step, auto dest: next_of_cases(3))
  next
    case (TokenUrlsafe n k)
    then show ?case by - (rule step, auto dest: next_of_cases(4))
  next
    case (Do p)
    then show ?case by (rule coroutine)
  qed (rule ended)+
qed

text \<open>A handler that runs alone takes its steps while the others wait.\<close>

definition ended :: "'a result \<Rightarrow> 'a app" where
  "ended out = (case out of Inl e \<Rightarrow> Fail e | Inr x \<Rightarrow> Done x)"

lemma app_exec_steps:
  "app_exec so (A i) (s, w) = (out, s', w') \<Longrightarrow> \<exists>tr A'. app_steps so A s w tr A' s' w' \<and> A' i = ended out"
proof (induction "A i" arbitrary: A s w rule: wf_induct_rule [OF app_step_wf [of so]])
  case 1
  show ?case
  proof (cases "app_step so (A i) s w")
    case None
    with 1(2) have "A i = ended out \<and> s' = s \<and> w' = w" by (auto simp: app_step_None ended_def)
    then show ?thesis using app_steps.adone by blast
  next
    case (Some u)
    then obtain l a s1 w1 where u: "app_step so (A i) s w = Some (l, a, s1, w1)" by (cases u) auto
    have "((A(i := a)) i, A i) \<in> next_of so"
      using u unfolding next_of_def fun_upd_same mem_Collect_eq prod.case by (intro exI)
    moreover have "app_exec so ((A(i := a)) i) (s1, w1) = (out, s', w')"
      using 1(2) u app_exec_step [of so "A i" s w] by simp
    ultimately obtain tr A' where "app_steps so (A(i := a)) s1 w1 tr A' s' w'" "A' i = ended out"
      using 1(1) by blast
    moreover have "app_steps so A s w [(i, l)] (A(i := a)) s1 w1" by (rule app_steps_one [of so A i, OF u])
    ultimately show ?thesis using app_steps_trans by blast
  qed
qed

context valid_store
begin

lemma app_step_meets:
  assumes "app_step so a s w = Some (l, a', s', w')" and "meets a h Q"
  shows "meets a' (h @ [l]) Q"
proof (cases a)
  case (TokenUrlsafe n k)
  with assms token_urlsafe_url [of n w] show ?thesis by (auto simp: case_prod_unfold Let_def)
next
  case (Do p)
  show ?thesis
  proof (cases "step so p w")
    case None
    with assms Do show ?thesis by (cases p) (auto simp: meets_do Let_def case_prod_unfold)
  next
    case (Some u)
    then obtain ev q w1 where u: "step so p w = Some (ev, q, w1)" by (cases u) auto
    with assms Do have a': "l = Effect ev" "a' = Do q" by auto
    show ?thesis
      unfolding a' meets_do
    proof (intro allI impI conjI)
      fix es
      assume "list_all reply_valid es"
      with step_reply_valid [OF u] have ok: "list_all reply_valid (ev # es)" by simp
      show "Q ((h @ [Effect ev]) @ map Effect es @ [Resumed]) (Inl e)" if "runs q es (Inl e)" for e
        using assms(2) ok step_runs [OF u that] unfolding Do meets_do by fastforce
      show "meets b ((h @ [Effect ev]) @ map Effect es @ [Resumed]) Q" if "runs q es (Inr b)" for b
        using assms(2) ok step_runs [OF u that] unfolding Do meets_do by fastforce
    qed
  qed
qed (use assms in auto)

lemma app_steps_meets:
  "app_steps so A s w tr A' s' w' \<Longrightarrow> meets (A i) [] Q \<Longrightarrow> meets (A' i) (labels_of i tr) Q"
  by (induction rule: app_steps.induct) (auto dest: app_step_meets)

end

end
