(* ===== verification/DemoGuards.thy ===== *)
theory DemoGuards
  imports DemoTraces "HOL-Library.Sublist"
begin

text \<open>
  The gate with any number of requests in progress: the protected page is shown only on the evidence the
  gate asks for. The lemmas about applying a response of the library serve theory \<open>DemoAnswers\<close> too.
\<close>

section \<open>The gate, interleaved\<close>

text \<open>The cookie that ties the request to the binding, or the previous one before its expiry.\<close>

definition shows_cookie :: "'k server \<Rightarrow> binding \<Rightarrow> request_context \<Rightarrow> label list \<Rightarrow> bool" where
  "shows_cookie sv b ctx h \<longleftrightarrow>
     same_user (b_user_id b) (rc_user_id ctx) \<and>
     (\<exists>v. cookie ctx (cfg_cookie_name (sv_config sv)) = Some v \<and> v \<noteq> [] \<and>
       (v = b_cookie_value b \<or>
        v = b_previous_cookie_value b \<and> (\<exists>t. Effect (ENow t) \<in> set h \<and> t < b_previous_cookie_expires_at b)))"

definition in_grace :: "'k server \<Rightarrow> binding \<Rightarrow> request_context \<Rightarrow> label list \<Rightarrow> bool" where
  "in_grace sv b ctx h \<longleftrightarrow>
     \<not> is_document_request ctx \<and> (\<exists>t. Effect (ENow t) \<in> set h \<and> within_grace sv b t)"

definition account_request :: "http_request \<Rightarrow> bool" where
  "account_request rq \<longleftrightarrow> rq_path rq \<notin> {S ''/dbsc/register'', S ''/dbsc/refresh''} \<and>
     map_of (rq_query rq) (S ''route'') = Some (S ''account'')"

text \<open>The session the request named, or the one that was made for it.\<close>

definition own_session :: "http_request \<Rightarrow> label list \<Rightarrow> pystr \<Rightarrow> bool" where
  "own_session rq h sid \<longleftrightarrow>
     sid = or_else (map_of (rq_cookies rq) APP_SESSION_COOKIE) [] \<or> Drew sid \<in> set h"

text \<open>What an answer to a request for the account page shows of the labels before it.\<close>

definition account_verdict :: "'k demo_app \<Rightarrow> http_request \<Rightarrow> label list \<Rightarrow> http_response \<Rightarrow> bool" where
  "account_verdict ap rq h r \<longleftrightarrow>
     rp_status r = 302 \<and> rp_body r = [] \<or>
     (\<exists>sid s ctx s' x. own_session rq h sid \<and> Saw s \<in> set h \<and> logged_in s sid \<and>
        Saw s' \<in> set h \<and> context_of ap rq sid s' = Inr ctx \<and> Effect (EGetBinding sid (Inr x)) \<in> set h \<and>
        (case x of
           None \<Rightarrow> rp_body r = COOKIE_AUTH_PAGE
         | Some b \<Rightarrow> rp_body r = BOUND_PAGE \<and>
             (shows_cookie (ap_dbsc ap) b ctx h \<or> in_grace (ap_dbsc ap) b ctx h)))"

lemma gate_passed:
  assumes "runs (gate_refuses sv b ctx) es (Inr False)" and "binding_valid b"
  shows "shows_cookie sv b ctx (h @ map Effect es @ h') \<or> in_grace sv b ctx (h @ map Effect es @ h')"
proof (cases "is_document_request ctx")
  case True
  with assms show ?thesis
    by (fastforce simp: gate_refuses_def runs_bind bound_cookie_matches_True shows_cookie_def)
next
  case False
  then show ?thesis
    using assms
    by (fastforce simp: gate_refuses_def is_within_registration_grace_def runs_bind runs_iff bound_cookie_matches_True
        shows_cookie_def in_grace_def within_grace_def)
qed

section \<open>Applying a response\<close>

lemma set_cookie_runs:
  "runs (set_cookie_header c) es out \<Longrightarrow>
     \<exists>v. out = Inr v \<and> (config_valid cfg \<and> host_cookie cfg c \<longrightarrow> list_all visible v)"
proof -
  assume run: "runs (set_cookie_header c) es out"
  define start where "start = [ck_name c @ S ''='' @ (if ck_delete c then [] else ck_value c), S ''Path='' @ ck_path c]"
  define attrs where "attrs = (if ck_secure c then [S ''Secure''] else []) @
    (if ck_http_only c then [S ''HttpOnly''] else []) @ [S ''SameSite='' @ ck_same_site c]"
  have plain: "list_all visible (S ''='')" "list_all visible (S ''Path='')" "list_all visible (S ''/'')"
    "list_all visible (S ''Secure'')" "list_all visible (S ''HttpOnly'')" "list_all visible (S ''SameSite='')"
    "list_all visible (S ''Max-Age='')" "list_all visible (S ''Max-Age=0'')" "list_all visible (S ''; '')"
    "list_all visible (S ''Expires=Thu, 01 Jan 1970 00:00:01 GMT'')"
    by (simp_all add: S_visible visible_def)
  have same_site: "list_all visible v" if "v \<in> set SAME_SITE_VALUES" for v
    using that by (auto simp: SAME_SITE_VALUES_def S_visible visible_def)
  have octets: "list_all visible v" if "is_cookie_value v" for v
    using that by (auto simp: is_cookie_value_iff list_all_iff cookie_octet_def visible_def)
  have ok: "list_all (list_all visible) start \<and> list_all (list_all visible) attrs"
    if "config_valid cfg" "host_cookie cfg c"
    using that same_site octets plain
    by (auto simp: start_def attrs_def host_cookie_def config_valid_def cookie_name_visible)
  have join: "list_all visible (join_with (S ''; '') ps)" if "list_all (list_all visible) ps" for ps
    using that plain(9) by (induction "S ''; ''" ps rule: join_with.induct) simp_all
  from run consider
      "out = Inr (join_with (S ''; '') (start @ [S ''Expires=Thu, 01 Jan 1970 00:00:01 GMT'', S ''Max-Age=0''] @ attrs))"
    | n where "out = Inr (join_with (S ''; '') (start @ [S ''Max-Age='' @ py_int_str n] @ attrs))"
    unfolding set_cookie_header_def Let_def start_def [symmetric] attrs_def [symmetric]
    by (auto simp: runs_iff simp del: append_Cons)
  then show ?thesis
    using ok plain int_text_visible by cases (auto intro!: join)
qed

lemma safe_append: "list_all safe_header hs \<Longrightarrow> safe_header (n, v) \<Longrightarrow> list_all safe_header (hs @ [(n, v)])"
  by simp

lemma set_header_safe:
  "list_all safe_header (rp_headers r) \<Longrightarrow> safe_header (n, v) \<Longrightarrow> list_all safe_header (rp_headers (set_header n v r))"
  by (auto simp: set_header_def list_all_iff)

lemma set_header_keeps [simp]: "rp_status (set_header n v r) = rp_status r" "rp_body (set_header n v r) = rp_body r"
  by (simp_all add: set_header_def)

lemma set_headers_keep:
  "rp_status (foldl (\<lambda>r (n, v). set_header n v r) r hs) = rp_status r"
  "rp_body (foldl (\<lambda>r (n, v). set_header n v r) r hs) = rp_body r"
  "list_all safe_header (rp_headers r) \<Longrightarrow> list_all safe_header hs \<Longrightarrow>
     list_all safe_header (rp_headers (foldl (\<lambda>r (n, v). set_header n v r) r hs))"
  by (induction hs arbitrary: r) (auto simp: set_header_safe)

lemma add_cookies_runs:
  "runs (add_cookies cs r) es out \<Longrightarrow>
     \<exists>r'. out = Inr r' \<and> rp_status r' = rp_status r \<and> rp_body r' = rp_body r \<and>
       (config_valid cfg \<and> list_all (host_cookie cfg) cs \<and> list_all safe_header (rp_headers r) \<longrightarrow>
        list_all safe_header (rp_headers r'))"
proof (induction cs arbitrary: r es)
  case (Cons c cs)
  from Cons.prems obtain v fs where
    v: "config_valid cfg \<and> host_cookie cfg c \<longrightarrow> list_all visible v" and
    "runs (add_cookies cs (r\<lparr>rp_headers := rp_headers r @ [(S ''Set-Cookie'', v)]\<rparr>)) fs out"
    by (auto simp: runs_bind dest!: set_cookie_runs [where cfg = cfg])
  from Cons.IH [OF this(2)] v show ?case
    by (auto simp: safe_header_def S_visible) (simp_all add: visible_def)
qed simp

text \<open>A response of the library that the handlers can send on.\<close>

definition answerable :: "config \<Rightarrow> dbsc_response \<Rightarrow> bool" where
  "answerable cfg d \<longleftrightarrow>
     list_all safe_header (rs_headers d) \<and> list_all (host_cookie cfg) (rs_cookies d) \<and>
     rs_status d \<in> {None, Some 200, Some 403} \<and> pred_option encodable (rs_body d) \<and>
     rs_content_type d \<in> {None, Some (S ''application/json'')}"

definition well_formed :: "http_response \<Rightarrow> bool" where
  "well_formed r \<longleftrightarrow>
     list_all safe_header (rp_headers r) \<and> rp_status r \<in> {200, 302, 400, 401, 403, 500} \<and> encodable (rp_body r)"

definition applied :: "config \<Rightarrow> http_response \<Rightarrow> dbsc_response \<Rightarrow> http_response \<Rightarrow> bool" where
  "applied cfg r d r' \<longleftrightarrow>
     (rs_body d = None \<longrightarrow> rp_body r' = rp_body r) \<and>
     (config_valid cfg \<and> answerable cfg d \<and> well_formed r \<longrightarrow> well_formed r')"

lemma apply_runs:
  assumes "runs (apply_response r d) es out"
  shows "\<exists>r'. out = Inr r' \<and> applied cfg r d r'"
proof -
  let ?r0 = "foldl (\<lambda>r (n, v). set_header n v r) r (rs_headers d)"
  let ?r2 = "\<lambda>r1. case rs_content_type d of None \<Rightarrow> r1 | Some t \<Rightarrow> set_header (S ''Content-Type'') t r1"
  let ?r3 = "\<lambda>r2. case rs_status d of None \<Rightarrow> r2 | Some n \<Rightarrow> r2\<lparr>rp_status := n\<rparr>"
  let ?r4 = "\<lambda>r3. case rs_body d of None \<Rightarrow> r3 | Some b \<Rightarrow> r3\<lparr>rp_body := b\<rparr>"
  obtain r1 where out: "out = Inr (?r4 (?r3 (?r2 r1)))" and r1: "rp_status r1 = rp_status ?r0" "rp_body r1 = rp_body ?r0"
    "config_valid cfg \<and> list_all (host_cookie cfg) (rs_cookies d) \<and> list_all safe_header (rp_headers ?r0) \<longrightarrow>
       list_all safe_header (rp_headers r1)"
    using assms unfolding apply_response_def Let_def runs_bind
    by (auto dest!: add_cookies_runs [where cfg = cfg])
  have json: "safe_header (S ''Content-Type'', S ''application/json'')"
    by (simp add: safe_header_def S_visible) (simp add: visible_def)
  have A: "rp_body (?r4 (?r3 (?r2 r1))) = rp_body r" if "rs_body d = None"
    using that r1(2) by (simp add: set_headers_keep split: option.split)
  have B: "well_formed (?r4 (?r3 (?r2 r1)))" if "config_valid cfg" "answerable cfg d" "well_formed r"
  proof -
    have "list_all safe_header (rp_headers r1)"
      using that r1(3) set_headers_keep(3) by (auto simp: answerable_def well_formed_def)
    then have "list_all safe_header (rp_headers (?r2 r1))"
      using that(2) json by (auto simp: answerable_def set_header_safe split: option.split)
    then have "list_all safe_header (rp_headers (?r4 (?r3 (?r2 r1))))" by (simp split: option.split)
    moreover have "rp_status (?r4 (?r3 (?r2 r1))) \<in> {200, 302, 400, 401, 403, 500}"
      using that(2,3) r1(1) by (auto simp: answerable_def well_formed_def set_headers_keep split: option.split)
    moreover have "encodable (rp_body (?r4 (?r3 (?r2 r1))))"
      using that(2,3) r1(2) by (auto simp: answerable_def well_formed_def set_headers_keep split: option.split)
    ultimately show ?thesis by (simp add: well_formed_def)
  qed
  show ?thesis
    unfolding out applied_def by (intro exI conjI impI, rule refl, erule A, elim conjE, erule (2) B)
qed

section \<open>Verdicts on the answer alone\<close>

definition answers_with :: "(label list \<Rightarrow> 'a \<Rightarrow> bool) \<Rightarrow> 'a verdict" where
  "answers_with P h out \<longleftrightarrow> (case out of Inl e \<Rightarrow> True | Inr x \<Rightarrow> P h x)"

lemma answers_with_simps [simp]: "answers_with P h (Inl e)" "answers_with P h (Inr x) \<longleftrightarrow> P h x"
  by (simp_all add: answers_with_def)

text \<open>A call of the library whose response is applied.\<close>

lemma applied_runs:
  assumes "runs (bind p (apply_response r)) es (Inr r')"
  shows "\<exists>es1 es2 d. es = es1 @ es2 \<and> runs p es1 (Inr d) \<and> applied cfg r d r'"
proof -
  from assms obtain es1 es2 d where "es = es1 @ es2" "runs p es1 (Inr d)" "runs (apply_response r d) es2 (Inr r')"
    by (auto simp: runs_bind)
  with apply_runs [OF this(3), of cfg] show ?thesis by auto
qed

lemma meets_applied:
  assumes "\<And>es es' d r'. list_all reply_valid es \<Longrightarrow> runs p es (Inr d) \<Longrightarrow> applied cfg r d r' \<Longrightarrow>
    meets (k r') (h @ map Effect (es @ es') @ [Resumed]) (answers_with P)"
  shows "meets (await (bind p (apply_response r)) k) h (answers_with P)"
proof (rule meets_await)
  fix es r'
  assume ok: "list_all reply_valid es" and run: "runs (bind p (apply_response r)) es (Inr r')"
  from applied_runs [OF run] ok assms show "meets (k r') (h @ map Effect es @ [Resumed]) (answers_with P)"
    by fastforce
qed simp

lemma meets_try_applied:
  assumes "\<And>es es' d r'. list_all reply_valid es \<Longrightarrow> runs p es (Inr d) \<Longrightarrow> applied cfg r d r' \<Longrightarrow>
    meets (k r') (h @ map Effect (es @ es') @ [Resumed]) (answers_with P)"
    and "\<And>h' e. meets (f e) h' (answers_with P)"
  shows "meets (try_await (bind p (apply_response r)) f k) h (answers_with P)"
proof (rule meets_try_await)
  fix es r'
  assume ok: "list_all reply_valid es" and run: "runs (bind p (apply_response r)) es (Inr r')"
  from applied_runs [OF run] ok assms(1) show "meets (k r') (h @ map Effect es @ [Resumed]) (answers_with P)"
    by fastforce
qed (rule assms(2))

lemma revoke_answerable: "answerable (sv_config sv) (revoke_response sv)"
  by (simp add: answerable_def revoke_response_def empty_response_def safe_headers host_cookies)

lemma terminate_meets:
  assumes "\<And>h' r'. applied (sv_config (ap_dbsc ap)) r (revoke_response (ap_dbsc ap)) r' \<Longrightarrow>
    P h' (redirect (S ''?route=login'') r')"
  shows "meets (terminate_session ap ctx r) h (answers_with P)"
  unfolding terminate_session_def
  by (rule meets_applied [where cfg = "sv_config (ap_dbsc ap)"]) (auto dest: revoke_success intro: assms)

section \<open>The account page\<close>

lemma verdict_redirect:
  "applied cfg r (revoke_response sv) r' \<Longrightarrow> rp_body r = [] \<Longrightarrow> account_verdict ap rq h (redirect l r')"
  by (simp add: account_verdict_def redirect_def applied_def revoke_response_def empty_response_def)

definition bound_page :: "'k demo_app \<Rightarrow> request_context \<Rightarrow> http_response \<Rightarrow> binding \<Rightarrow> http_response app" where
  "bound_page ap ctx r b = await (gate_refuses (ap_dbsc ap) b ctx) (\<lambda>refuses.
     if refuses then terminate_session ap ctx r
     else if is_document_request ctx then
       await (bind (advertise_refresh_challenge (ap_dbsc ap) b ctx) (apply_response r)) (\<lambda>r1.
       Done (r1\<lparr>rp_body := BOUND_PAGE\<rparr>))
     else Done (r\<lparr>rp_body := BOUND_PAGE\<rparr>))"

lemmas account_route_code = account_route_def [folded bound_page_def]

lemma bound_page_meets:
  assumes "binding_valid b" and "\<And>h' ctx. meets (terminate_session ap ctx r) h' (answers_with P)"
    and "\<And>h' r'. shows_cookie (ap_dbsc ap) b ctx (h @ h') \<or> in_grace (ap_dbsc ap) b ctx (h @ h') \<Longrightarrow>
      P (h @ h') (r'\<lparr>rp_body := BOUND_PAGE\<rparr>)"
  shows "meets (bound_page ap ctx r b) h (answers_with P)"
  unfolding bound_page_def
proof (rule meets_await)
  fix es refuses
  let ?h = "h @ map Effect es @ [Resumed]"
  assume gate: "runs (gate_refuses (ap_dbsc ap) b ctx) es (Inr refuses)"
  have page: "P (?h @ h') (r'\<lparr>rp_body := BOUND_PAGE\<rparr>)" if "\<not> refuses" for h' r'
    using assms(3) [of "map Effect es @ [Resumed] @ h'"] gate_passed [OF _ assms(1), of "ap_dbsc ap" ctx es h "[Resumed] @ h'"]
      gate that by simp
  show "meets (if refuses then terminate_session ap ctx r
      else if is_document_request ctx then
        await (bind (advertise_refresh_challenge (ap_dbsc ap) b ctx) (apply_response r)) (\<lambda>r1.
        Done (r1\<lparr>rp_body := BOUND_PAGE\<rparr>))
      else Done (r\<lparr>rp_body := BOUND_PAGE\<rparr>)) ?h (answers_with P)"
    using assms(2) page page [of "[]"]
    by (auto intro!: meets_applied [where cfg = "sv_config (ap_dbsc ap)"])
qed simp

lemma account_meets:
  assumes own: "own_session rq h sid" and body: "rp_body r = []"
  shows "meets (account_route ap rq sid r) h (answers_with (account_verdict ap rq))"
proof -
  let ?V = "account_verdict ap rq"
  have ends: "meets (terminate_session ap ctx r) h' (answers_with ?V)" for ctx h'
    by (rule terminate_meets) (rule verdict_redirect [OF _ body])
  have redirected: "?V h' (redirect l r)" for h' l using body by (simp add: account_verdict_def redirect_def)
  have seen: "?V h' r'"
    if "prefix (h @ [Saw s, Saw s', Effect (EGetBinding sid (Inr x)), Resumed]) h'" "logged_in s sid"
      "context_of ap rq sid s' = Inr ctx"
      "case x of None \<Rightarrow> rp_body r' = COOKIE_AUTH_PAGE | Some b \<Rightarrow> rp_body r' = BOUND_PAGE \<and>
        (shows_cookie (ap_dbsc ap) b ctx h' \<or> in_grace (ap_dbsc ap) b ctx h')" for s s' ctx x h' r'
  proof -
    have "own_session rq h' sid" using own that(1) by (auto simp: own_session_def prefix_def)
    moreover have "Saw s \<in> set h'" "Saw s' \<in> set h'" "Effect (EGetBinding sid (Inr x)) \<in> set h'"
      using that(1) by (auto simp: prefix_def)
    ultimately show ?thesis using that(2-4) unfolding account_verdict_def by blast
  qed
  have found: "meets (case x of None \<Rightarrow> Done (r\<lparr>rp_body := COOKIE_AUTH_PAGE\<rparr>) | Some b \<Rightarrow> bound_page ap ctx r b)
      (h @ [Saw s, Saw s', Effect (EGetBinding sid (Inr x)), Resumed]) (answers_with ?V)"
    if "logged_in s sid" "context_of ap rq sid s' = Inr ctx" "pred_option binding_valid x" for s s' ctx x
    using that seen [of s s' x _ ctx] by (cases x) (auto intro!: bound_page_meets ends simp: prefix_def)
  have read: "es = [EGetBinding sid (Inr x)] \<and> pred_option binding_valid x"
    if "context_of ap rq sid s' = Inr ctx" "list_all reply_valid es" "runs (session_binding ctx) es (Inr x)" for s' ctx es x
    using that by (auto simp: context_of_def RequestContext_def bind_res_eq_Inr session_binding_def runs_iff)
  have bound: "meets (with_context ap rq sid (\<lambda>ctx. try_await (session_binding ctx)
      (\<lambda>e. if isinstance e CorruptStateError then terminate_session ap ctx r else Fail e)
      (\<lambda>x. case x of None \<Rightarrow> Done (r\<lparr>rp_body := COOKIE_AUTH_PAGE\<rparr>) | Some b \<Rightarrow> bound_page ap ctx r b)))
      (h @ [Saw s]) (answers_with ?V)" if "logged_in s sid" for s
  proof (rule meets_with_context, rule meets_try_await)
    fix s' ctx es x
    assume ctx: "context_of ap rq sid s' = Inr ctx" and "list_all reply_valid es" "runs (session_binding ctx) es (Inr x)"
    with read [OF this] found [OF that ctx]
    show "meets (case x of None \<Rightarrow> Done (r\<lparr>rp_body := COOKIE_AUTH_PAGE\<rparr>) | Some b \<Rightarrow> bound_page ap ctx r b)
        (((h @ [Saw s]) @ [Saw s']) @ map Effect es @ [Resumed]) (answers_with ?V)" by auto
  qed (simp_all add: ends)
  then show ?thesis by (simp add: account_route_code redirected logged_in_def)
qed

lemma handle_account:
  assumes "account_request rq"
  shows "meets (handle ap rq) [] (answers_with (account_verdict ap rq))"
proof -
  have "route ap rq sid fresh r = account_route ap rq sid r" for sid fresh r
    using assms by (simp add: route_def account_request_def S_def)
  then show ?thesis
    by (auto simp: handle_def Let_def new_session_def own_session_def Response_def intro!: account_meets)
qed

end
