(* ===== verification/DemoLimits.thy ===== *)
theory DemoLimits
  imports DemoRequest
begin

text \<open>
  What \<open>read_request\<close> of \<open>examples/demo_server.py\<close> lets through, and the errors with which it gives up.
\<close>

section \<open>What the reader accepts\<close>

definition read_error :: "exn \<Rightarrow> bool" where
  "read_error e \<longleftrightarrow> exn_cls e \<in> {TimeoutError, ValueError, IncompleteReadError, ConnectionResetError}"

lemma read_error_Exn [simp]: "read_error (Exn c m) \<longleftrightarrow> c \<in> {TimeoutError, ValueError, IncompleteReadError, ConnectionResetError}"
  by (simp add: read_error_def)

text \<open>A computation that fails only with those errors.\<close>

definition hangs_up :: "'a result \<Rightarrow> bool" where
  "hangs_up r \<longleftrightarrow> (\<forall>e. r = Inl e \<longrightarrow> read_error e)"

lemma hangs_up_simps [simp]: "hangs_up (Inr x)" "hangs_up (Inl e) \<longleftrightarrow> read_error e"
  by (simp_all add: hangs_up_def)

lemma hangs_up_bind: "hangs_up r \<Longrightarrow> (\<And>x. hangs_up (f x)) \<Longrightarrow> hangs_up (bind_res r f)"
  by (auto simp: hangs_up_def bind_res_eq_Inl)

lemma text_line_hangs_up: "hangs_up (text_line c)"
  by (auto simp: text_line_def read_line_def Let_def intro!: hangs_up_bind split: stream_end.split)

lemma read_headers_hangs_up: "hangs_up (read_headers n headers c)"
  by (induction n arbitrary: headers c)
    (auto simp: Let_def case_prod_unfold intro!: hangs_up_bind text_line_hangs_up)

lemma content_length_hangs_up: "hangs_up (content_length headers)"
  by (simp add: content_length_def Let_def split: option.split)

lemma read_exactly_hangs_up: "hangs_up (read_exactly n c)"
  by (simp add: read_exactly_def split: stream_end.split)

lemma urlsplit_hangs_up: "hangs_up (urlsplit ok target)"
  by (simp add: urlsplit_def Let_def case_prod_unfold)

lemma read_request_hangs_up: "hangs_up (read_request ok c)"
  by (auto simp: read_request_def Let_def
      intro!: hangs_up_bind text_line_hangs_up read_headers_hangs_up content_length_hangs_up
        read_exactly_hangs_up urlsplit_hangs_up
      split: list.split option.split)

lemma update_names: "fst ` set (AList.update k x al) = insert k (fst ` set al)"
  using dom_update [of k x al] by simp

lemma update_length: "length (AList.update k x al) \<le> Suc (length al)"
  by (induction al) auto

lemma add_header_update: "\<exists>x. add_header name v headers = AList.update (py_lower (py_strip name)) x headers"
  unfolding add_header_def Let_def by (auto split: option.split)

lemma add_header_names:
  assumes "distinct (map fst headers)" and "list_all (\<lambda>u. py_lower (fst u) = fst u) headers"
  shows "distinct (map fst (add_header name v headers))"
    and "list_all (\<lambda>u. py_lower (fst u) = fst u) (add_header name v headers)"
    and "length (add_header name v headers) \<le> Suc (length headers)"
proof -
  obtain x where x: "add_header name v headers = AList.update (py_lower (py_strip name)) x headers"
    using add_header_update by blast
  show "distinct (map fst (add_header name v headers))" unfolding x using assms(1) by (rule distinct_update)
  show "length (add_header name v headers) \<le> Suc (length headers)" unfolding x by (rule update_length)
  have "py_lower n = n" if "n \<in> fst ` set (add_header name v headers)" for n
    using that assms(2) unfolding x update_names by (auto simp: list_all_iff)
  then show "list_all (\<lambda>u. py_lower (fst u) = fst u) (add_header name v headers)"
    unfolding list_all_iff by blast
qed

lemma read_headers_found:
  "read_headers n acc c = Inr (Some headers, c') \<Longrightarrow> distinct (map fst acc) \<Longrightarrow>
     list_all (\<lambda>u. py_lower (fst u) = fst u) acc \<Longrightarrow>
     distinct (map fst headers) \<and> list_all (\<lambda>u. py_lower (fst u) = fst u) headers \<and>
     length headers < n + length acc"
proof (induction n arbitrary: acc c)
  case (Suc n)
  from Suc.prems(1) obtain line c1 where line: "text_line c = Inr (line, c1)"
    by (auto simp: bind_res_eq_Inr)
  show ?case
  proof (cases "line = []")
    case True
    with line Suc.prems show ?thesis by simp
  next
    case False
    obtain name sep v where p: "py_partition 58 line = (name, sep, v)" by (cases "py_partition 58 line")
    from Suc.prems(1) line False p have "read_headers n (add_header name v acc) c1 = Inr (Some headers, c')"
      by (simp split: if_splits)
    from Suc.IH [OF this] add_header_names [OF Suc.prems(2,3), of name v] show ?thesis by force
  qed
qed simp

lemma first_values_names: "distinct (map fst (first_values ps))"
proof -
  have "distinct (map fst (foldl (\<lambda>d (k, v). if map_of d k = None then d @ [(k, v)] else d) qs ps))"
    if "distinct (map fst qs)" for qs
    using that
  proof (induction ps arbitrary: qs)
    case (Cons p ps)
    then show ?case by (cases p) (auto simp: map_of_eq_None_iff)
  qed simp
  then show ?thesis by (simp add: first_values_def)
qed

definition well_read :: "http_request \<Rightarrow> bool" where
  "well_read rq \<longleftrightarrow>
     length (rq_headers rq) < MAX_HEADER_LINES \<and> distinct (map fst (rq_headers rq)) \<and>
     list_all (\<lambda>u. py_lower (fst u) = fst u) (rq_headers rq) \<and>
     (case content_length (rq_headers rq) of Inl e \<Rightarrow> False | Inr n \<Rightarrow> 0 \<le> n \<and> n \<le> MAX_BODY_BYTES) \<and>
     distinct (map fst (rq_query rq))"

definition finds_well_read :: "http_request option result \<Rightarrow> bool" where
  "finds_well_read r \<longleftrightarrow> (\<forall>rq. r = Inr (Some rq) \<longrightarrow> well_read rq)"

lemma finds_well_read_simps [simp]:
  "finds_well_read (Inl e)" "finds_well_read (Inr None)" "finds_well_read (Inr (Some rq)) \<longleftrightarrow> well_read rq"
  by (simp_all add: finds_well_read_def)

lemma finds_well_read_bind:
  "(\<And>x. r = Inr x \<Longrightarrow> finds_well_read (f x)) \<Longrightarrow> finds_well_read (bind_res r f)"
  by (cases r) simp_all

lemma read_request_well_read: "finds_well_read (read_request ok c)"
proof -
  have "well_read \<lparr>rq_method = m, rq_path = p, rq_query = first_values ps, rq_headers = hs, rq_cookies = cs\<rparr>"
    if "read_headers MAX_HEADER_LINES [] c1 = Inr (Some hs, c2)" "content_length hs = Inr n"
      "0 \<le> n" "n \<le> MAX_BODY_BYTES" for m p ps hs cs c1 c2 n
    using read_headers_found [OF that(1)] that(2-4) first_values_names by (auto simp: well_read_def)
  then show ?thesis
    by (auto simp: read_request_def Let_def intro!: finds_well_read_bind split: list.split option.split)
qed

end
