(* ===== verification/DemoAnswers.thy ===== *)
theory DemoAnswers
  imports DemoGuards DemoLimits
begin

text \<open>
  Every handler of the example ends with a response that can be sent: printable headers, a known status,
  a body with a UTF-8 form. A connection is therefore answered, or hung up on if its request cannot be
  read, and no exception leaves it.
\<close>

section \<open>Every answer is well formed\<close>

definition app_valid :: "'k demo_app \<Rightarrow> bool" where
  "app_valid ap \<longleftrightarrow> config_valid (sv_config (ap_dbsc ap)) \<and>
     list_all scope_rule_valid (cfg_scope_specification (sv_config (ap_dbsc ap)))"

lemma context_instructable:
  "context_of ap rq sid s = Inr ctx \<Longrightarrow> app_valid ap \<Longrightarrow> instructable (ap_dbsc ap) ctx"
  by (auto simp: context_of_def RequestContext_def bind_res_eq_Inr app_valid_def instructable_def config_valid_def
      allowed_refresh_initiators_def scope_specification_def)

lemma visible_encodable: "list_all visible s \<Longrightarrow> encodable s"
  by (auto simp: encodable_def list_ex_iff list_all_iff visible_def is_surrogate_def)

lemma body_encodable:
  assumes "instructable sv ctx" and "is_sf_string_safe i"
  shows "encodable (instructions_json sv i ctx)"
  unfolding instructions_json_def
  by (intro visible_encodable dumps_visible instructions_ok [OF assms])

text \<open>The contexts of the requests that answer with session instructions.\<close>

fun instructed :: "'k server \<Rightarrow> request \<Rightarrow> bool" where
  "instructed sv (Register jwt ctx) \<longleftrightarrow> instructable sv ctx"
| "instructed sv (Refresh jwt ctx) \<longleftrightarrow> instructable sv ctx"
| "instructed sv r \<longleftrightarrow> True"

lemma issued_shape: "issued n ctx es d \<Longrightarrow>
    rs_status d = Some 403 \<and> rs_body d = None \<and> rs_content_type d = Some (S ''application/json'')"
  by (auto simp: issued_def challenge_403_def bare_403_def empty_response_def)

lemma response_answerable:
  assumes run: "runs (serve sv r) es (Inr d)" and ok: "list_all reply_valid es"
    and cfg: "config_valid (sv_config sv)" and ctx: "instructed sv r"
  shows "answerable (sv_config sv) d"
proof -
  have "rs_status d \<in> {None, Some 200, Some 403} \<and> pred_option encodable (rs_body d) \<and>
      rs_content_type d \<in> {None, Some (S ''application/json'')}"
  proof (cases r)
    case (Offer c)
    with run show ?thesis by (auto simp: offer_iff empty_response_def)
  next
    case (Register jwt c)
    with run obtain b t where "binding_valid b" "d = register_response sv c b t"
      by (auto simp: register_success_iff)
    with ctx Register show ?thesis by (simp add: register_response_def body_encodable valid_binding_safe)
  next
    case (IssueChallenge c)
    with run have "issued 3 c es d"
      by (simp add: issue_refresh_challenge_def MAX_UPDATE_ATTEMPTS_def issue_success)
    from issued_shape [OF this] show ?thesis by simp
  next
    case (Refresh jwt c)
    with run have "refreshed 3 sv jwt c es d"
      by (simp add: refresh_def MAX_UPDATE_ATTEMPTS_def refresh_success)
    then obtain b t where "binding_valid b" "d = refresh_response sv c b t"
      unfolding refreshed_def by blast
    with ctx Refresh show ?thesis by (simp add: refresh_response_def body_encodable valid_binding_safe)
  next
    case (Revoke c et)
    with run have "d = revoke_response sv" by (auto dest: revoke_success)
    then show ?thesis by (simp add: revoke_response_def empty_response_def)
  next
    case (Advertise b c)
    with run have "runs (advertise_refresh_challenge sv b c) es (Inr d)" by simp
    from advertise_conduct [OF this] show ?thesis by (auto simp: empty_response_def)
  qed
  with response_safe [OF run ok cfg] show ?thesis by (simp add: answerable_def)
qed

abbreviation well :: "http_response verdict" where
  "well \<equiv> answers_with (\<lambda>_. well_formed)"

lemma serve_applied:
  assumes "applied (sv_config sv) r d r'" and "runs (serve sv rq) es (Inr d)" and "list_all reply_valid es"
    and "config_valid (sv_config sv)" and "instructed sv rq" and "well_formed r"
  shows "well_formed r'"
  using assms response_answerable [OF assms(2-5)] by (simp add: applied_def)

lemma terminate_well:
  "app_valid ap \<Longrightarrow> well_formed r \<Longrightarrow> meets (terminate_session ap ctx r) h well"
  using revoke_answerable
  by (intro terminate_meets)
    (auto simp: app_valid_def applied_def well_formed_def redirect_def safe_header_def S_visible visible_def)

lemma json_error_well: "status \<in> {401, 403} \<Longrightarrow> well_formed r \<Longrightarrow> well_formed (json_error status r)"
proof -
  have "safe_header (S ''Content-Type'', S ''application/json'')" "list_all visible (S ''{\"ok\": false}'')"
    by (simp_all add: safe_header_def S_visible visible_def)
  then show "status \<in> {401, 403} \<Longrightarrow> well_formed r \<Longrightarrow> well_formed (json_error status r)"
    by (auto simp: json_error_def Let_def well_formed_def set_header_safe visible_encodable)
qed

lemma page_bodies:
  "well_formed r \<Longrightarrow> well_formed (r\<lparr>rp_body := COOKIE_AUTH_PAGE\<rparr>)"
  "well_formed r \<Longrightarrow> well_formed (r\<lparr>rp_body := BOUND_PAGE\<rparr>)"
  "well_formed r \<Longrightarrow> list_all visible b \<Longrightarrow> well_formed (r\<lparr>rp_body := b\<rparr>)"
  by (auto simp: well_formed_def COOKIE_AUTH_PAGE_def BOUND_PAGE_def S_visible visible_def intro!: visible_encodable)

lemmas served =
  serve_applied [where rq = "Offer ctx" for ctx, simplified]
  serve_applied [where rq = "Register jwt ctx" for jwt ctx, simplified]
  serve_applied [where rq = "IssueChallenge ctx" for ctx, simplified]
  serve_applied [where rq = "Refresh jwt ctx" for jwt ctx, simplified]
  serve_applied [where rq = "Revoke ctx et" for ctx et, simplified]
  serve_applied [where rq = "Advertise b ctx" for b ctx, simplified]

lemma account_well:
  assumes "app_valid ap" and "well_formed r"
  shows "meets (account_route ap rq sid r) h well"
proof -
  have cfg: "config_valid (sv_config (ap_dbsc ap))" using assms(1) by (simp add: app_valid_def)
  have ends: "meets (terminate_session ap ctx r) h' well" for ctx h' by (rule terminate_well [OF assms])
  have redirected: "well_formed (redirect (S ''?route=login'') r)"
    using assms(2) by (simp add: redirect_def well_formed_def safe_header_def S_visible visible_def)
  have page: "meets (bound_page ap ctx r b) h' well" for ctx b h'
    unfolding bound_page_def
    by (rule meets_await)
      (auto simp: ends assms(2) intro!: page_bodies meets_applied [where cfg = "sv_config (ap_dbsc ap)"]
        elim!: served(6) intro: cfg)
  show ?thesis
    unfolding account_route_code
    by (auto intro!: meets_with_context redirected) (rule meets_try_await, auto simp: ends page page_bodies assms(2) split: option.split)
qed

lemma register_well:
  assumes "app_valid ap" and "well_formed r"
  shows "meets (register_route ap rq sid r) h well"
proof -
  have cfg: "config_valid (sv_config (ap_dbsc ap))" using assms(1) by (simp add: app_valid_def)
  have bad: "well_formed (r\<lparr>rp_status := 400\<rparr>)" using assms(2) by (simp add: well_formed_def)
  show ?thesis
    unfolding register_route_def Let_def
    by (rule meets_with_context)
      (auto intro!: meets_try_applied [where cfg = "sv_config (ap_dbsc ap)"] json_error_well
        simp: bad assms(2) elim!: served(2) intro: cfg context_instructable [OF _ assms(1)])
qed

lemma challenge_well:
  assumes "config_valid (sv_config (ap_dbsc ap))" and "well_formed r"
  shows "meets (await (bind (issue_refresh_challenge ctx) (apply_response r)) Done) h well"
  by (auto intro!: meets_applied [where cfg = "sv_config (ap_dbsc ap)"] elim!: served(3) simp: assms)

lemma refresh_well:
  assumes "app_valid ap" and "well_formed r"
  shows "meets (refresh_route ap rq sid r) h well"
proof -
  have cfg: "config_valid (sv_config (ap_dbsc ap))" using assms(1) by (simp add: app_valid_def)
  have ended: "meets (await (bind (revoke (ap_dbsc ap) ctx True) (apply_response r)) (\<lambda>r1.
      Sessions (\<lambda>s. (s(sid \<mapsto> []), Done (json_error 401 r1))))) h' well" for ctx h'
    by (auto intro!: meets_applied [where cfg = "sv_config (ap_dbsc ap)"] json_error_well
        elim!: served(5) simp: cfg assms(2))
  show ?thesis
    unfolding refresh_route_def Let_def
    by (rule meets_with_context)
      (auto intro!: meets_try_applied [where cfg = "sv_config (ap_dbsc ap)"]
        simp: challenge_well [OF cfg assms(2)] ended assms(2)
        elim!: served(4) intro: cfg context_instructable [OF _ assms(1)])
qed

lemma log_in_well:
  assumes "app_valid ap" and "well_formed r"
  shows "meets (log_in ap rq sid r) h well"
proof -
  have cfg: "config_valid (sv_config (ap_dbsc ap))" using assms(1) by (simp add: app_valid_def)
  have page: "list_all visible (S ''Logged in. DBSC registration offered. <a href='?route=account'>Account</a>'')"
    by (simp add: S_visible visible_def)
  show ?thesis
    unfolding log_in_def
    by (auto intro!: meets_with_context meets_applied [where cfg = "sv_config (ap_dbsc ap)"] page_bodies(3) page
        elim!: served(1) simp: cfg assms(2))
qed

lemma logout_well:
  assumes "app_valid ap" and "well_formed r"
  shows "meets (logout_route ap rq sid r) h well"
proof -
  have cfg: "config_valid (sv_config (ap_dbsc ap))" using assms(1) by (simp add: app_valid_def)
  have page: "list_all visible (S ''Logged out. <a href='?route=login'>Log in</a>'')"
    by (simp add: S_visible visible_def)
  show ?thesis
    unfolding logout_route_def
    by (auto intro!: meets_with_context meets_applied [where cfg = "sv_config (ap_dbsc ap)"] page_bodies(3) page
        elim!: served(5) simp: cfg assms(2))
qed

lemma new_session_well:
  assumes "well_formed r" and "\<And>sid h' r'. well_formed r' \<Longrightarrow> meets (k sid r') h' well"
  shows "meets (new_session ap r k) h well"
proof -
  have "safe_header (S ''Set-Cookie'', app_cookie ap v)" if "url_token v" for v
  proof -
    have "visible c" if "alnum_cls c \<or> c = 45 \<or> c = 95" for c
      using that alnum_visible by (elim disjE) (blast, simp_all add: visible_def)
    with that have "list_all visible v" by (simp add: url_token_def list_all_iff)
    then show ?thesis
      by (simp add: safe_header_def app_cookie_def APP_SESSION_COOKIE_def S_visible) (simp add: visible_def)
  qed
  then show ?thesis using assms by (auto simp: new_session_def well_formed_def intro!: assms(2))
qed

lemma login_well:
  assumes "app_valid ap" and "well_formed r"
  shows "meets (login_route ap rq sid fresh r) h well"
proof -
  have cfg: "config_valid (sv_config (ap_dbsc ap))" using assms(1) by (simp add: app_valid_def)
  have again: "meets (Sessions (\<lambda>s. case s sid of
      None \<Rightarrow> (s, Fail (Exn KeyError sid))
    | Some _ \<Rightarrow> (s(sid := None), new_session ap r1 (\<lambda>session_id' r2. log_in ap rq session_id' r2)))) h' well"
    if "well_formed r1" for r1 h'
    using that assms(1) by (auto split: option.split intro!: new_session_well log_in_well)
  show ?thesis
    using assms
    by (auto simp: login_route_def intro!: log_in_well meets_with_context again
        meets_applied [where cfg = "sv_config (ap_dbsc ap)"] elim!: served(5) simp: cfg)
qed

lemma route_well:
  assumes "app_valid ap" and "well_formed r"
  shows "meets (route ap rq sid fresh r) h well"
proof -
  have "list_all visible (S ''<a href='?route=login'>Log in</a> to start the DBSC demo (use a DBSC-capable browser over HTTPS).'')"
    by (simp add: S_visible visible_def)
  then show ?thesis
    using assms
    by (auto simp: route_def Let_def page_bodies(3) register_well refresh_well login_well logout_well account_well)
qed

lemma handle_well: "app_valid ap \<Longrightarrow> meets (handle ap rq) h well"
proof -
  assume "app_valid ap"
  moreover have "well_formed (Response 200)" by (simp add: well_formed_def Response_def encodable_def)
  ultimately show ?thesis by (auto simp: handle_def Let_def intro!: new_session_well route_well)
qed

section \<open>Connections\<close>

text \<open>
  How a connection ends: hung up on if its request could not be read, and otherwise answered with
  bytes that read back as a response, which is a bare 400 for a request that is not HTTP/1.1.
\<close>

definition reads_back :: "bytes \<Rightarrow> http_response \<Rightarrow> bool" where
  "reads_back bs r \<longleftrightarrow>
     (\<exists>reason. http_phrase (rp_status r) = Inr reason \<and>
        read_head bs = Some
          (status_line (rp_status r) reason # map header_line (all_headers r (length (utf8 (rp_body r)))),
           utf8 (rp_body r)))"

definition connection_answer :: "(pystr \<Rightarrow> bool) \<Rightarrow> stream \<Rightarrow> bytes option \<Rightarrow> bool" where
  "connection_answer netloc_ok c answer \<longleftrightarrow>
     (case read_request netloc_ok c of
        Inl e \<Rightarrow> answer = None
      | Inr None \<Rightarrow> \<exists>bs. answer = Some bs \<and> reads_back bs (Response 400)
      | Inr (Some rq) \<Rightarrow> \<exists>bs r. answer = Some bs \<and> reads_back bs r \<and> rp_status r \<in> {200, 302, 400, 401, 403, 500})"

lemma well_formed_encodes:
  assumes "well_formed r"
  shows "\<exists>bs. encode r = Inr bs \<and> reads_back bs r"
proof -
  have "\<exists>reason. http_phrase (rp_status r) = Inr reason"
    using assms by (auto simp: well_formed_def http_phrase_def HTTP_PHRASES_def)
  then obtain reason where "http_phrase (rp_status r) = Inr reason" by blast
  with encode_reads_back [OF _ this] assms show ?thesis by (auto simp: well_formed_def reads_back_def)
qed

definition connection_verdict :: "(pystr \<Rightarrow> bool) \<Rightarrow> stream \<Rightarrow> bytes option verdict" where
  "connection_verdict netloc_ok c h out \<longleftrightarrow> (\<exists>answer. out = Inr answer \<and> connection_answer netloc_ok c answer)"

lemma fixed_answers: "well_formed (Response 400)" "well_formed server_error"
  by (simp_all add: well_formed_def Response_def server_error_def encodable_def S_def is_surrogate_def)

text \<open>A write that fails does so because the connection is gone.\<close>

definition only_lost :: "exn option \<Rightarrow> bool" where
  "only_lost drain \<longleftrightarrow> pred_option (\<lambda>e. isinstance e ConnectionError) drain"

lemma write_answer_meets:
  assumes "well_formed r" and "only_lost drain"
    and "\<And>bs. reads_back bs r \<Longrightarrow> connection_answer netloc_ok c (Some bs)"
  shows "meets (write_answer drain r) h (connection_verdict netloc_ok c)"
  using well_formed_encodes [OF assms(1)] assms(2,3)
  by (auto simp: connection_verdict_def write_answer_def unless_lost_def only_lost_def split: option.split)

lemma on_connection_meets:
  assumes "app_valid ap" and "only_lost drain"
  shows "meets (on_connection netloc_ok ap c drain) h (connection_verdict netloc_ok c)"
proof (cases "read_request netloc_ok c")
  case (Inl e)
  with read_request_hangs_up [of netloc_ok c]
  have "list_ex (isinstance e) [TimeoutError, ValueError, IncompleteReadError, ConnectionError]"
    by (cases e) (auto simp: read_error_def)
  with Inl show ?thesis by (simp add: on_connection_def connection_verdict_def connection_answer_def)
next
  case (Inr found)
  let ?send = "write_answer drain"
  show ?thesis
  proof (cases found)
    case None
    have "meets (?send (Response 400)) h (connection_verdict netloc_ok c)"
      by (rule write_answer_meets [OF fixed_answers(1) assms(2)]) (simp add: connection_answer_def Inr None)
    then show ?thesis by (simp add: on_connection_def respond_def Inr None)
  next
    case (Some rq)
    have sent: "meets (?send r) h' (connection_verdict netloc_ok c)" if "well_formed r" for r h'
      using that assms(2) by (rule write_answer_meets) (use that in \<open>auto simp: connection_answer_def Inr Some well_formed_def\<close>)
    have "meets (app_bind (app_guard server_error (handle ap rq)) ?send) h (connection_verdict netloc_ok c)"
    proof (rule meets_app_bind, rule meets_app_guard, rule meets_mono [OF handle_well [OF assms(1)]])
      fix h' and out :: "http_response result"
      assume "well h' out"
      then show "case out of
          Inl e \<Rightarrow> case Inr server_error of
              Inl e \<Rightarrow> connection_verdict netloc_ok c h' (Inl e)
            | Inr r \<Rightarrow> meets (?send r) h' (connection_verdict netloc_ok c)
        | Inr x \<Rightarrow> case Inr x of
              Inl e \<Rightarrow> connection_verdict netloc_ok c h' (Inl e)
            | Inr r \<Rightarrow> meets (?send r) h' (connection_verdict netloc_ok c)"
        by (cases out) (simp_all add: sent fixed_answers del: meets.simps)
    qed
    then show ?thesis by (simp add: on_connection_def respond_def Inr Some)
  qed
qed

end
