(* ===== verification/DemoSetup.thy ===== *)
theory DemoSetup
  imports DemoAnswers FileStore
begin

text \<open>
  How \<open>examples/demo_server.py\<close> sets itself up: the directory check of \<open>FileStore.__init__\<close>, and the
  configuration and the origin of \<open>main\<close>.
\<close>

unbundle bit_operations_syntax

section \<open>The directory of the store\<close>

text \<open>The process, and what the path of the directory names before the server starts.\<close>

record process =
  pr_win32 :: bool
  pr_euid :: nat
  pr_umask :: int

datatype path_entry = Absent | NotDirectory | Directory nat int

datatype open_error = FileExistsError | SystemExit pystr

text \<open>\<open>directory.mkdir(mode=0o700, parents=True, exist_ok=True)\<close> and \<open>directory.stat()\<close>: owner and mode.\<close>

definition make_directory :: "process \<Rightarrow> path_entry \<Rightarrow> open_error + nat \<times> int" where
  "make_directory p entry =
     (case entry of
        Absent \<Rightarrow> Inr (pr_euid p, 448 AND NOT (pr_umask p))
      | NotDirectory \<Rightarrow> Inl FileExistsError
      | Directory owner mode \<Rightarrow> Inr (owner, mode))"

definition open_file_store ::
  "process \<Rightarrow> pystr \<Rightarrow> path_entry \<Rightarrow> (bytes \<Rightarrow> pystr) \<Rightarrow> nat \<Rightarrow> int \<Rightarrow> int \<Rightarrow> open_error + file_store" where
  "open_file_store p directory entry digest depth challenge_ttl session_ttl =
     bind_res (make_directory p entry) (\<lambda>(owner, mode).
     if \<not> pr_win32 p \<and> (owner \<noteq> pr_euid p \<or> mode AND 63 \<noteq> 0)
     then Inl (SystemExit (S ''Refusing store directory '' @ directory @
       S '': must be owned by you, mode 0700.''))
     else Inr \<lparr>fs_digest = digest, fs_depth = depth,
       fs_challenge_ttl = challenge_ttl, fs_session_ttl = session_ttl\<rparr>)"

text \<open>The store opens only where nobody but its owner can read, write or enter.\<close>

lemma private_bits: "(mode :: int) AND 63 = 0 \<longleftrightarrow> (\<forall>k < 6. \<not> bit mode k)"
proof -
  have "mode AND 63 = take_bit 6 mode" using take_bit_eq_mask [of 6 mode] by (simp add: mask_eq_exp_minus_1)
  then show ?thesis by (simp add: bit_eq_iff bit_take_bit_iff) 
qed

lemma fresh_private: "(448 AND NOT (umask :: int)) AND 63 = 0"
proof -
  have "(448 AND NOT umask) AND 63 = NOT umask AND (448 AND 63)" by (simp only: ac_simps)
  then show ?thesis by simp
qed

lemma open_file_store_iff:
  "open_file_store p directory entry digest depth cttl sttl = Inr st \<longleftrightarrow>
     st = \<lparr>fs_digest = digest, fs_depth = depth, fs_challenge_ttl = cttl, fs_session_ttl = sttl\<rparr> \<and>
     (case entry of
        Absent \<Rightarrow> True
      | NotDirectory \<Rightarrow> False
      | Directory owner mode \<Rightarrow> pr_win32 p \<or> owner = pr_euid p \<and> (\<forall>k < 6. \<not> bit mode k))"
proof (cases entry)
  case (Directory owner mode)
  then show ?thesis by (auto simp: open_file_store_def make_directory_def private_bits [symmetric])
qed (auto simp: open_file_store_def make_directory_def fresh_private)

section \<open>Configuration and origin\<close>

definition demo_config :: "config result" where
  "demo_config =
     bind_res (scope_exclude (Some (S ''/favicon.ico'')) None) (\<lambda>rule.
     Config (config_defaults\<lparr>cfg_cookie_name := S ''__Host-demo_dbsc'', cfg_scope_specification := [rule]\<rparr>))"

definition demo_origin :: "bool \<Rightarrow> pystr \<Rightarrow> int \<Rightarrow> pystr option \<Rightarrow> pystr" where
  "demo_origin tls arg_host arg_port arg_origin =
     (let scheme = (if tls then S ''https'' else S ''http'');
          host = (if arg_host \<in> {S ''127.0.0.1'', S ''::1''} then S ''localhost'' else arg_host) in
      if or_else arg_origin [] \<noteq> [] then or_else arg_origin []
      else scheme @ S ''://'' @ host @ S '':'' @ py_int_str arg_port)"

definition favicon_rule :: scope_rule where
  "favicon_rule = \<lparr>sr_type = EXCLUDE, sr_domain = None, sr_path = Some (S ''/favicon.ico'')\<rparr>"

lemma demo_config_accepted:
  "demo_config = Inr (config_defaults\<lparr>cfg_cookie_name := S ''__Host-demo_dbsc'', cfg_scope_specification := [favicon_rule]\<rparr>)"
  "config_valid (config_defaults\<lparr>cfg_cookie_name := S ''__Host-demo_dbsc'', cfg_scope_specification := [favicon_rule]\<rparr>)"
  "scope_rule_valid favicon_rule"
proof -
  let ?cfg = "config_defaults\<lparr>cfg_cookie_name := S ''__Host-demo_dbsc'', cfg_scope_specification := [favicon_rule]\<rparr>"
  show valid: "config_valid ?cfg" by code_simp
  have "is_path (S ''/favicon.ico'')" by code_simp
  then show rule: "scope_rule_valid favicon_rule" by (simp add: scope_rule_valid_def favicon_rule_def)
  have "scope_exclude (Some (S ''/favicon.ico'')) None = Inr favicon_rule"
    unfolding scope_exclude_def ScopeRule_eq_Inr
    by (intro conjI rule) (simp_all add: favicon_rule_def scope_type_value_def)
  moreover have "Config ?cfg = Inr ?cfg"
    by (rule Config_valid_accepts [OF valid]) (simp add: config_defaults_def)
  ultimately show "demo_config = Inr ?cfg" by (simp add: demo_config_def)
qed

text \<open>The default origin is one.\<close>

lemma demo_default_origin:
  assumes "arg_host \<in> {S ''127.0.0.1'', S ''::1'', S ''localhost''}" and "0 \<le> arg_port" and "arg_port < 65536"
  shows "is_origin (demo_origin False arg_host arg_port None)"
proof -
  have "list_all digit_cls (py_int_str arg_port)" "py_int_str arg_port \<noteq> []" "length (py_int_str arg_port) \<le> 5"
    using assms(2,3) dec_digits_digits [of "nat arg_port"] length_dec_digits [of "nat arg_port" 4]
    by (auto simp: py_int_str_def digit_cls_def in_range_def is_digit_def elim!: list.pred_mono_strong)
  then have "port_suffix (S '':'' @ py_int_str arg_port)"
    unfolding port_suffix_def by (intro disjI2 exI [of _ "py_int_str arg_port"]) (auto simp: Suc_le_eq)
  moreover have "demo_origin False arg_host arg_port None =
      S ''http://'' @ S ''localhost'' @ S '':'' @ py_int_str arg_port"
    using assms(1) by (auto simp: demo_origin_def or_else_def S_def)
  ultimately show ?thesis unfolding is_origin_iff loopback_host_def by blast
qed

end
