(* ===== verification/DemoMain.thy ===== *)
theory DemoMain
  imports DemoSetup
begin

text \<open>
  \<open>main\<close> of \<open>examples/demo_server.py\<close>: what it does to the world, in order, from the parsed command line
  to its end, whatever fails on the way. The world answers through a record: a failure is what the call
  raises. The private directory and the listening server are released as the \<open>with\<close> blocks say.
\<close>

unbundle bit_operations_syntax

section \<open>The command line and the world\<close>

record demo_args =
  da_host :: pystr
  da_port :: int
  da_cert :: "pystr option"
  da_key :: "pystr option"
  da_origin :: "pystr option"
  da_store_dir :: "pystr option"

text \<open>The arguments of an empty command line.\<close>

definition default_args :: demo_args where
  "default_args = \<lparr>da_host = S ''127.0.0.1'', da_port = 8443, da_cert = None, da_key = None,
     da_origin = None, da_store_dir = None\<rparr>"

datatype main_error = KeyboardInterrupt | StoreRefused open_error | ConfigRefused exn | Failed pystr

datatype 'k main_step =
    LoadCert pystr "pystr option"
  | MakeTempDir pystr
  | OpenStore pystr
  | Listen "'k demo_app" file_store pystr int bool
  | Announce pystr
  | AddHandler pystr
  | WaitForStop
  | CloseServer
  | RemoveTempDir pystr

record surroundings =
  su_process :: process
  su_entry :: "pystr \<Rightarrow> path_entry"
  su_load_cert :: "main_error option"
  su_mkdtemp :: "main_error + pystr"
  su_listen :: "main_error option"
  su_print :: "main_error option"
  su_signals :: bool
  su_wait :: "main_error option"

text \<open>What was done so far, and a value or what was raised.\<close>

type_synonym ('k, 'a) script = "'k main_step list \<times> (main_error + 'a)"

definition act :: "'k main_step \<Rightarrow> main_error option \<Rightarrow> ('k, unit) script" where
  "act a failure = ([a], case failure of None \<Rightarrow> Inr () | Some e \<Rightarrow> Inl e)"

definition and_then :: "('k, 'a) script \<Rightarrow> ('a \<Rightarrow> ('k, 'b) script) \<Rightarrow> ('k, 'b) script" where
  "and_then m f =
     (case m of
        (steps, Inl e) \<Rightarrow> (steps, Inl e)
      | (steps, Inr x) \<Rightarrow> (case f x of (more_steps, out) \<Rightarrow> (steps @ more_steps, out)))"

text \<open>The end of a \<open>with\<close> block, reached on every way out of it.\<close>

definition releasing :: "('k, 'a) script \<Rightarrow> 'k main_step \<Rightarrow> ('k, 'a) script" where
  "releasing m a = (case m of (steps, out) \<Rightarrow> (steps @ [a], out))"

section \<open>\<open>main\<close>\<close>

definition load_tls :: "surroundings \<Rightarrow> demo_args \<Rightarrow> ('k, bool) script" where
  "load_tls su args =
     (case da_cert args of
        None \<Rightarrow> ([], Inr False)
      | Some cert \<Rightarrow> and_then (act (LoadCert cert (da_key args)) (su_load_cert su)) (\<lambda>_. ([], Inr True)))"

text \<open>\<open>TemporaryDirectory\<close> makes a directory of its own for this user, of mode 0700.\<close>

definition make_temp_dir :: "surroundings \<Rightarrow> ('k, pystr) script" where
  "make_temp_dir su =
     (case su_mkdtemp su of Inl e \<Rightarrow> ([], Inl e) | Inr d \<Rightarrow> ([MakeTempDir d], Inr d))"

definition store_entry :: "surroundings \<Rightarrow> demo_args \<Rightarrow> pystr \<Rightarrow> pystr \<times> path_entry" where
  "store_entry su args private_dir =
     (case da_store_dir args of
        None \<Rightarrow> (private_dir, Directory (pr_euid (su_process su)) (448 AND NOT (pr_umask (su_process su))))
      | Some dir \<Rightarrow> (dir, su_entry su dir))"

definition open_store ::
  "surroundings \<Rightarrow> demo_args \<Rightarrow> (bytes \<Rightarrow> pystr) \<Rightarrow> nat \<Rightarrow> pystr \<Rightarrow> ('k, file_store) script" where
  "open_store su args digest depth private_dir =
     (case store_entry su args private_dir of (dir, entry) \<Rightarrow>
        ([OpenStore dir], map_sum StoreRefused id (open_file_store (su_process su) dir entry digest depth 900 64800)))"

definition add_handlers :: "surroundings \<Rightarrow> ('k, unit) script" where
  "add_handlers su =
     (if su_signals su then ([AddHandler (S ''SIGINT''), AddHandler (S ''SIGTERM'')], Inr ()) else ([], Inr ()))"

text \<open>From the start of the server on.\<close>

definition run_server :: "surroundings \<Rightarrow> demo_args \<Rightarrow> 'k demo_app \<Rightarrow> file_store \<Rightarrow> bool \<Rightarrow> pystr \<Rightarrow> ('k, unit) script" where
  "run_server su args ap store tls origin =
     and_then (act (Listen ap store (da_host args) (da_port args) tls) (su_listen su)) (\<lambda>_.
     and_then (act (Announce (S ''DBSC demo listening on '' @ origin @ S ''/'')) (su_print su)) (\<lambda>_.
     and_then (add_handlers su) (\<lambda>_.
     releasing (act WaitForStop (su_wait su)) CloseServer)))"

definition demo_main ::
  "'k crypto \<Rightarrow> (bytes \<Rightarrow> pystr) \<Rightarrow> nat \<Rightarrow> surroundings \<Rightarrow> demo_args \<Rightarrow> ('k, unit) script" where
  "demo_main lib digest depth su args =
     and_then (load_tls su args) (\<lambda>tls.
     and_then ([], map_sum ConfigRefused id demo_config) (\<lambda>config.
     let origin = demo_origin tls (da_host args) (da_port args) (da_origin args) in
     and_then (make_temp_dir su) (\<lambda>private_dir.
     releasing
       (and_then (open_store su args digest depth private_dir) (\<lambda>store.
        let ap = \<lparr>ap_dbsc = \<lparr>sv_config = config, sv_lib = lib, sv_depth = depth\<rparr>, ap_origin = origin\<rparr> in
        run_server su args ap store tls origin))
       (RemoveTempDir private_dir))))"

text \<open>The module's last lines: an interrupt ends the program quietly.\<close>

definition demo_program ::
  "'k crypto \<Rightarrow> (bytes \<Rightarrow> pystr) \<Rightarrow> nat \<Rightarrow> surroundings \<Rightarrow> demo_args \<Rightarrow> ('k, unit) script" where
  "demo_program lib digest depth su args =
     (case demo_main lib digest depth su args of
        (steps, Inl KeyboardInterrupt) \<Rightarrow> (steps, Inr ())
      | other \<Rightarrow> other)"

section \<open>How the program ends\<close>

lemma and_then_steps:
  "and_then m f = (steps, out) \<longleftrightarrow>
     (\<exists>e. m = (steps, Inl e) \<and> out = Inl e) \<or>
     (\<exists>as x bs. m = (as, Inr x) \<and> f x = (bs, out) \<and> steps = as @ bs)"
  by (cases m; cases "snd m") (auto simp: and_then_def split: prod.splits)

lemma releasing_steps: "releasing m a = (steps, out) \<longleftrightarrow> (\<exists>as. m = (as, out) \<and> steps = as @ [a])"
  by (cases m) (auto simp: releasing_def)

lemma act_steps: "act a failure = (steps, out) \<longleftrightarrow>
    steps = [a] \<and> out = (case failure of None \<Rightarrow> Inr () | Some e \<Rightarrow> Inl e)"
  by (auto simp: act_def)

lemma and_then_simps:
  "and_then (as, Inl e) f = (as, Inl e)"
  "and_then (as, Inr x) f = (as @ fst (f x), snd (f x))"
  by (simp_all add: and_then_def case_prod_unfold)

lemmas script_steps = and_then_steps releasing_steps act_steps

lemma run_server_steps:
  assumes "run_server su args ap store tls origin = (steps, out)"
  shows "\<exists>more. steps = Listen ap store (da_host args) (da_port args) tls # more \<and>
    (WaitForStop \<in> set more \<longrightarrow> (\<exists>before. more = before @ [WaitForStop, CloseServer])) \<and>
    (\<forall>a \<in> set more. a \<in> {WaitForStop, CloseServer} \<or> (\<exists>s. a \<in> {Announce s, AddHandler s})) \<and>
    (out = Inr () \<longleftrightarrow> WaitForStop \<in> set more \<and> su_wait su = None)"
proof -
  let ?bye = "[WaitForStop, CloseServer]"
  let ?tell = "Announce (S ''DBSC demo listening on '' @ origin @ S ''/'')"
  let ?hs = "if su_signals su then [AddHandler (S ''SIGINT''), AddHandler (S ''SIGTERM'')] else []"
  let ?last = "case su_wait su of None \<Rightarrow> Inr () | Some e \<Rightarrow> Inl e"
  have "steps = [Listen ap store (da_host args) (da_port args) tls] \<and> (\<exists>e. out = Inl e) \<or>
    steps = [Listen ap store (da_host args) (da_port args) tls, ?tell] \<and> (\<exists>e. out = Inl e) \<or>
    steps = [Listen ap store (da_host args) (da_port args) tls, ?tell] @ ?hs @ ?bye \<and> out = ?last"
    using assms by (auto simp: run_server_def script_steps add_handlers_def split: option.splits if_splits)
  then show ?thesis
  proof (elim disjE conjE)
    assume "steps = [Listen ap store (da_host args) (da_port args) tls, ?tell] @ ?hs @ ?bye" and "out = ?last"
    then show ?thesis
      by (intro exI [of _ "?tell # ?hs @ ?bye"]) (auto split: option.split intro: exI [of _ "?tell # ?hs"])
  qed auto
qed

definition tls_steps :: "demo_args \<Rightarrow> 'k main_step list" where
  "tls_steps args = (case da_cert args of None \<Rightarrow> [] | Some cert \<Rightarrow> [LoadCert cert (da_key args)])"

definition demo_settings :: config where
  "demo_settings = config_defaults\<lparr>cfg_cookie_name := S ''__Host-demo_dbsc'', cfg_scope_specification := [favicon_rule]\<rparr>"

definition served_app :: "'k crypto \<Rightarrow> nat \<Rightarrow> demo_args \<Rightarrow> 'k demo_app" where
  "served_app lib depth args = \<lparr>ap_dbsc = \<lparr>sv_config = demo_settings, sv_lib = lib, sv_depth = depth\<rparr>,
     ap_origin = demo_origin (da_cert args \<noteq> None) (da_host args) (da_port args) (da_origin args)\<rparr>"

lemma served_app_valid: "app_valid (served_app lib depth args)"
  using demo_config_accepted(2,3) by (simp add: app_valid_def served_app_def demo_settings_def)

lemma load_tls_steps:
  "load_tls su args = (tls_steps args, Inr (da_cert args \<noteq> None)) \<or> (\<exists>e. load_tls su args = (tls_steps args, Inl e))"
  by (cases "da_cert args"; cases "su_load_cert su")
    (simp_all add: load_tls_def tls_steps_def and_then_def act_def)

lemma demo_main_cases:
  fixes lib :: "'k crypto"
  assumes "demo_main lib digest depth su args = (steps, out)"
  obtains (early) "steps = tls_steps args" "\<exists>e. out = Inl e"
    | (entered) d body where "su_mkdtemp su = Inr d"
      "steps = tls_steps args @ MakeTempDir d # OpenStore (fst (store_entry su args d)) # body @ [RemoveTempDir d]"
      "body = [] \<and> (\<exists>e. out = Inl e) \<or>
       (\<exists>st. open_store su args digest depth d = ([OpenStore (fst (store_entry su args d))] :: 'k main_step list, Inr st) \<and>
          run_server su args (served_app lib depth args) st (da_cert args \<noteq> None)
            (ap_origin (served_app lib depth args)) = (body, out))"
proof -
  have config: "demo_config = Inr demo_settings" by (simp add: demo_config_accepted(1) demo_settings_def)
  let ?ap = "served_app lib depth args"
  have main: "demo_main lib digest depth su args = and_then (load_tls su args) (\<lambda>tls. and_then (make_temp_dir su) (\<lambda>d.
      releasing (and_then (open_store su args digest depth d) (\<lambda>st.
        run_server su args (?ap\<lparr>ap_origin := demo_origin tls (da_host args) (da_port args) (da_origin args)\<rparr>) st tls
          (demo_origin tls (da_host args) (da_port args) (da_origin args)))) (RemoveTempDir d)))"
    by (simp add: demo_main_def config and_then_def served_app_def Let_def)
  have opened: "(\<exists>st. open_store su args digest depth d = ([OpenStore (fst (store_entry su args d))] :: 'k main_step list, Inr st)) \<or>
      (\<exists>e. open_store su args digest depth d = ([OpenStore (fst (store_entry su args d))] :: 'k main_step list, Inl e))" for d
    by (cases "snd (open_store su args digest depth d)") (auto simp: open_store_def split: prod.splits)
  have "(load_tls su args :: ('k, bool) script) = (tls_steps args, Inr (da_cert args \<noteq> None)) \<or>
      (\<exists>e. (load_tls su args :: ('k, bool) script) = (tls_steps args, Inl e))" by (rule load_tls_steps)
  then show ?thesis
  proof (elim disjE exE)
    fix e
    assume "(load_tls su args :: ('k, bool) script) = (tls_steps args, Inl e)"
    then show ?thesis using assms early by (auto simp: main and_then_simps)
  next
    assume ok: "(load_tls su args :: ('k, bool) script) = (tls_steps args, Inr (da_cert args \<noteq> None))"
    show ?thesis
    proof (cases "su_mkdtemp su")
      case (Inl e)
      then show ?thesis using assms early by (auto simp: main ok and_then_simps make_temp_dir_def)
    next
      case (Inr d)
      from opened [of d] show ?thesis
      proof (elim disjE exE)
        fix st
        assume st: "open_store su args digest depth d = ([OpenStore (fst (store_entry su args d))] :: 'k main_step list, Inr st)"
        moreover obtain body out1 where
          body: "run_server su args ?ap st (da_cert args \<noteq> None) (ap_origin ?ap) = (body, out1)"
          by (cases "run_server su args ?ap st (da_cert args \<noteq> None) (ap_origin ?ap)")
        moreover have "?ap\<lparr>ap_origin := ap_origin ?ap\<rparr> = ?ap"
          "demo_origin (da_cert args \<noteq> None) (da_host args) (da_port args) (da_origin args) = ap_origin ?ap"
          by (simp_all add: served_app_def)
        ultimately have "demo_main lib digest depth su args =
            (tls_steps args @ MakeTempDir d # OpenStore (fst (store_entry su args d)) # body @ [RemoveTempDir d], out1)"
          by (simp only: main ok and_then_simps make_temp_dir_def Inr sum.case releasing_def case_prod_unfold
              fst_conv snd_conv append_Nil append_Cons append_assoc)
        with assms body st show ?thesis
          by (intro entered [OF Inr]) auto
      next
        fix e
        assume "open_store su args digest depth d = ([OpenStore (fst (store_entry su args d))] :: 'k main_step list, Inl e)"
        then show ?thesis
          using assms Inr entered [of d "[]"]
          by (auto simp: main ok and_then_simps make_temp_dir_def releasing_def case_prod_unfold)
      qed
    qed
  qed
qed

text \<open>Only the owner of the directory can get at the records.\<close>

definition kept_private :: "surroundings \<Rightarrow> path_entry \<Rightarrow> bool" where
  "kept_private su entry =
     (case entry of
        Absent \<Rightarrow> True
      | NotDirectory \<Rightarrow> False
      | Directory owner mode \<Rightarrow>
          pr_win32 (su_process su) \<or> owner = pr_euid (su_process su) \<and> (\<forall>k < 6. \<not> bit mode k))"

lemma open_store_private:
  "open_store su args digest depth d = (as, Inr st) \<Longrightarrow> kept_private su (snd (store_entry su args d))"
  by (auto simp: open_store_def kept_private_def open_file_store_iff split: prod.splits)
    (auto simp: map_sum_def open_file_store_iff split: sum.splits path_entry.splits)

lemma program_main:
  "demo_program lib digest depth su args = (steps, out) \<longleftrightarrow>
     (\<exists>o1. demo_main lib digest depth su args = (steps, o1) \<and> out = (if o1 = Inl KeyboardInterrupt then Inr () else o1))"
  by (auto simp: demo_program_def split: prod.splits sum.splits main_error.splits)

lemma tls_steps_only: "a \<in> set (tls_steps args) \<Longrightarrow> \<exists>c k. a = LoadCert c k"
  by (auto simp: tls_steps_def split: option.splits)

text \<open>The shape of a run that has made its directory.\<close>

lemma program_shape:
  fixes lib :: "'k crypto"
  assumes "demo_main lib digest depth su args = (steps, out)"
  obtains (early) "steps = tls_steps args"
    | (refused) d where "su_mkdtemp su = Inr d" "steps = tls_steps args @ [MakeTempDir d, OpenStore (fst (store_entry su args d)), RemoveTempDir d]"
    | (served) d st more where "su_mkdtemp su = Inr d" "kept_private su (snd (store_entry su args d))"
      "steps = tls_steps args @ MakeTempDir d # OpenStore (fst (store_entry su args d)) #
        Listen (served_app lib depth args) st (da_host args) (da_port args) (da_cert args \<noteq> None) # more @ [RemoveTempDir d]"
      "WaitForStop \<in> set more \<longrightarrow> (\<exists>before. more = before @ [WaitForStop, CloseServer])"
      "\<forall>a \<in> set more. a \<in> {WaitForStop, CloseServer} \<or> (\<exists>s. a \<in> {Announce s, AddHandler s})"
  using assms
proof (cases rule: demo_main_cases)
  case early
  then show ?thesis using that(1) by blast
next
  case (entered d body)
  from entered(3) show ?thesis
  proof (elim disjE exE conjE)
    assume "body = []"
    then show ?thesis using entered(1,2) that(2) by simp
  next
    fix st
    assume opened: "open_store su args digest depth d = ([OpenStore (fst (store_entry su args d))] :: 'k main_step list, Inr st)"
      and run: "run_server su args (served_app lib depth args) st (da_cert args \<noteq> None)
        (ap_origin (served_app lib depth args)) = (body, out)"
    from run_server_steps [OF run] obtain more where
      more: "body = Listen (served_app lib depth args) st (da_host args) (da_port args) (da_cert args \<noteq> None) # more"
      "WaitForStop \<in> set more \<longrightarrow> (\<exists>before. more = before @ [WaitForStop, CloseServer])"
      "\<forall>a \<in> set more. a \<in> {WaitForStop, CloseServer} \<or> (\<exists>s. a \<in> {Announce s, AddHandler s})"
      by blast
    have "steps = tls_steps args @ MakeTempDir d # OpenStore (fst (store_entry su args d)) #
        Listen (served_app lib depth args) st (da_host args) (da_port args) (da_cert args \<noteq> None) # more @ [RemoveTempDir d]"
      using entered(2) more(1) by simp
    then show ?thesis by (rule that(3) [OF entered(1) open_store_private [OF opened] _ more(2,3)])
  qed
qed

end
