(* ===== verification/BrowserCache.thy ===== *)
theory BrowserCache
  imports PyText Regex "HOL-Library.AList"
begin

text \<open>
  \<open>scripts/fetch_e2e_browser.py\<close>: the directory of downloaded browsers. What the download and the archive
  hold is an argument; a directory is what \<open>iterdir\<close> lists, in its order, and a folder in it a tree of paths.
  Every access to the disk is taken as permitted, and no folder of an archive holds a symbolic link.
\<close>

unbundle bit_operations_syntax

section \<open>Files\<close>

datatype node = File bytes int | Folder int

type_synonym tree = "pystr list \<rightharpoonup> node"

datatype cache_entry = PlainFile | FolderAt tree | LinkToFolder tree | OtherLink

type_synonym cache = "(pystr \<times> cache_entry) list"

text \<open>What opening the download, reading a member or an access to the disk can raise.\<close>

datatype fetch_error = FetchOSError | FetchBadZipFile | FetchValueError | FetchSystemExit pystr

text \<open>
  An entry of the archive; reading it either cannot begin, or gives some bytes and may then fail.
\<close>

record zip_info =
  zi_filename :: pystr
  zi_external_attr :: int
  zi_read :: "fetch_error + bytes \<times> fetch_error option"

definition zip_is_dir :: "zip_info \<Rightarrow> bool" where
  "zip_is_dir info \<longleftrightarrow> zi_filename info \<noteq> [] \<and> last (zi_filename info) = 47"

definition member_path :: "zip_info \<Rightarrow> pystr list" where
  "member_path info = filter (\<lambda>x. x \<notin> {[], S ''.'', S ''..''}) (py_split 47 (zi_filename info))"

text \<open>\<open>os.makedirs\<close> for the folders above a path, from the outermost one.\<close>

fun make_parents :: "int \<Rightarrow> pystr list list \<Rightarrow> tree \<Rightarrow> (fetch_error + unit) \<times> tree" where
  "make_parents umask [] t = (Inr (), t)"
| "make_parents umask (p # ps) t =
     (case t p of
        None \<Rightarrow> make_parents umask ps (t(p \<mapsto> Folder (511 AND NOT umask)))
      | Some (Folder m) \<Rightarrow> make_parents umask ps t
      | Some (File bs m) \<Rightarrow> (Inl FetchOSError, t))"

definition parents :: "pystr list \<Rightarrow> pystr list list" where
  "parents p = map (\<lambda>n. take n p) [1 ..< length p]"

text \<open>\<open>ZipFile.extract\<close>, then \<open>chmod\<close> with the permissions of the archive, if it has any.\<close>

definition extract_member :: "int \<Rightarrow> zip_info \<Rightarrow> tree \<Rightarrow> (fetch_error + unit) \<times> tree" where
  "extract_member umask info t =
     (let path = member_path info in
      if path = [] \<and> \<not> zip_is_dir info then (Inl FetchValueError, t)
      else (case make_parents umask (parents path) t of
        (Inl e, t1) \<Rightarrow> (Inl e, t1)
      | (Inr _, t1) \<Rightarrow>
          if zip_is_dir info then
            (case t1 path of
               None \<Rightarrow> (Inr (), t1(path \<mapsto> Folder (511 AND NOT umask)))
             | Some (Folder m) \<Rightarrow> (Inr (), t1)
             | Some (File bs m) \<Rightarrow> (Inl FetchOSError, t1))
          else (case zi_read info of
              Inl e \<Rightarrow> (Inl e, t1)
            | Inr (bs, failure) \<Rightarrow>
                (case t1 path of
                   Some (Folder m) \<Rightarrow> (Inl FetchOSError, t1)
                 | found \<Rightarrow>
                     (case failure of Some e \<Rightarrow> Inl e | None \<Rightarrow> Inr (),
                      t1(path \<mapsto> File bs (case found of Some (File _ m) \<Rightarrow> m | _ \<Rightarrow> 438 AND NOT umask)))))))"

definition chmod :: "pystr list \<Rightarrow> int \<Rightarrow> tree \<Rightarrow> tree" where
  "chmod path mode t = t(path := map_option (\<lambda>n. case n of File bs _ \<Rightarrow> File bs mode | Folder _ \<Rightarrow> Folder mode) (t path))"

fun extract_all :: "int \<Rightarrow> zip_info list \<Rightarrow> tree \<Rightarrow> (fetch_error + unit) \<times> tree" where
  "extract_all umask [] t = (Inr (), t)"
| "extract_all umask (info # infos) t =
     (case extract_member umask info t of
        (Inl e, t1) \<Rightarrow> (Inl e, t1)
      | (Inr _, t1) \<Rightarrow>
          (let mode = drop_bit 16 (zi_external_attr info) in
           extract_all umask infos (if mode \<noteq> 0 then chmod (member_path info) (mode AND 4095) t1 else t1)))"

section \<open>\<open>fetch\<close>\<close>

definition CHROME_VERSION :: pystr where
  "CHROME_VERSION = S ''149.0.7827.55''"

definition chrome_path :: "pystr list" where
  "chrome_path = [S ''chrome-linux64'', S ''chrome'']"

definition version_rx :: rx where
  "version_rx =
     (let number = r_plus (RCls digit_cls); dotted = RSeq (r_lit (S ''.'')) number in
      RSeq number (RSeq dotted (RSeq dotted dotted)))"

text \<open>What \<open>root\<close> leads to, and whether \<open>binary\<close> is a file.\<close>

fun folder_of :: "cache_entry option \<Rightarrow> tree option" where
  "folder_of (Some (FolderAt t)) = Some t"
| "folder_of (Some (LinkToFolder t)) = Some t"
| "folder_of e = None"

definition browser_in :: "cache \<Rightarrow> bool" where
  "browser_in cache =
     (case folder_of (map_of cache CHROME_VERSION) of
        None \<Rightarrow> False
      | Some t \<Rightarrow> (case t chrome_path of Some (File bs m) \<Rightarrow> True | _ \<Rightarrow> False))"

text \<open>\<open>root.mkdir(parents=True, exist_ok=True)\<close>; a \<open>dest\<close> that is missing is an empty one.\<close>

definition make_root :: "int \<Rightarrow> cache \<Rightarrow> fetch_error + cache \<times> tree" where
  "make_root umask cache =
     (case map_of cache CHROME_VERSION of
        None \<Rightarrow> (let t = [[] \<mapsto> Folder (511 AND NOT umask)] in Inr (cache @ [(CHROME_VERSION, FolderAt t)], t))
      | Some entry \<Rightarrow>
          (case folder_of (Some entry) of None \<Rightarrow> Inl FetchOSError | Some t \<Rightarrow> Inr (cache, t)))"

fun with_tree :: "tree \<Rightarrow> cache_entry \<Rightarrow> cache_entry" where
  "with_tree t (FolderAt _) = FolderAt t"
| "with_tree t (LinkToFolder _) = LinkToFolder t"
| "with_tree t e = e"

definition put_root :: "tree \<Rightarrow> cache \<Rightarrow> cache" where
  "put_root t cache = map (\<lambda>(n, e). (n, if n = CHROME_VERSION then with_tree t e else e)) cache"

text \<open>The loop over \<open>dest.iterdir()\<close>.\<close>

fun is_old :: "pystr \<times> cache_entry \<Rightarrow> bool" where
  "is_old (name, FolderAt t) \<longleftrightarrow> name \<noteq> CHROME_VERSION \<and> re_fullmatch version_rx name"
| "is_old (name, e) \<longleftrightarrow> False"

definition prune :: "cache \<Rightarrow> cache" where
  "prune cache = filter (\<lambda>old. \<not> is_old old) cache"

definition fetch ::
  "int \<Rightarrow> fetch_error + zip_info list \<Rightarrow> cache \<Rightarrow> (fetch_error + pystr list) \<times> cache" where
  "fetch umask download cache =
     (let binary = CHROME_VERSION # chrome_path in
      if browser_in cache then (Inr binary, prune cache)
      else (case make_root umask cache of
        Inl e \<Rightarrow> (Inl e, cache)
      | Inr (cache1, t) \<Rightarrow>
      (case download of
        Inl e \<Rightarrow> (Inl e, cache1)
      | Inr infos \<Rightarrow>
      (case extract_all umask infos t of
        (Inl e, t1) \<Rightarrow> (Inl e, put_root t1 cache1)
      | (Inr _, t1) \<Rightarrow>
          (let cache2 = put_root t1 cache1 in
           if \<not> browser_in cache2
           then (Inl (FetchSystemExit (S ''Download did not contain '' @ py_join 47 chrome_path)), cache2)
           else (Inr binary, prune cache2))))))"

definition fetch_main ::
  "pystr \<Rightarrow> int \<Rightarrow> fetch_error + zip_info list \<Rightarrow> cache \<Rightarrow> (fetch_error + pystr list) \<times> cache" where
  "fetch_main platform umask download cache =
     (if platform \<noteq> S ''linux''
      then (Inl (FetchSystemExit (S ''The pinned e2e browser is only fetched for Linux x86-64.'')), cache)
      else fetch umask download cache)"

section \<open>What a run leaves\<close>

lemma map_of_put_root:
  "map_of (put_root t cache) name =
     (if name = CHROME_VERSION then map_option (with_tree t) (map_of cache name) else map_of cache name)"
  by (induction cache) (auto simp: put_root_def)

lemma map_of_prune:
  assumes "distinct (map fst cache)"
  shows "map_of (prune cache) name =
    (case map_of cache name of
       None \<Rightarrow> None
     | Some e \<Rightarrow> if is_old (name, e) then None else Some e)"
  using assms
proof (induction cache)
  case (Cons x cache)
  have "map_of (prune cache) name = None" if "name \<notin> fst ` set cache"
    using that by (auto simp: map_of_eq_None_iff prune_def)
  moreover have "map_of cache name = None \<longleftrightarrow> name \<notin> fst ` set cache" by (simp add: map_of_eq_None_iff)
  ultimately show ?case using Cons by (cases x) (auto simp: prune_def split: option.splits)
qed (simp add: prune_def)

lemma prune_keeps_pinned: "map_of (prune cache) CHROME_VERSION = map_of cache CHROME_VERSION"
proof (induction cache)
  case (Cons x cache)
  then show ?case by (cases "is_old x"; cases x; cases "snd x") (auto simp: prune_def)
qed (simp add: prune_def)

lemma browser_prune [simp]: "browser_in (prune cache) = browser_in cache"
  by (simp add: browser_in_def prune_keeps_pinned)

lemma prune_prune [simp]: "prune (prune cache) = prune cache"
  by (simp add: prune_def)

lemma make_root_other: "make_root umask cache = Inr (cache1, t) \<Longrightarrow> name \<noteq> CHROME_VERSION \<Longrightarrow>
    map_of cache1 name = map_of cache name"
  by (auto simp: make_root_def Let_def map_add_def split: option.splits)

lemma make_root_distinct:
  "make_root umask cache = Inr (cache1, t) \<Longrightarrow> distinct (map fst cache) \<Longrightarrow> distinct (map fst cache1)"
  by (auto simp: make_root_def Let_def map_of_eq_None_iff split: option.splits)

lemma put_root_names [simp]: "map fst (put_root t cache) = map fst cache"
  by (simp add: put_root_def case_prod_unfold comp_def)

text \<open>A run ends with the pinned browser in place and the old ones gone, or touches no other entry.\<close>

lemma fetch_cases:
  assumes "fetch umask download cache = (out, cache')"
  obtains (fetched) cache1 where "out = Inr (CHROME_VERSION # chrome_path)" "cache' = prune cache1" "browser_in cache1"
      "distinct (map fst cache) \<longrightarrow> distinct (map fst cache1)"
      "\<forall>name. name \<noteq> CHROME_VERSION \<longrightarrow> map_of cache1 name = map_of cache name"
      "browser_in cache \<longrightarrow> cache1 = cache"
    | (failed) e where "out = Inl e" "\<not> browser_in cache"
      "\<forall>name. name \<noteq> CHROME_VERSION \<longrightarrow> map_of cache' name = map_of cache name"
proof (cases "browser_in cache")
  case True
  then show ?thesis using assms fetched [of cache] by (auto simp: fetch_def)
next
  case False
  then show ?thesis
    using assms that(1) [of "put_root _ _"] that(2)
    by (auto simp: fetch_def Let_def map_of_put_root make_root_other make_root_distinct
        split: sum.splits prod.splits if_splits)
qed

section \<open>A download that breaks off\<close>

text \<open>
  An archive whose browser comes before a member that cannot be read: the run fails, and from the next run
  on the incomplete build is taken for the whole one.
\<close>

definition broken_archive :: "zip_info list" where
  "broken_archive =
     [\<lparr>zi_filename = S ''chrome-linux64/chrome'', zi_external_attr = push_bit 16 493, zi_read = Inr ([1], None)\<rparr>,
      \<lparr>zi_filename = S ''chrome-linux64/icudtl.dat'', zi_external_attr = push_bit 16 420, zi_read = Inl FetchBadZipFile\<rparr>]"

lemma broken_paths:
  "map (\<lambda>i. (member_path i, zip_is_dir i)) broken_archive =
     [([S ''chrome-linux64'', S ''chrome''], False), ([S ''chrome-linux64'', S ''icudtl.dat''], False)]"
  by code_simp

lemma interrupted_fetch:
  "\<exists>t. fetch 18 (Inr broken_archive) [] = (Inl FetchBadZipFile, [(CHROME_VERSION, FolderAt t)]) \<and>
     t [S ''chrome-linux64'', S ''icudtl.dat''] = None \<and>
     (\<forall>download. fetch 18 download [(CHROME_VERSION, FolderAt t)] =
       (Inr (CHROME_VERSION # chrome_path), [(CHROME_VERSION, FolderAt t)]))"
proof -
  let ?dir = "Folder (511 AND NOT 18)"
  let ?t = "[[] \<mapsto> ?dir, [S ''chrome-linux64''] \<mapsto> ?dir, chrome_path \<mapsto> File [1] (493 AND 4095)]"
  obtain a b where ab: "broken_archive = [a, b]" by (simp add: broken_archive_def)
  have parts: "zi_read a = Inr ([1], None)" "drop_bit 16 (zi_external_attr a) = 493" "zi_read b = Inl FetchBadZipFile"
    "member_path a = [S ''chrome-linux64'', S ''chrome'']" "\<not> zip_is_dir a"
    "member_path b = [S ''chrome-linux64'', S ''icudtl.dat'']" "\<not> zip_is_dir b"
    using ab broken_paths by (auto simp: broken_archive_def)
  have run: "extract_all 18 broken_archive [[] \<mapsto> ?dir] = (Inl FetchBadZipFile, ?t)"
    by (simp add: ab extract_member_def parts parents_def chmod_def chrome_path_def upt_rec)
  have there: "browser_in [(CHROME_VERSION, FolderAt ?t)]" by (simp add: browser_in_def)
  have "fetch 18 (Inr broken_archive) [] = (Inl FetchBadZipFile, [(CHROME_VERSION, FolderAt ?t)])"
    using run by (simp add: fetch_def make_root_def browser_in_def put_root_def Let_def)
  moreover have "fetch 18 download [(CHROME_VERSION, FolderAt ?t)] =
      (Inr (CHROME_VERSION # chrome_path), [(CHROME_VERSION, FolderAt ?t)])" for download
    using there by (simp add: fetch_def prune_def)
  moreover have "?t [S ''chrome-linux64'', S ''icudtl.dat''] = None" by (simp add: chrome_path_def)
  ultimately show ?thesis by blast
qed

end
