(* ===== verification/DemoSamples.thy ===== *)
theory DemoSamples
  imports Samples FileRuns FileLock DemoRuns DemoWire DemoParse DemoMain BrowserCache
begin

text \<open>
  Concrete inputs for the example: a directory of files that goes through an offer and a registration,
  and requests to the routes.
\<close>

section \<open>A directory\<close>

definition sample_files :: file_store where
  "sample_files = \<lparr>fs_digest = id, fs_depth = 10, fs_challenge_ttl = 900, fs_session_ttl = 86400\<rparr>"

definition sample_disk_world :: "disk world" where
  "sample_disk_world =
     \<lparr>w_store = Map.empty, w_clock = (\<lambda>_. 1000), w_ticks = 0, w_entropy = (\<lambda>n. n div 32), w_drawn = 0, w_audit = []\<rparr>"

lemma sample_files_sound: "sound_files sample_files" "mem_ops_of sample_files = sample_ops"
  "storable_time sample_files 1000"
  by (simp_all add: sound_files_def sample_files_def mem_ops_of_def sample_ops_def storable_time_def int_ok_small)

lemma sample_session: "rc_session_id (request_ctx (sample_requests i)) = S ''s1''" "encodable (S ''s1'')"
proof -
  have "request_ctx (sample_requests i) = sample_ctx"
    using sample_request_cases [of i] by (elim insertE emptyE) (simp_all only: request_ctx.simps)
  then show "rc_session_id (request_ctx (sample_requests i)) = S ''s1''" by (simp only: sample_user)
  show "encodable (S ''s1'')" by (simp add: S_def encodable_def is_surrogate_def)
qed

lemma gsteps_exec:
  "gsteps so P w tr Q w' \<Longrightarrow> \<forall>u \<in> set tr. fst u = i \<Longrightarrow> exec so (P i) w = exec so (Q i) w'"
proof (induction rule: gsteps.induct)
  case (gnext tr Q w' j ev q w'')
  then show ?case using exec_step [of so "Q i" w'] by auto
qed simp

text \<open>The next request of the sequence, over the directory and over the in-memory store.\<close>

lemma sample_files_step:
  fixes i :: nat
  assumes "w_clock w = (\<lambda>_. 1000)" and "own_files (w_store w)"
  defines "w' \<equiv> snd (exec (file_store_ops sample_files) (sample_proc i) w)"
  shows "as_mem sample_files (\<lambda>_. 1000) w' = after sample_ops (sample_proc i) (as_mem sample_files (\<lambda>_. 1000) w)"
    and "own_files (w_store w')"
proof -
  let ?so = "file_store_ops sample_files"
  obtain evs where run: "system ?so toy_server sample_requests w (map (Pair i) evs)
      (sample_proc(i := halted (fst (exec ?so (sample_proc i) w)))) w'"
    using run_next [of ?so sample_proc w "[]" sample_proc w i, OF gsteps.gdone refl] unfolding w'_def by auto
  obtain c where c: "rounds_up (w_clock w) c" "own_files (w_store w')"
    and mem: "system sample_ops toy_server sample_requests (as_mem sample_files c w) (map (Pair i) evs)
      (sample_proc(i := halted (fst (exec ?so (sample_proc i) w)))) (as_mem sample_files c w')"
    using file_system_simulates [OF run sample_files_sound(1) _ assms(2)] assms(1) sample_files_sound(2,3) sample_session
    by auto
  have "c = (\<lambda>_. 1000)" using c(1) assms(1) by (simp add: rounds_up_def next_second_def fun_eq_iff)
  moreover have "exec sample_ops (sample_proc i) (as_mem sample_files c w) =
      (fst (exec ?so (sample_proc i) w), as_mem sample_files c w')"
    using gsteps_exec [OF mem, of i] by (auto simp: halted_def split: sum.splits)
  ultimately show "as_mem sample_files (\<lambda>_. 1000) w' = after sample_ops (sample_proc i) (as_mem sample_files (\<lambda>_. 1000) w)"
    by (simp add: after_def)
  show "own_files (w_store w')" by (rule c(2))
qed

lemma sample_files_run:
  "\<exists>tr Q w2. system (file_store_ops sample_files) toy_server sample_requests sample_disk_world tr Q w2 \<and>
     get_binding (file_store_ops sample_files) 1000 (S ''s1'') (w_store w2) = Inr (Some (sample_binding 0))"
proof -
  let ?so = "file_store_ops sample_files"
  let ?w1 = "snd (exec ?so (sample_proc 0) sample_disk_world)" and ?m = "as_mem sample_files (\<lambda>_. 1000)"
  let ?w2 = "snd (exec ?so (sample_proc 1) ?w1)"
  have w0: "?m sample_disk_world = sample_state 0"
    by (simp add: as_mem_def sample_disk_world_def sample_world_def no_files)
  have own: "own_files (w_store sample_disk_world)" "w_clock sample_disk_world = (\<lambda>_. 1000)"
    by (simp_all add: sample_disk_world_def no_files)
  note one = sample_files_step [OF own(2,1), of 0]
  have clock: "w_clock ?w1 = (\<lambda>_. 1000)" by (simp add: exec_clock own)
  note two = sample_files_step [OF clock one(2), of 1]
  have "?m ?w2 = sample_state 2"
    unfolding two(1) one(1) w0 by (simp add: numeral_2_eq_2)
  then have "mem_of sample_files (w_store ?w2) = w_store (sample_state 2)" by (metis as_mem_simps(1))
  then have "get_binding ?so 1000 (S ''s1'') (w_store ?w2) = Inr (Some (sample_binding 0))"
    using file_ops_refine(2) [OF sample_files_sound(1) two(2) sample_session(2) sample_files_sound(3), of 1000]
      sample_states(1) sample_files_sound(2) by (simp add: next_second_def)
  moreover obtain evs where run: "system ?so toy_server sample_requests sample_disk_world (map (Pair 0) evs)
      (sample_proc(0 := halted (fst (exec ?so (sample_proc 0) sample_disk_world)))) ?w1"
    using run_next [of ?so sample_proc sample_disk_world "[]" sample_proc sample_disk_world 0, OF gsteps.gdone refl] by auto
  moreover have "(sample_proc(0 := halted (fst (exec ?so (sample_proc 0) sample_disk_world)))) 1 = sample_proc 1" by simp
  from run_next [OF run this] have "\<exists>tr Q. system ?so toy_server sample_requests sample_disk_world tr Q ?w2" by blast
  ultimately show ?thesis by blast
qed

section \<open>Requests to the routes\<close>

definition sample_app :: "bytes demo_app" where
  "sample_app = \<lparr>ap_dbsc = toy_server, ap_origin = S ''https://example.com''\<rparr>"

definition sample_sessions :: sessions where
  "sample_sessions = [S ''s1'' \<mapsto> S ''alice'']"

definition sample_page :: http_request where
  "sample_page =
     \<lparr>rq_method = S ''GET'', rq_path = S ''/'', rq_query = [(S ''route'', S ''account'')],
      rq_headers = [(S ''Sec-Fetch-Dest'', S ''document'')],
      rq_cookies = [(S ''demo_session'', S ''s1'')]\<rparr>"

definition sample_login :: http_request where
  "sample_login =
     \<lparr>rq_method = S ''GET'', rq_path = S ''/'', rq_query = [(S ''route'', S ''login'')], rq_headers = [],
      rq_cookies = [(S ''demo_session'', S ''s1'')]\<rparr>"

definition sample_refresh :: http_request where
  "sample_refresh =
     \<lparr>rq_method = S ''POST'', rq_path = S ''/dbsc/refresh'', rq_query = [],
      rq_headers = [(S ''Secure-Session-Response'', S ''token'')],
      rq_cookies = [(S ''demo_session'', S ''s1'')]\<rparr>"

lemma sample_app_parts [simp]: "ap_dbsc sample_app = toy_server" "is_origin (ap_origin sample_app)"
  by (simp_all add: sample_app_def sample_origin)

lemma sample_context:
  "context_of sample_app rq (S ''s1'') sample_sessions = Inr
     \<lparr>rc_session_id = S ''s1'', rc_user_id = S ''alice'', rc_origin_host_url = S ''https://example.com'',
      rc_headers = dict_of_items (map (\<lambda>(name, value). (py_lower name, value)) (rq_headers rq)),
      rc_cookies = dict_of_items (rq_cookies rq), rc_allowed_refresh_initiators = None,
      rc_scope_specification = None\<rparr>"
  by (simp add: context_of_def RequestContext_def sample_app_def sample_sessions_def sample_origin require_def)

lemma sample_page_context:
  obtains ctx where "context_of sample_app sample_page (S ''s1'') sample_sessions = Inr ctx"
    and "readable_cookies ctx" and "\<And>b now. \<not> presents_cookie toy_server b ctx now" and "is_document_request ctx"
proof (rule that [OF sample_context])
qed (simp_all add: sample_page_def dict_of_items_def readable_cookies_def presents_cookie_def cookie_def is_document_request_def
  header_def toy_server_def config_defaults_def sample_session)


text \<open>A store whose binding of the session is not JSON at all.\<close>

definition garbage_world :: "mem_store world" where
  "garbage_world = sample_world\<lparr>w_store := mem_empty\<lparr>ms_bind := [S ''s1'' \<mapsto> (S ''x'', 2000)]\<rparr>\<rparr>"

lemma garbage_reading:
  obtains e where "get_binding sample_ops (reading garbage_world 0) (S ''s1'') (w_store garbage_world) = Inl e"
proof -
  have "reading garbage_world 0 = 1000" by (simp add: garbage_world_def reading_def sample_world_def)
  moreover have "py_int 1000 = 1000" by (simp add: py_int_numeral)
  moreover have "binding_from_json 10 (S ''x'') = Inl (Exn CorruptStateError (S ''Binding record is not a JSON object''))"
    by code_simp
  ultimately show thesis
    by (intro that) (simp add: garbage_world_def sample_ops_def mem_store_ops_def mem_get_binding_def mem_live_def)
qed

text \<open>Without a binding, a refresh ends the session.\<close>

lemma unbound_refresh:
  obtains e where "outcome sample_ops (refresh toy_server jwt ctx) sample_world = Inl e"
    and "isinstance e DbscError" and "\<not> isinstance e RetryableRefreshError"
proof (rule that)
  have "get_binding sample_ops (reading sample_world 0) (rc_session_id ctx) (w_store sample_world) = Inr None"
    using sample_empty by (simp add: empty_store_def)
  then show "outcome sample_ops (refresh toy_server jwt ctx) sample_world =
      Inl (Exn SessionNotFoundError (S ''No DBSC session bound to this user''))"
    by (simp add: outcome_def refresh_def MAX_UPDATE_ATTEMPTS_def eval_nat_numeral binding_proved_by_def
        exec_bind raise_def fail_def)
qed (simp_all add: isinstance_def)

lemma sample_refresh_context:
  obtains ctx where "context_of sample_app sample_refresh (S ''s1'') sample_sessions = Inr ctx"
    and "session_response_jwt ctx \<noteq> []"
proof (rule that [OF sample_context])
  have "py_lower (S ''Sec-Session-Response'') \<noteq> py_lower (S ''Secure-Session-Response'')" by code_simp
  moreover have "strip_by (\<lambda>c. c = 34) (S ''token'') \<noteq> []" by code_simp
  ultimately show "session_response_jwt
     \<lparr>rc_session_id = S ''s1'', rc_user_id = S ''alice'', rc_origin_host_url = S ''https://example.com'',
      rc_headers = dict_of_items (map (\<lambda>(name, value). (py_lower name, value)) (rq_headers sample_refresh)),
      rc_cookies = dict_of_items (rq_cookies sample_refresh), rc_allowed_refresh_initiators = None,
      rc_scope_specification = None\<rparr> \<noteq> []"
    by (simp add: session_response_jwt_def header_def dict_of_items_def sample_refresh_def)
qed

lemma sample_login_parts:
  "rq_path sample_login = S ''/''" "map_of (rq_query sample_login) (S ''route'') = Some (S ''login'')"
  "map_of (rq_cookies sample_login) (S ''demo_session'') = Some (S ''s1'')"
  by (simp_all add: sample_login_def)

text \<open>A login with an unknown session cookie, up to where the new session is logged in.\<close>

lemma app_steps_move:
  assumes "\<exists>tr B. app_steps so A s w tr B s' w' \<and> B i = b" and "app_step so b s' w' = Some (l, a, s'', w'')"
  shows "\<exists>tr B. app_steps so A s w tr B s'' w'' \<and> B i = a"
proof -
  obtain tr B where run: "app_steps so A s w tr B s' w'" and "B i = b" using assms(1) by blast
  with assms(2) have "app_step so (B i) s' w' = Some (l, a, s'', w'')" by simp
  from app_steps.anext [OF run this] have "app_steps so A s w (tr @ [(i, l)]) (B(i := a)) s'' w''" .
  then show ?thesis by (intro exI conjI) (assumption, rule fun_upd_same)
qed

lemma sample_login_steps:
  "\<exists>tr A s' w' sid. app_steps sample_ops (\<lambda>_. handle sample_app sample_login) Map.empty sample_world tr A s' w' \<and>
     \<not> logged_in Map.empty sid \<and> logged_in s' sid"
proof -
  let ?sid = "fst (token_urlsafe 32 sample_world)" and ?w = "snd (token_urlsafe 32 sample_world)"
  let ?L = "log_in sample_app sample_login ?sid"
  let ?r = "(Response 200)\<lparr>rp_headers := rp_headers (Response 200) @ [(S ''Set-Cookie'', app_cookie sample_app ?sid)]\<rparr>"
  let ?run = "app_steps sample_ops (\<lambda>_. handle sample_app sample_login) Map.empty sample_world"
  define k where "k = (\<lambda>session_id' r. route sample_app sample_login session_id' True r)"
  have k: "k ?sid ?r = ?L ?r"
    by (simp add: k_def route_def sample_login_def login_route_def)
  have "\<exists>tr B. ?run tr B Map.empty sample_world \<and> B 0 = handle sample_app sample_login"
    using app_steps.adone by fast
  then have "\<exists>tr B. ?run tr B Map.empty sample_world \<and> B 0 = new_session sample_app (Response 200) k"
    by (rule app_steps_move) (simp add: handle_def Let_def k_def)
  then have "\<exists>tr B. ?run tr B Map.empty ?w \<and> B 0 = Sessions (\<lambda>s. (s(?sid \<mapsto> []), k ?sid ?r))"
    by (rule app_steps_move) (simp add: new_session_def case_prod_unfold Let_def)
  then have "\<exists>tr B. ?run tr B [?sid \<mapsto> []] ?w \<and> B 0 = ?L ?r"
    by (rule app_steps_move) (simp add: k)
  then have "\<exists>tr B. ?run tr B [?sid \<mapsto> S ''demo-user''] ?w \<and>
      B 0 = snd (case ?L ?r of Sessions f \<Rightarrow> f [?sid \<mapsto> []])"
    by (rule app_steps_move) (simp add: log_in_def)
  moreover have "logged_in [?sid \<mapsto> S ''demo-user''] ?sid" "\<not> logged_in Map.empty ?sid"
    by (simp_all add: logged_in_def)
  ultimately show ?thesis by blast
qed

lemma sample_disk:
  "own_files (w_store sample_disk_world)" "w_store sample_disk_world = Map.empty"
  "environment toy_server sample_requests sample_disk_world"
  "\<forall>k. storable_time sample_files (w_clock sample_disk_world k) \<and> time_ok \<lceil>w_clock sample_disk_world k\<rceil>"
proof -
  show "own_files (w_store sample_disk_world)" "w_store sample_disk_world = Map.empty"
    by (simp_all add: sample_disk_world_def no_files)
  show "environment toy_server sample_requests sample_disk_world"
    using sample_environment [of 0] sample_clock [of 0] unfolding environment_def
    by (simp add: sample_disk_world_def sample_world_def)
  show "\<forall>k. storable_time sample_files (w_clock sample_disk_world k) \<and> time_ok \<lceil>w_clock sample_disk_world k\<rceil>"
    using sample_files_sound(3) by (simp add: sample_disk_world_def time_ok_def)
qed

lemma sample_session_ids: "\<forall>i. encodable (rc_session_id (request_ctx (sample_requests i)))"
  using sample_session by simp

text \<open>A record of too many opening brackets.\<close>

definition deep_world :: "disk world" where
  "deep_world = sample_disk_world\<lparr>w_store := [utf8 (bind_key (S ''s1'')) @ S ''.json'' \<mapsto> replicate 11 91]\<rparr>"

lemma deep_world_record:
  "file_path sample_files (bind_key (rc_session_id sample_ctx)) = Inr (utf8 (bind_key (S ''s1'')) @ S ''.json'')"
  "w_store deep_world (utf8 (bind_key (S ''s1'')) @ S ''.json'') = Some (replicate (Suc (fs_depth sample_files)) 91)"
proof -
  show "file_path sample_files (bind_key (rc_session_id sample_ctx)) = Inr (utf8 (bind_key (S ''s1'')) @ S ''.json'')"
    using encodable_key(2) [OF sample_session(2), of sample_files] by (simp add: sample_files_def)
  have "Suc (fs_depth sample_files) = 11" by (simp add: sample_files_def)
  then show "w_store deep_world (utf8 (bind_key (S ''s1'')) @ S ''.json'') = Some (replicate (Suc (fs_depth sample_files)) 91)"
    by (simp add: deep_world_def del: replicate.simps)
qed

section \<open>The protected page and a request as bytes\<close>

text \<open>The same page requested with the bound cookie of the session, after a refresh.\<close>

definition sample_bound_page :: http_request where
  "sample_bound_page = sample_page
     \<lparr>rq_cookies := [(S ''demo_session'', S ''s1''), (S ''__Host-dbsc'', sample_token 8)]\<rparr>"

lemma bound_page_served:
  "\<exists>r s' w'. app_exec sample_ops (handle sample_app sample_bound_page) (sample_sessions, sample_state 6) = (Inr r, s', w') \<and>
     rp_body r = BOUND_PAGE"
proof -
  obtain ctx where ctx: "context_of sample_app sample_bound_page (S ''s1'') sample_sessions = Inr ctx"
    and cookies: "rc_cookies ctx = dict_of_items (rq_cookies sample_bound_page)" and user: "rc_user_id ctx = S ''alice''"
    using sample_context by simp
  have readable: "readable_cookies ctx"
    by (simp add: readable_cookies_def cookie_def cookies sample_bound_page_def dict_of_items_def sample_session)
  have "presents_cookie toy_server sample_refreshed ctx t" for t
    by (simp add: presents_cookie_def cookie_def cookies user sample_bound_page_def dict_of_items_def toy_server_def
        config_defaults_def sample_refreshed_def sample_advertised_def sample_binding_def sample_ctx_def same_user_def
        new_binding_def sample_offer_def new_offer_def)
  then have "passes_gate (ap_dbsc sample_app) sample_refreshed ctx (sample_state 6)" by (simp add: passes_gate_def)
  moreover have "sample_sessions (S ''s1'') = Some (S ''alice'')" "S ''alice'' \<noteq> []"
    by (simp_all add: sample_sessions_def)
  moreover have "get_binding sample_ops (reading (sample_state 6) 0) (S ''s1'') (w_store (sample_state 6)) =
      Inr (Some sample_refreshed)"
    using sample_states(4) by simp
  ultimately obtain r w' where "app_exec sample_ops (account_route sample_app sample_bound_page (S ''s1'') (Response 200))
      (sample_sessions, sample_state 6) = (Inr r, sample_sessions, w')" "rp_body r = BOUND_PAGE"
    using session_store.gate_alone(1) [OF sample_contract _ _ ctx readable] by blast
  moreover have "\<exists>k. handle sample_app sample_bound_page = Sessions k \<and>
      k sample_sessions = (sample_sessions, account_route sample_app sample_bound_page (S ''s1'') (Response 200))"
    by (simp add: handle_def Let_def sample_bound_page_def sample_page_def APP_SESSION_COOKIE_def or_else_def
        sample_sessions_def route_def)
  ultimately show ?thesis by auto
qed

lemma page_bodies_differ: "BOUND_PAGE \<noteq> COOKIE_AUTH_PAGE" "BOUND_PAGE \<noteq> []"
  by (simp_all add: BOUND_PAGE_def COOKIE_AUTH_PAGE_def S_def)

text \<open>A request of a browser, as bytes.\<close>

definition sample_bytes :: bytes where
  "sample_bytes = browser_request (S ''GET'') (S ''/'') [(S ''route'', S ''account'')]
     [(S ''Host'', S ''example.com''), (S ''Sec-Fetch-Dest'', S ''document'')]
     [(S ''demo_session'', S ''s1''), (S ''__Host-dbsc'', S ''ab12'')]"

lemma sample_sendable:
  "sendable (S ''GET'') (S ''/'') [(S ''route'', S ''account'')]
     [(S ''Host'', S ''example.com''), (S ''Sec-Fetch-Dest'', S ''document'')]
     [(S ''demo_session'', S ''s1''), (S ''__Host-dbsc'', S ''ab12'')]"
proof -
  have "is_path (S ''/'')" "is_cookie_value (S ''s1'')" "is_cookie_value (S ''ab12'')" by code_simp+
  then show ?thesis
    by (simp add: sendable_def browser_target_def query_text_def query_ok_def unreserved_def alnum_cls_def in_range_def
        header_ok_def browser_headers_def lower_names_def cookie_header_def cookie_ok_def cookie_name_ok_def
        legal_cookie_name_def RESERVED_COOKIE_NAMES_def one_of_def visible_def STREAM_LIMIT_def MAX_HEADER_LINES_def
        py_lower_def lower_char_def S_def)
qed

lemma sample_app_valid: "app_valid sample_app"
  by (simp add: app_valid_def toy_server_def config_defaults_valid) (simp add: config_defaults_def)

section \<open>A deletion and a read at the same time\<close>

definition sample_path :: "pystr \<Rightarrow> pystr" where
  "sample_path key = fs_digest sample_files (utf8 key) @ S ''.json''"

definition sample_records :: disk where
  "sample_records = [sample_path (reg_key (S ''s1'')) \<mapsto> [], sample_path (bind_key (S ''s1'')) \<mapsto> []]"

definition sample_file_ops :: "nat \<Rightarrow> file_op" where
  "sample_file_ops i = (if i = 0 then OpDelete (S ''s1'') else OpGetPending (S ''s1''))"

text \<open>The read comes between the two effects of the deletion.\<close>

lemma sample_lock_run:
  "\<exists>tr P. file_steps (\<lambda>i. op_steps sample_files (sample_file_ops i)) sample_records tr P Map.empty None \<and>
     P 0 = Finish (Inr NoReply) \<and> P 1 = Finish (Inr (PendingReply None))"
proof -
  let ?P = "\<lambda>i. op_steps sample_files (sample_file_ops i)" and ?d = sample_records
  let ?reg = "sample_path (reg_key (S ''s1''))" and ?bind = "sample_path (bind_key (S ''s1''))"
  let ?d1 = "?d(?reg := None)" and ?out = "Release (Finish (Inr NoReply))"
  have paths: "file_path sample_files (reg_key (S ''s1'')) = Inr ?reg"
    "file_path sample_files (bind_key (S ''s1'')) = Inr ?bind"
    using sample_session(2) by (simp_all add: encodable_key sample_path_def)
  have left: "?d1(?bind := None) = Map.empty" by (simp add: sample_records_def fun_eq_iff)
  have p: "?P 0 = Acquire (UnlinkFile ?reg (UnlinkFile ?bind ?out))"
    by (simp add: op_steps_def sample_file_ops_def unlink_steps_def after_step_def paths)
  obtain k where q: "?P 1 = ReadFile ?reg k" "k None = Finish (Inr (PendingReply None))"
    by (simp add: op_steps_def sample_file_ops_def get_pending_steps_def read_steps_def paths)
  have "file_steps ?P ?d [(0, ?d)] (?P(0 := UnlinkFile ?reg (UnlinkFile ?bind ?out))) ?d (Some 0)"
    using fs_next [OF fs_done, of 0 ?P] by (simp add: p)
  from fs_next [OF this, of 0] obtain tr1
    where "file_steps ?P ?d tr1 (?P(0 := UnlinkFile ?bind ?out)) ?d1 (Some 0)" by auto
  from fs_next [OF this, of 1] obtain tr2
    where "file_steps ?P ?d tr2 (?P(0 := UnlinkFile ?bind ?out, 1 := Finish (Inr (PendingReply None)))) ?d1 (Some 0)"
    by (auto simp: q simp del: One_nat_def)
  from fs_next [OF this, of 0] obtain tr3
    where "file_steps ?P ?d tr3 (?P(0 := ?out, 1 := Finish (Inr (PendingReply None)))) Map.empty (Some 0)"
    by (auto simp: left fun_upd_twist)
  from fs_next [OF this, of 0] obtain tr4
    where "file_steps ?P ?d tr4 (?P(0 := Finish (Inr NoReply), 1 := Finish (Inr (PendingReply None)))) Map.empty None"
    by (auto simp: fun_upd_twist)
  then show ?thesis by fastforce
qed

section \<open>A directory of browsers\<close>

definition sample_cache :: cache where
  "sample_cache =
     [(S ''148.0.1.2'', FolderAt Map.empty), (CHROME_VERSION, FolderAt [chrome_path \<mapsto> File [1] 493]),
      (S ''148.0.1.3'', LinkToFolder Map.empty), (S ''notes'', FolderAt Map.empty)]"

lemma sample_cache_names: "distinct (map fst sample_cache)" "is_old (S ''148.0.1.2'', FolderAt Map.empty)"
  "\<not> is_old (S ''notes'', FolderAt Map.empty)" "browser_in sample_cache"
proof -
  show "distinct (map fst sample_cache)" "browser_in sample_cache"
    by (simp_all add: sample_cache_def CHROME_VERSION_def browser_in_def)
  have "S ''148.0.1.2'' \<noteq> CHROME_VERSION" "re_fullmatch version_rx (S ''148.0.1.2'')"
    "\<not> re_fullmatch version_rx (S ''notes'')"
    by code_simp+
  then show "is_old (S ''148.0.1.2'', FolderAt Map.empty)" "\<not> is_old (S ''notes'', FolderAt Map.empty)" by simp_all
qed

section \<open>A start of the program\<close>

definition sample_surroundings :: surroundings where
  "sample_surroundings = \<lparr>su_process = \<lparr>pr_win32 = False, pr_euid = 1000, pr_umask = 18\<rparr>, su_entry = (\<lambda>_. Absent),
     su_load_cert = None, su_mkdtemp = Inr (S ''/tmp/dbsc-demo-1''), su_listen = None, su_print = None,
     su_signals = True, su_wait = Some KeyboardInterrupt\<rparr>"

lemma sample_start:
  fixes lib :: "'k crypto"
  shows "\<exists>steps out. demo_program lib digest depth sample_surroundings default_args = (steps, out) \<and>
     MakeTempDir (S ''/tmp/dbsc-demo-1'') \<in> set steps \<and> WaitForStop \<in> set steps"
proof -
  obtain st where st: "open_store sample_surroundings default_args digest depth (S ''/tmp/dbsc-demo-1'') =
      ([OpenStore (S ''/tmp/dbsc-demo-1'')] :: 'k main_step list, Inr st)"
    using fresh_private [of 18]
    by (simp add: open_store_def store_entry_def default_args_def sample_surroundings_def open_file_store_def
        make_directory_def)
  have su: "su_mkdtemp sample_surroundings = Inr (S ''/tmp/dbsc-demo-1'')" "su_listen sample_surroundings = None"
    "su_print sample_surroundings = None" "su_signals sample_surroundings"
    "su_wait sample_surroundings = Some KeyboardInterrupt"
    by (simp_all add: sample_surroundings_def)
  have tls: "load_tls sample_surroundings default_args = ([] :: 'k main_step list, Inr False)"
    by (simp add: load_tls_def default_args_def)
  have "\<exists>more. demo_main lib digest depth sample_surroundings default_args =
      (MakeTempDir (S ''/tmp/dbsc-demo-1'') # more, Inl KeyboardInterrupt) \<and> WaitForStop \<in> set more"
    by (simp add: demo_main_def tls st su demo_config_accepted(1) and_then_simps make_temp_dir_def run_server_def
        act_def add_handlers_def releasing_def case_prod_unfold Let_def)
  then show ?thesis by (auto simp: program_main)
qed

end
