(* ===== verification/Spec2Isabelle.thy ===== *)
theory Spec2Isabelle
  imports DemoSamples
begin

text \<open>
  Device Bound Session Credentials for Python: the library \<open>src/dbsc\<close> and its reference integration
  \<open>examples/demo_server.py\<close>.

  \<^bold>\<open>The program.\<close> A login response offers the browser a registration challenge; the browser answers
  with a token signed by a fresh device key (\<open>register\<close>), and the session gets a \<^emph>\<open>binding\<close>: the key,
  a short-lived bound cookie and a challenge for the next refresh. Before the cookie expires the
  browser refreshes: it gets a challenge with a 403 (\<open>issue_refresh_challenge\<close>) or ahead of time
  (\<open>advertise_refresh_challenge\<close>), signs it (\<open>refresh\<close>), and the server rotates cookie and challenge.
  The application calls the gate (\<open>get_binding\<close>, \<open>bound_cookie_matches\<close>, the registration grace) and
  \<open>revoke\<close>. The methods of \<open>DbscServer\<close> are coroutines over a \<open>Store\<close>, the clock, the random source and
  an audit logger; they interleave wherever they await, and the store's compare-and-set operations
  (\<open>commit_registration\<close>, \<open>replace_binding\<close>) decide the races.

  \<^bold>\<open>Theories and the code they model.\<close>
  \<^item> \<open>Prelude\<close>, \<open>PyText\<close>, \<open>Regex\<close>, \<open>Codec\<close>: what the program uses of Python: strings as lists of code
    points (surrogates included), results that raise, splitting, Latin-1 lower-casing, UTF-8, decimal
    text with its digit limit, regular expressions by derivatives, base64url.
  \<^item> \<open>Exceptions\<close>: \<open>exceptions.py\<close>. \<open>Validate\<close>: \<open>_validate.py\<close>. \<open>Json\<close>, \<open>JsonRoundtrip\<close>: \<open>_json.py\<close> with the
    JSON printer, lexer and parser (a stack machine whose stack bound is the recursion limit).
  \<^item> \<open>Pending\<close>: \<open>pending.py\<close>. \<open>Binding\<close>: \<open>binding.py\<close>. \<open>Store\<close>: \<open>store.py\<close>, the protocol as a record of
    operations, its contract as the locale \<open>session_store\<close> with \<open>InMemoryStore\<close> as its interpretation, and
    the part of it that every validating store keeps, \<open>FileStore\<close> over any files too, as \<open>valid_store\<close>.
  \<^item> \<open>Settings\<close>: \<open>scope.py\<close> and \<open>config.py\<close>. \<open>Wire\<close>: \<open>request.py\<close>, \<open>response.py\<close>, \<open>audit.py\<close>.
    \<open>Jwt\<close>: \<open>jwt.py\<close>; the package \<open>cryptography\<close> is the parameter \<open>'k crypto\<close>.
  \<^item> \<open>Prog\<close>: coroutines as trees of effects, with a run to completion (\<open>exec\<close>), a run against arbitrary
    replies (\<open>runs\<close>) and a step for interleaving (\<open>step\<close>, \<open>gsteps\<close>). \<open>Server\<close>: \<open>server.py\<close>, every method.
  \<^item> \<open>FileStore\<close>: \<open>FileStore\<close> of \<open>examples/demo_server.py\<close>, down to the bytes of a file, and \<open>FileLock\<close> its
    file accesses under \<open>_writes\<close>; \<open>DemoApp\<close>: its \<open>DemoApp\<close>, whose handlers alternate between coroutines and
    the dictionary of sessions; \<open>DemoWire\<close>: \<open>Response.encode\<close>. \<open>HttpText\<close>: what \<open>read_request\<close> uses of \<open>int\<close>,
    \<open>urlsplit\<close>, \<open>parse_qs\<close> and \<open>SimpleCookie\<close>; \<open>DemoRequest\<close>: \<open>read_request\<close> and \<open>on_connection\<close>, from the bytes
    that arrive to the bytes of the answer; \<open>DemoSetup\<close>: \<open>FileStore.__init__\<close> and the configuration of \<open>main\<close>;
    \<open>DemoMain\<close>: \<open>main\<close> as the steps it takes in a world where anything may fail.
  \<^item> \<open>BrowserCache\<close>: \<open>scripts/fetch_e2e_browser.py\<close>, the extraction of the archive included.

  \<^bold>\<open>Lemma groups.\<close> \<open>Conduct\<close> and \<open>ServerLaws\<close> say what each method did in any finished run, effect by
  effect. \<open>Requests\<close> gives the guarantee each request keeps at any point of its run; \<open>Concurrency\<close>,
  \<open>Provenance\<close> and \<open>History\<close> derive from it the invariants of any interleaving of any number of requests,
  inside the locale \<open>session_store\<close>. \<open>Flow\<close> computes the outcome of requests that run alone. \<open>Emit\<close> is
  about what leaves the server. \<open>FileRuns\<close> simulates a run over the directory by one over the in-memory
  store. \<open>DemoLaws\<close> and \<open>DemoRuns\<close> treat the handlers alone and interleaved. \<open>DemoTraces\<close> has a judgement
  (\<open>meets\<close>) for what a handler has seen when it ends, whatever the others do in between, and shows that
  handlers cannot run for ever; \<open>DemoGuards\<close> uses it for the gate and \<open>DemoAnswers\<close> for the form of every
  answer. \<open>DemoLimits\<close> bounds what \<open>read_request\<close> lets through and \<open>DemoParse\<close> reads printed requests
  back. \<open>Samples\<close> and \<open>DemoSamples\<close> hold the concrete inputs of the witnesses. The properties of the program,
  C1 to C40, are below: interleavings of the library's requests (C1 to C4, C7, C12, C18, C19), single
  requests (C5, C6, C8, C9, C13 to C15, C17), whole flows (C10, C11), output (C21, C22), the example (C16, C20, C23
  to C34) and components (C35 to C40).

  \<^bold>\<open>Bounds.\<close> No loop of the program is cut short: \<open>refresh_attempts\<close> and \<open>issue_attempts\<close> recurse over the
  code's own limit of three attempts, and C19 bounds a request by 23 effects. The number \<open>depth\<close> that
  \<open>json_loads\<close> takes is Python's recursion limit as a count of open brackets; the theorems hold for every
  value, or for every value at least 1 (4 for the session instructions). The 100 header lines, the 64 KiB of
  a body and the 64 KiB of a line are the program's and the stream reader's own limits.

  \<^bold>\<open>Modelling notes.\<close> A clock reading is a rational number of seconds, rounded by the code where it is
  rounded (\<open>py_int\<close>); different readings are unrelated, so the clock may even run backwards, except where a
  theorem says otherwise. An audit call, a token draw and a store operation are one effect each, and a store
  operation is atomic, as the contract in \<open>store.py\<close> asks. \<open>FileStore\<close> is modelled twice: \<open>FileStore\<close> takes an
  operation as one step, and \<open>FileLock\<close> has its file accesses as steps under the lock; C16 relates the two.
  Replacing a record by its temporary file is one access, and no operation is cancelled on its way. The
  SHA-256 file names are an arbitrary digest, assumed injective. A binding's text reaches the store only
  if Python can print and read it (\<open>binding_storable\<close>), which \<open>environment\<close> asks of the clock, the user ids
  and the library's key texts. Headers and cookies of a request come as lists of pairs. Floats in JSON stay
  text, since the program never computes with one. The standard library is that of CPython 3.14; of
  \<open>urlsplit\<close>, the check of a bracketed host by the module \<open>ipaddress\<close> is the parameter \<open>netloc_ok\<close>. A
  connection is the bytes that the server gets to read before the client ends the stream, falls silent until
  the read times out or resets the connection, and what draining the answer raises. The constant JSON body
  of the example's errors is written out. A handler of the example may be interrupted at every effect, which
  allows more schedules than \<open>asyncio\<close> has: it switches only where an awaited operation suspends.

  \<^bold>\<open>Not modelled.\<close> The re-exports of \<open>__init__.py\<close>; of the download script, the network and the format of the
  archive (an argument: the members and their bytes), and failures of the disk; of the example, how
  \<open>argparse\<close> splits the command line (its result is an argument of \<open>demo_main\<close>), what TLS does, the temporary
  file a record is written to before it replaces the old one, calls of the diagnostic logger, errors of
  creating and examining the store directory other than that a file is in its place, errors of installing a
  signal handler other than that the event loop has none, and errors of removing the temporary directory.
\<close>

section \<open>Any interleaving of requests\<close>

text \<open>
  C1. Whatever requests are served at the same time, and however they are interleaved, a binding that
  can be read from the store belongs to a key whose holder signed the challenge of an offer made to
  this very session, in a registration request for it, and for the same user.
\<close>

theorem stored_key_proved:
  assumes "session_store so pending_ttl binding_ttl"
    and "system so sv rs w tr Q w'" and "environment sv rs w" and "empty_store so (w_store w)"
    and "get_binding so t sid (w_store w') = Inr (Some b)"
  shows "\<exists>i jwt ctx q res k octx.
    rs i = Register jwt ctx \<and> rc_session_id ctx = sid \<and>
    parse_and_verify_registration (sv_lib sv) (sv_depth sv) jwt = Inr res \<and>
    b_public_key_pem b = rr_public_key_pem res \<and> rr_challenge res = p_reg_challenge q \<and>
    same_user (p_user_id q) (rc_user_id ctx) \<and>
    rs k = Offer octx \<and> rc_session_id octx = sid \<and> (k, EPutPending sid q) \<in> set tr"
proof -
  from session_store.bindings_proved [OF assms(1-4)] assms(5) have "proved sv rs tr sid b" by blast
  then show ?thesis
    unfolding proved_def offered_def answers_def constant_time_equals_eq_Inr by metis
qed

theorem stored_key_proved_witness:
  "\<exists>tr Q. system sample_ops toy_server sample_requests sample_world tr Q (sample_state 2) \<and>
    (\<exists>i jwt ctx q res k octx.
      sample_requests i = Register jwt ctx \<and> rc_session_id ctx = S ''s1'' \<and>
      parse_and_verify_registration (sv_lib toy_server) (sv_depth toy_server) jwt = Inr res \<and>
      b_public_key_pem (sample_binding 0) = rr_public_key_pem res \<and> rr_challenge res = p_reg_challenge q \<and>
      same_user (p_user_id q) (rc_user_id ctx) \<and>
      sample_requests k = Offer octx \<and> rc_session_id octx = S ''s1'' \<and>
      (k, EPutPending (S ''s1'') q) \<in> set tr)"
proof -
  obtain tr Q where run: "system sample_ops toy_server sample_requests sample_world tr Q (sample_state 2)"
    using sample_run by blast
  have "environment toy_server sample_requests sample_world"
    using sample_environment [of 0] by simp
  from stored_key_proved [OF sample_contract run this sample_empty sample_states(1)] run
  show ?thesis by blast
qed

text \<open>
  C2. A proof of possession is good for one refresh: once a refresh has succeeded with a signed
  challenge, no later refresh of the session succeeds with a token for the same challenge, provided
  no random token was drawn twice.
\<close>

theorem refresh_proof_spent_once:
  assumes "session_store so pending_ttl binding_ttl"
    and "system so sv rs w tr Q w'" and "environment sv rs w" and "empty_store so (w_store w)"
    and "distinct (drawn tr)"
    and "tr = a @ (i, EReplace sid b0 n0 (Inr True)) # m @ (j, EReplace sid b n (Inr True)) # c"
    and "rs i = Refresh jwt0 ctx0" and "rs j = Refresh jwt ctx"
    and "parse_and_verify_refresh (sv_lib sv) (sv_depth sv) jwt0 (b_public_key_pem b0) = Inr challenge"
  shows "parse_and_verify_refresh (sv_lib sv) (sv_depth sv) jwt (b_public_key_pem b) \<noteq> Inr challenge"
proof -
  let ?pre = "a @ (i, EReplace sid b0 n0 (Inr True)) # m"
  from assms(2,6) have "system so sv rs w ((?pre @ [(j, EReplace sid b n (Inr True))]) @ c) Q w'" by simp
  then obtain Q1 w1 where "system so sv rs w (?pre @ [(j, EReplace sid b n (Inr True))]) Q1 w1"
    using gsteps_prefix by blast
  moreover have "drawn tr = drawn ?pre @ drawn c" unfolding assms(6) by (simp add: drawn_def)
  with assms(5) have "distinct (drawn ?pre)" by (simp only: distinct_append)
  ultimately show ?thesis
    using session_store.proof_once [OF assms(1), of sv rs w ?pre j sid b n Q1 w1 i b0 n0 jwt0 ctx0 challenge jwt ctx]
      assms(3,4,7-9) by simp
qed

theorem refresh_proof_spent_once_witness:
  "\<exists>tr Q a b0 n0 m b n c.
    system sample_ops toy_server sample_requests sample_world tr Q (sample_state 7) \<and>
    tr = a @ (5, EReplace (S ''s1'') b0 n0 (Inr True)) # m @ (6, EReplace (S ''s1'') b n (Inr True)) # c \<and>
    parse_and_verify_refresh (sv_lib toy_server) (sv_depth toy_server) (toy_refresh (sample_token 9))
      (b_public_key_pem b) \<noteq> Inr (sample_token 7)"
proof -
  obtain a b0 n0 m b n c tr Q where run: "system sample_ops toy_server sample_requests sample_world tr Q (sample_state 7)"
    and ids: "\<forall>u \<in> set tr. fst u < 7"
    and tr: "tr = a @ (5, EReplace (S ''s1'') b0 n0 (Inr True)) # m @ (6, EReplace (S ''s1'') b n (Inr True)) # c"
    and proof0: "parse_and_verify_refresh (sv_lib toy_server) (sv_depth toy_server)
      (toy_refresh (sample_token 7)) (b_public_key_pem b0) = Inr (sample_token 7)"
    using sample_refreshes by blast
  have env: "environment toy_server sample_requests sample_world"
    using sample_environment [of 0] by simp
  have rs: "sample_requests 5 = Refresh (toy_refresh (sample_token 7)) sample_ctx"
    "sample_requests 6 = Refresh (toy_refresh (sample_token 9)) sample_ctx"
    by (simp_all add: sample_requests_def)
  from refresh_proof_spent_once [OF sample_contract run env sample_empty
      sample_tokens_distinct [OF run ids] tr rs proof0] run tr
  show ?thesis by blast
qed

text \<open>
  C3. A revoked session stays revoked: after a revocation, and until the session is offered a
  registration again, the store has no binding for it, whatever registrations and refreshes were in
  flight when the revocation landed.
\<close>

theorem revoked_stays_revoked:
  assumes "session_store so pending_ttl binding_ttl"
    and "system so sv rs w (a @ (j, EDelete sid) # c) Q w'"
    and "\<forall>i p. (i, EPutPending sid p) \<notin> set c"
  shows "get_binding so t sid (w_store w') = Inr None"
proof -
  have "\<not> offers sid ev" if "(i, ev) \<in> set c" for i ev
    using assms(3) that by (cases ev) auto
  then have "since (\<lambda>ev. ev = EDelete sid) (offers sid) (a @ (j, EDelete sid) # c)"
    unfolding since_def by (intro exI [of _ a] exI [of _ "(j, EDelete sid)"] exI [of _ c]) (auto simp: list_all_iff)
  with session_store.revoked [OF assms(1,2)] show ?thesis by blast
qed

theorem revoked_stays_revoked_witness:
  "get_binding sample_ops 1000 (S ''s1'') (w_store (sample_state 8)) = Inr None"
proof -
  obtain tr Q where run: "system sample_ops toy_server sample_requests sample_world tr Q (sample_state 7)"
    and "Q 7 = sample_proc 7"
    using sample_run [of 7] by blast
  from sample_next [OF this] obtain evs Q' where
    last: "system sample_ops toy_server sample_requests sample_world (tr @ map (Pair 7) evs) Q' (sample_state 8)"
    and evs: "runs (sample_proc 7) evs (outcome sample_ops (sample_proc 7) (sample_state 7))"
    by auto
  have "list_all reply_ok evs" using sample.gsteps_reply_ok [OF last] by (simp add: list.pred_map o_def)
  with revoke_conduct [of toy_server sample_ctx False evs] evs obtain r where
    "evs = [EGetBinding (S ''s1'') r, EDelete (S ''s1'')] @ (if r = Inr None then [] else [revoke_entry sample_ctx False])"
    by (auto simp: sample_requests_def)
  then have "system sample_ops toy_server sample_requests sample_world
      ((tr @ [(7, EGetBinding (S ''s1'') r)]) @ (7, EDelete (S ''s1'')) #
       (if r = Inr None then [] else [(7, revoke_entry sample_ctx False)])) Q' (sample_state 8)"
    using last by (simp split: if_splits)
  from revoked_stays_revoked [OF sample_contract this] show ?thesis
    by (simp add: revoke_entry_def)
qed


text \<open>
  C4. An offer is good for one registration: between two successful registrations of a session, the
  session was offered a registration again, by a request for it.
\<close>

theorem offer_used_once:
  assumes "session_store so pending_ttl binding_ttl"
    and "system so sv rs w (a @ (i, ECommit sid q b (Inr True)) # m @ (j, ECommit sid q' b' (Inr True)) # c) Q w'"
  shows "\<exists>k p ctx. (k, EPutPending sid p) \<in> set m \<and> rs k = Offer ctx \<and> rc_session_id ctx = sid"
proof -
  let ?pre = "a @ (i, ECommit sid q b (Inr True)) # m"
  from assms(2) have "system so sv rs w ((?pre @ [(j, ECommit sid q' b' (Inr True))]) @ c) Q w'" by simp
  then obtain Q1 w1 where run: "system so sv rs w (?pre @ [(j, ECommit sid q' b' (Inr True))]) Q1 w1"
    using gsteps_prefix by blast
  from session_store.commit_needs_offer [OF assms(1) run] have "\<not> list_all (\<lambda>v. \<not> offers sid (snd v)) m"
    unfolding since_def by fastforce
  then obtain k ev where kev: "(k, ev) \<in> set m" "offers sid ev" by (auto simp: list_all_iff)
  then obtain p where ev: "ev = EPutPending sid p" by (cases ev) auto
  from kev(1) have "(k, ev) \<in> set (?pre @ [(j, ECommit sid q' b' (Inr True))])" by simp
  from history_ok [OF run this] kev(1) show ?thesis by (auto simp: ev)
qed

theorem offer_used_once_witness:
  "\<exists>m k p ctx. (k, EPutPending (S ''s1'') p) \<in> set m \<and> sample_requests k = Offer ctx \<and>
    rc_session_id ctx = S ''s1''"
proof -
  obtain a q b m q' b' c tr Q where "system sample_ops toy_server sample_requests sample_world tr Q (sample_state 4)"
    "tr = a @ (1, ECommit (S ''s1'') q b (Inr True)) # m @ (3, ECommit (S ''s1'') q' b' (Inr True)) # c"
    using sample_registers by blast
  then have "system sample_ops toy_server sample_requests sample_world
      (a @ (1, ECommit (S ''s1'') q b (Inr True)) # m @ (3, ECommit (S ''s1'') q' b' (Inr True)) # c) Q (sample_state 4)"
    by simp
  from offer_used_once [OF sample_contract this] show ?thesis by blast
qed

section \<open>One request\<close>

text \<open>
  C5. When exactly a registration succeeds, and what it does then: there is an offer for the same user,
  it has not expired, the token verifies under the key it carries and signs the offered challenge,
  and the store commits the binding against that same offer; the response carries the session
  identifier, the bound cookie and the instructions of the new binding.
\<close>

theorem register_succeeds_iff:
  "runs (register sv jwt ctx) evs (Inr resp) \<longleftrightarrow>
     (\<exists>offer res read now ident ck ch issued_at b.
        same_user (p_user_id offer) (rc_user_id ctx) \<and>
        read - p_reg_challenge_time offer \<le> cfg_challenge_ttl_seconds (sv_config sv) \<and>
        parse_and_verify_registration (sv_lib sv) (sv_depth sv) jwt = Inr res \<and>
        rr_challenge res = p_reg_challenge offer \<and> encodable (rr_challenge res) \<and>
        b = \<lparr>b_user_id = (if p_user_id offer = [] then rc_user_id ctx else p_user_id offer),
          b_session_identifier = ident, b_cookie_value = ck, b_public_key_pem = rr_public_key_pem res,
          b_algorithm = rr_algorithm res, b_challenge = ch, b_challenge_time = now, b_created_at = now,
          b_cookie_issued_at = now, b_previous_cookie_value = [], b_previous_cookie_expires_at = 0,
          b_has_refreshed = False, b_previous_challenge = [], b_previous_challenge_time = 0,
          b_challenge_advertised = False\<rparr> \<and> binding_valid b \<and>
        evs = [EGetPending (rc_session_id ctx) (Inr (Some offer)), ENow read, ENow now,
          EToken 32 ident, EToken 32 ck, EToken 32 ch,
          ECommit (rc_session_id ctx) offer b (Inr True),
          ELog REGISTERED (S ''DBSC session registered.'') (rc_user_id ctx), ENow issued_at] \<and>
        resp = \<lparr>rs_headers = [(S ''Sec-Secure-Session-Id'', ident), (S ''Cache-Control'', S ''no-store'')],
          rs_cookies = [Cookie (cfg_cookie_name (sv_config sv)) ck
            (issued_at + cfg_cookie_max_age_seconds (sv_config sv)) (cfg_cookie_same_site (sv_config sv))],
          rs_status = Some 200, rs_body = Some (instructions_json sv ident ctx),
          rs_content_type = Some (S ''application/json'')\<rparr>)"
  unfolding register_success_iff
  by (intro iff_exI)
    (auto simp: answers_def constant_time_equals_eq_Inr register_response_def NO_STORE_def new_binding_def)

text \<open>
  C6. A refresh succeeds only with a proof: for the binding that its successful write replaced, the
  user is the same, the presented session identifier (if any) is the binding's, the challenge is live,
  and the token, signed with the bound key, answers the current challenge, or the previous one
  inside its own time-to-live. That write is the only change, it was tried at most three times, and
  the response carries the rotated cookie and the next challenge.
\<close>

theorem refresh_needs_proof:
  assumes "runs (refresh sv jwt ctx) evs (Inr resp)"
  shows "\<exists>before b t later now ck ch issued_at jti b'.
    evs = before @ EGetBinding (rc_session_id ctx) (Inr (Some b)) # ENow t # later @
      [ENow now, EToken 32 ck, EToken 32 ch, EReplace (rc_session_id ctx) b b' (Inr True),
       ELog REFRESHED (S ''DBSC cookie refreshed.'') (rc_user_id ctx), ENow issued_at] \<and>
    writes before = [] \<and> audits before = [] \<and> attempts before < 3 \<and>
    same_user (b_user_id b) (rc_user_id ctx) \<and>
    header ctx (S ''Sec-Secure-Session-Id'') \<in> {None, Some [], Some (b_session_identifier b)} \<and>
    b_challenge b \<noteq> [] \<and> t - b_challenge_time b \<le> cfg_challenge_ttl_seconds (sv_config sv) \<and>
    parse_and_verify_refresh (sv_lib sv) (sv_depth sv) jwt (b_public_key_pem b) = Inr jti \<and>
    (jti = b_challenge b \<or>
     jti = b_previous_challenge b \<and> jti \<noteq> [] \<and>
       (\<exists>t'. later = [ENow t'] \<and>
          t' - b_previous_challenge_time b \<le> cfg_challenge_ttl_seconds (sv_config sv))) \<and>
    with_rotated_cookie_and_challenge b ck ch now now (cfg_cookie_max_age_seconds (sv_config sv)) = Inr b' \<and>
    resp = \<lparr>rs_headers = challenge_headers (b_session_identifier b) ch @ NO_STORE,
      rs_cookies = [Cookie (cfg_cookie_name (sv_config sv)) ck
        (issued_at + cfg_cookie_max_age_seconds (sv_config sv)) (cfg_cookie_same_site (sv_config sv))],
      rs_status = Some 200, rs_body = Some (instructions_json sv (b_session_identifier b) ctx),
      rs_content_type = Some (S ''application/json'')\<rparr>"
proof -
  have "refreshed 3 sv jwt ctx evs resp"
    using assms unfolding refresh_def MAX_UPDATE_ATTEMPTS_def by (rule refresh_success)
  then obtain before b t later now ck ch issued_at where
    pr: "proves sv jwt ctx b t later" and valid: "binding_valid (rotated_binding sv b now ck ch)" and
    evs: "evs = before @ EGetBinding (rc_session_id ctx) (Inr (Some b)) # ENow t # later @
          [ENow now, EToken 32 ck, EToken 32 ch,
           EReplace (rc_session_id ctx) b (rotated_binding sv b now ck ch) (Inr True),
           ELog REFRESHED (S ''DBSC cookie refreshed.'') (rc_user_id ctx), ENow issued_at]" and
    before: "writes before = []" "audits before = []" "attempts before < 3" and
    resp: "resp = refresh_response sv ctx (rotated_binding sv b now ck ch) issued_at"
    unfolding refreshed_def by blast
  from pr have "header ctx (S ''Sec-Secure-Session-Id'') \<in> {None, Some [], Some (b_session_identifier b)}"
    by (cases "header ctx (S ''Sec-Secure-Session-Id'')")
      (auto simp: proves_def session_id_presented_def constant_time_equals_eq_Inr split: if_splits)
  moreover from valid have "with_rotated_cookie_and_challenge b ck ch now now
      (cfg_cookie_max_age_seconds (sv_config sv)) = Inr (rotated_binding sv b now ck ch)"
    by (simp add: with_rotated_iff)
  ultimately show ?thesis
    using pr evs before resp unfolding proves_def refresh_response_def rotated_binding_simps by blast
qed

theorem refresh_needs_proof_witness:
  "\<exists>evs resp b b' jti. runs (refresh toy_server (toy_refresh (sample_token 7)) sample_ctx) evs (Inr resp) \<and>
    EReplace (S ''s1'') b b' (Inr True) \<in> set evs \<and> rs_status resp = Some 200 \<and>
    parse_and_verify_refresh (sv_lib toy_server) (sv_depth toy_server) (toy_refresh (sample_token 7))
      (b_public_key_pem b) = Inr jti"
proof -
  obtain evs resp where run: "runs (refresh toy_server (toy_refresh (sample_token 7)) sample_ctx) evs (Inr resp)"
    using sample_runs [of 5] by (auto simp: sample_requests_def)
  from refresh_needs_proof [OF run] run show ?thesis by fastforce
qed

text \<open>
  C7. A request changes the store by at most one operation, at one instant, and a request that fails has
  made none, whatever ran between its effects. The operation is an offer stored, a registration committed
  (which takes the offer away and stores the binding at once), a binding replaced, or a session deleted
  (offer and binding at once); a conditional write that was refused changes nothing and does not count.
\<close>

theorem one_write_none_on_failure:
  assumes "session_store so pending_ttl binding_ttl" and "system so sv rs w tr Q w'"
  shows "length (writes (events_of i tr)) \<le> (case Q i of Raise e \<Rightarrow> 0 | _ \<Rightarrow> 1)"
proof -
  have "behaves sv (rs i) [] (serve sv (rs i))" by (rule serve_behaves)
  from obeys_gsteps [where P = "\<lambda>i. serve sv (rs i)", OF assms(2) this]
  have "\<forall>a ev b. events_of i tr = a @ ev # b \<longrightarrow> write_ok sv (rs i) a ev" by blast
  then have "length (writes (events_of i tr)) \<le> 1" by (rule single_write)
  moreover have "writes (events_of i tr) = []" if "Q i = Raise e" for e
  proof -
    have "list_all reply_ok (events_of i tr)"
      using session_store.gsteps_reply_ok [OF assms] by (auto simp: events_of_def list_all_iff)
    with gsteps_runs(2) [OF assms(2) that] show ?thesis by (rule failure_writes_nothing)
  qed
  ultimately show ?thesis by (cases "Q i") simp_all
qed

theorem one_write_none_on_failure_witness:
  "\<exists>tr w'. (\<exists>Q e. system sample_ops toy_server (\<lambda>_. Register [] sample_ctx) sample_world tr Q w' \<and> Q 0 = Raise e) \<and>
    writes (events_of 0 tr) = []"
proof -
  let ?P = "\<lambda>i::nat. serve toy_server (Register [] sample_ctx)"
  have "get_pending_registration sample_ops t sid (w_store sample_world) = Inr None" for t sid
    using sample_empty by (simp add: empty_store_def)
  then obtain e where e: "fst (exec sample_ops (?P 0) sample_world) = Inl e"
    by (simp add: register_def fail_def raise_def)
  have "system sample_ops toy_server (\<lambda>_. Register [] sample_ctx) sample_world [] ?P sample_world"
    by (rule gsteps.gdone)
  from run_next [OF this refl, of 0] e obtain evs where
    run: "system sample_ops toy_server (\<lambda>_. Register [] sample_ctx) sample_world ([] @ map (Pair 0) evs)
      (?P(0 := Raise e)) (snd (exec sample_ops (?P 0) sample_world))"
    by (auto simp: halted_def simp del: fun_upd_apply serve.simps)
  have "writes (events_of 0 ([] @ map (Pair 0) evs)) = []"
    using one_write_none_on_failure [OF sample_contract run, of 0] by simp
  with run show ?thesis by (metis fun_upd_same)
qed

text \<open>
  C8. How a refresh fails: after at most three attempts at the write, having written nothing, and
  with the error that tells the caller what to do. The errors that ask for a new challenge are
  exactly those audited as retryable, a bad proof or a wrong session is audited as failed, and
  the only other errors are an unreadable record and text that cannot be encoded.
\<close>

theorem refresh_failure_classified:
  assumes "runs (refresh sv jwt ctx) evs (Inl e)" and "list_all reply_ok evs"
  shows "writes evs = [] \<and> attempts evs \<le> 3 \<and>
    (isinstance e RetryableRefreshError \<longleftrightarrow> (\<exists>m. audits evs = [(REFRESH_RETRYABLE, m, rc_user_id ctx)])) \<and>
    (exn_cls e \<in> {JwtInvalidError, SessionNotFoundError} \<longleftrightarrow>
       (\<exists>m. audits evs = [(REFRESH_FAILED, m, rc_user_id ctx)])) \<and>
    (exn_cls e \<in> {CorruptStateError, UnicodeEncodeError} \<longleftrightarrow> audits evs = [])"
proof -
  from refresh_failure [OF assms(1) [unfolded refresh_def MAX_UPDATE_ATTEMPTS_def] assms(2)]
  have "writes evs = []" "attempts evs \<le> 3" "refresh_failed ctx evs e" by simp_all
  then show ?thesis by (cases e) (auto simp: refresh_failed_def)
qed

theorem refresh_failure_classified_witness:
  "runs (refresh toy_server [] sample_ctx)
     [EGetBinding (S ''s1'') (Inr None), ELog REFRESH_FAILED (S ''No DBSC session bound.'') (S ''alice'')]
     (Inl (Exn SessionNotFoundError (S ''No DBSC session bound to this user''))) \<and>
   \<not> isinstance (Exn SessionNotFoundError (S ''No DBSC session bound to this user'')) RetryableRefreshError"
proof -
  let ?evs = "[EGetBinding (S ''s1'') (Inr None), ELog REFRESH_FAILED (S ''No DBSC session bound.'') (S ''alice'')]"
  have "runs (refresh toy_server [] sample_ctx) ?evs
      (Inl (Exn SessionNotFoundError (S ''No DBSC session bound to this user'')))"
    by (simp add: refresh_def MAX_UPDATE_ATTEMPTS_def numeral_3_eq_3 refresh_attempts_Suc runs_bind runs_iff
        binding_proved_by_def flat del: refresh_attempts.simps)
  with refresh_failure_classified [OF this] show ?thesis by simp
qed

text \<open>
  C9. How a registration fails: nothing is written, and the failure is audited once, except when a
  stored record is unreadable or the signed challenge cannot be encoded.
\<close>

theorem register_failure_classified:
  assumes "runs (register sv jwt ctx) evs (Inl e)" and "list_all reply_ok evs"
  shows "writes evs = [] \<and>
    (exn_cls e \<in> {JwtInvalidError, ChallengeExpiredError, MissingChallengeError, SessionNotFoundError} \<longleftrightarrow>
       (\<exists>m. audits evs = [(REGISTRATION_FAILED, m, rc_user_id ctx)])) \<and>
    (exn_cls e \<in> {CorruptStateError, UnicodeEncodeError} \<longleftrightarrow> audits evs = []) \<and>
    exn_cls e \<noteq> ValueError"
  using register_failure [OF assms] by auto

theorem register_failure_classified_witness:
  "runs (register toy_server [] sample_ctx)
     [EGetPending (S ''s1'') (Inr None), ELog REGISTRATION_FAILED (S ''No pending registration challenge.'') (S ''alice'')]
     (Inl (Exn MissingChallengeError (S ''No pending registration challenge''))) \<and>
   exn_cls (Exn MissingChallengeError (S ''No pending registration challenge'')) \<noteq> ValueError"
proof -
  have "runs (register toy_server [] sample_ctx)
     [EGetPending (S ''s1'') (Inr None), ELog REGISTRATION_FAILED (S ''No pending registration challenge.'') (S ''alice'')]
     (Inl (Exn MissingChallengeError (S ''No pending registration challenge'')))"
    by (simp add: register_def flat runs_iff)
  from this register_failure_classified [OF this] show ?thesis by simp
qed

section \<open>A whole session\<close>

text \<open>
  C10. An honest browser gets registered: in a world whose clock does not run past the
  times-to-live, the login response offers a challenge, the browser's token for it is accepted, and
  the store then holds a binding for the browser's key and the session's user.
\<close>

theorem honest_browser_registers:
  assumes "session_store so pending_ttl binding_ttl"
    and "honest_browser sv pem reg_jwt refresh_jwt" and "unhurried sv pending_ttl binding_ttl w"
    and "str_ok pem" and "str_ok (rc_user_id ctx)"
    and "w1 = after so (build_registration_header_response sv ctx) w"
    and "w2 = after so (register sv (reg_jwt (draw w 0)) ctx) w1"
  shows "outcome so (build_registration_header_response sv ctx) w =
      Inr (empty_response\<lparr>rs_headers :=
        [(S ''Secure-Session-Registration'', registration_header sv (draw w 0)),
         (S ''Cache-Control'', S ''no-store'')]\<rparr>) \<and>
    (\<exists>b. outcome so (register sv (reg_jwt (draw w 0)) ctx) w1 = Inr (register_response sv ctx b (tick w 7)) \<and>
       get_binding so (reading w 8) (rc_session_id ctx) (w_store w2) = Inr (Some b) \<and>
       b_public_key_pem b = pem \<and> b_user_id b = rc_user_id ctx)"
proof -
  note reg = session_store.honest_registration [OF assms(1-5), folded assms(6), folded assms(7)]
  show ?thesis
    using reg(1) reg(2) [of 8]
    by (auto simp: offer_completes NO_STORE_def binding_for_def new_binding_def new_offer_def)
qed

theorem honest_browser_registers_witness:
  "\<exists>b. outcome sample_ops (register toy_server (toy_registration (draw sample_world 0)) sample_ctx)
      (after sample_ops (build_registration_header_response toy_server sample_ctx) sample_world) =
      Inr (register_response toy_server sample_ctx b (tick sample_world 7)) \<and>
    b_public_key_pem b = S ''PEM'' \<and> b_user_id b = S ''alice''"
  using honest_browser_registers [OF sample_contract toy_browser sample_unhurried _ _ refl refl, of sample_ctx]
  by auto

text \<open>
  C11. An honest browser stays registered: after the registration, the challenge it is given on its
  first refresh attempt makes the second one succeed, with a rotated cookie and the next challenge. The
  requests of the refresh are made for the same session and user, with any other headers and cookies, and
  either without a session identifier or with the one that the answer to the registration named.
\<close>

theorem honest_browser_refreshes:
  assumes "session_store so pending_ttl binding_ttl"
    and "honest_browser sv pem reg_jwt refresh_jwt" and "unhurried sv pending_ttl binding_ttl w"
    and "str_ok pem" and "str_ok (rc_user_id ctx)"
    and "w1 = after so (build_registration_header_response sv ctx) w"
    and "w2 = after so (register sv (reg_jwt (draw w 0)) ctx) w1"
    and "w3 = after so (issue_refresh_challenge rctx) w2"
    and "rc_session_id rctx = rc_session_id ctx" and "rc_user_id rctx = rc_user_id ctx"
    and "\<forall>resp. outcome so (register sv (reg_jwt (draw w 0)) ctx) w1 = Inr resp \<longrightarrow>
      header rctx (S ''Sec-Secure-Session-Id'') \<in> {None, map_of (rs_headers resp) (S ''Sec-Secure-Session-Id'')}"
  shows "\<exists>b b'. get_binding so (reading w2 0) (rc_session_id ctx) (w_store w2) = Inr (Some b) \<and>
    outcome so (issue_refresh_challenge rctx) w2 =
      Inr (challenge_403 (b_session_identifier b) (draw w2 0)) \<and>
    outcome so (refresh sv (refresh_jwt (draw w2 0)) rctx) w3 = Inr (refresh_response sv rctx b' (tick w2 9)) \<and>
    b_session_identifier b' = b_session_identifier b \<and> b_public_key_pem b' = pem \<and>
    b_cookie_value b' = draw w3 0 \<and> b_challenge b' = draw w3 1"
proof -
  note reg = session_store.honest_registration [OF assms(1-5), folded assms(6), folded assms(7)]
  let ?b = "binding_for ctx (new_offer ctx (draw w 0) (tick w 0))
    \<lparr>rr_public_key_pem = pem, rr_algorithm = S ''ES256'', rr_challenge = draw w 0\<rparr> w1"
  have ticks: "w_ticks (after so (register sv (reg_jwt (draw w 0)) ctx) (after so (build_registration_header_response sv ctx) w)) = w_ticks w + 8"
    using reg(3) by (simp only: assms(6,7))
  have tick2: "tick w2 i = tick w (8 + i)" "reading w2 i = reading w (8 + i)" for i
    unfolding assms(6,7) tick_def reading_def ticks
    by (simp_all add: after_def exec_clock add.assoc)
  have pem: "b_public_key_pem ?b = pem" by (simp add: binding_for_def)
  have clock: "time_ok (tick w2 i) \<and> reading w2 i \<le> of_int (tick w2 j + binding_ttl) \<and>
      tick w2 i - tick w2 j \<le> cfg_challenge_ttl_seconds (sv_config sv)" if "i < 12" "j < 12" for i j
    unfolding tick2 using that unhurried_times [OF assms(3)] by simp
  have stored: "get_binding so (reading w2 i) (rc_session_id ctx) (w_store w2) = Inr (Some ?b)" if "i < 12" for i
    unfolding tick2 using that by (intro reg(2)) simp
  have tick1: "tick w1 i = tick w (2 + i)" for i
    unfolding assms(6) by (rule later_tick) (rule offer_completes)
  have "pending_storable (new_offer ctx (draw w 0) (tick w 0))"
    using assms(5) unhurried_times(1) [OF assms(3), of 0]
    by (simp add: new_offer_def pending_storable_def pending_valid_def hex_safe time_ok_int_ok)
  then have sound: "sound_binding ?b"
    using assms(4,5) by (intro binding_for_storable) (simp_all add: tick1 unhurried_times [OF assms(3)])
  have user: "same_user (b_user_id ?b) (rc_user_id rctx)"
    by (simp add: binding_for_def new_binding_def new_offer_def assms(10))
  have ident: "header rctx (S ''Sec-Secure-Session-Id'') \<in> {None, Some (b_session_identifier ?b)}"
    using assms(11) reg(1) by (simp add: register_response_def)
  let ?b' = "rotated_binding sv (challenged_binding ?b (draw w2 0) (tick w2 1)) (tick w2 6) (draw w3 0) (draw w3 1)"
  have "outcome so (issue_refresh_challenge rctx) w2 = Inr (challenge_403 (b_session_identifier ?b) (draw w2 0))"
    "outcome so (refresh sv (refresh_jwt (draw w2 0)) rctx) w3 = Inr (refresh_response sv rctx ?b' (tick w2 9))"
    using session_store.honest_refresh [OF assms(1), of sv ?b reg_jwt refresh_jwt w2 rctx, unfolded pem assms(9),
      OF assms(2) clock stored sound user ident, folded assms(8)] by simp_all
  then show ?thesis
    using pem stored [of 0] by (intro exI [of _ ?b] exI [of _ ?b']) simp
qed

theorem honest_browser_refreshes_witness:
  "\<exists>(w2 :: mem_store world) w3 rctx ident b'. header rctx (S ''Sec-Secure-Session-Id'') = Some ident \<and>
    outcome sample_ops (issue_refresh_challenge rctx) w2 = Inr (challenge_403 ident (draw w2 0)) \<and>
    outcome sample_ops (refresh toy_server (toy_refresh (draw w2 0)) rctx) w3 =
      Inr (refresh_response toy_server rctx b' (tick w2 9)) \<and>
    b_public_key_pem b' = S ''PEM'' \<and> b_cookie_value b' = draw w3 0"
proof -
  let ?w1 = "after sample_ops (build_registration_header_response toy_server sample_ctx) sample_world"
  let ?reg = "register toy_server (toy_registration (draw sample_world 0)) sample_ctx"
  let ?w2 = "after sample_ops ?reg ?w1"
  have str: "str_ok (S ''PEM'')" "str_ok (rc_user_id sample_ctx)" by simp_all
  obtain b where reg: "outcome sample_ops ?reg ?w1 = Inr (register_response toy_server sample_ctx b (tick sample_world 7))"
    and b: "get_binding sample_ops (reading sample_world 8) (S ''s1'') (w_store ?w2) = Inr (Some b)"
    using session_store.honest_registration(1) [OF sample_contract toy_browser sample_unhurried str]
      session_store.honest_registration(2) [OF sample_contract toy_browser sample_unhurried str, of 8] by auto
  let ?ctx = "sample_ctx\<lparr>rc_headers := [py_lower (S ''Sec-Secure-Session-Id'') \<mapsto> b_session_identifier b]\<rparr>"
  let ?w3 = "after sample_ops (issue_refresh_challenge ?ctx) ?w2"
  have echo: "header ?ctx (S ''Sec-Secure-Session-Id'') = Some (b_session_identifier b)" by (simp add: header_def)
  then have "\<forall>resp. outcome sample_ops ?reg ?w1 = Inr resp \<longrightarrow>
      header ?ctx (S ''Sec-Secure-Session-Id'') \<in> {None, map_of (rs_headers resp) (S ''Sec-Secure-Session-Id'')}"
    using reg by (simp add: register_response_def)
  moreover have "rc_session_id ?ctx = rc_session_id sample_ctx" "rc_user_id ?ctx = rc_user_id sample_ctx" by simp_all
  ultimately obtain b2 b' where "get_binding sample_ops (reading ?w2 0) (rc_session_id sample_ctx) (w_store ?w2) = Inr (Some b2)"
    "outcome sample_ops (issue_refresh_challenge ?ctx) ?w2 = Inr (challenge_403 (b_session_identifier b2) (draw ?w2 0))"
    "outcome sample_ops (refresh toy_server (toy_refresh (draw ?w2 0)) ?ctx) ?w3 =
      Inr (refresh_response toy_server ?ctx b' (tick ?w2 9))"
    "b_public_key_pem b' = S ''PEM''" "b_cookie_value b' = draw ?w3 0"
    using honest_browser_refreshes [OF sample_contract toy_browser sample_unhurried str refl refl refl, of ?ctx] by blast
  moreover from this(1) b have "b2 = b"
    using sample.binding_view_unique by (metis sample_user(2) sum.inject(2) option.inject)
  ultimately show ?thesis using echo by blast
qed

text \<open>
  C12. What identifies a binding never changes: until a registration replaces it, whatever else
  happens to the session, its user, session identifier, device key, algorithm and creation time are
  the ones it was created with.
\<close>

theorem binding_identity_kept:
  assumes "session_store so pending_ttl binding_ttl"
    and "system so sv rs w tr Q w'" and "environment sv rs w" and "sound_state so [] (w_store w)"
    and "get_binding so t0 sid (w_store w) = Inr (Some b0)"
    and "\<forall>i q b. (i, ECommit sid q b (Inr True)) \<notin> set tr"
    and "get_binding so t sid (w_store w') = Inr (Some b)"
  shows "b_user_id b = b_user_id b0 \<and> b_session_identifier b = b_session_identifier b0 \<and>
    b_public_key_pem b = b_public_key_pem b0 \<and> b_algorithm b = b_algorithm b0 \<and>
    b_created_at b = b_created_at b0"
proof -
  have "identity c = identity b0" if "get_binding so t1 sid (w_store w) = Inr (Some c)" for t1 c
    using session_store.binding_view_unique [OF assms(1) that assms(5)] by simp
  with session_store.identity_kept [OF assms(1-4), of sid "identity b0"] assms(6,7)
  have "identity b = identity b0" by blast
  then show ?thesis by (simp add: identity_def)
qed

theorem binding_identity_kept_witness:
  "get_binding sample_ops 1000 (S ''s1'') (w_store (sample_state 6)) = Inr (Some sample_refreshed) \<and>
    b_public_key_pem sample_refreshed = b_public_key_pem sample_advertised \<and>
    b_session_identifier sample_refreshed = b_session_identifier sample_advertised"
proof -
  obtain evs Q where
    run: "system sample_ops toy_server sample_requests (sample_state 5) (map (Pair 5) evs) Q (sample_state 6)"
    using sample_alone [of 6 5] by (auto simp del: sample_state.simps)
  have "(i, ECommit (S ''s1'') q b (Inr True)) \<notin> set (map (Pair 5) evs)" for i :: nat and q b
    using history_ok [OF run, of i "ECommit (S ''s1'') q b (Inr True)"]
    by (auto simp: sample_requests_def)
  then show ?thesis
    using binding_identity_kept [OF sample_contract run sample_environment sample_sound_state sample_states(3) _ sample_states(4)]
      sample_states(4) by blast
qed

section \<open>Ending a session, and the gate\<close>

text \<open>
  C13. Revocation fails closed: it always succeeds, even when the stored binding is unreadable, it
  leaves neither a binding nor an offer, it tells the browser to drop the bound cookie, and it is
  audited exactly when there was a binding, readable or not.
\<close>

theorem revoke_tears_down:
  assumes "session_store so pending_ttl binding_ttl"
  shows "outcome so (revoke sv ctx et) w = Inr (empty_response
      \<lparr>rs_headers := NO_STORE, rs_cookies := [cookie_deletion (cfg_cookie_name (sv_config sv))]\<rparr>) \<and>
    get_binding so t (rc_session_id ctx) (w_store (after so (revoke sv ctx et) w)) = Inr None \<and>
    get_pending_registration so t (rc_session_id ctx) (w_store (after so (revoke sv ctx et) w)) = Inr None \<and>
    w_audit (after so (revoke sv ctx et) w) = w_audit w @
      (if get_binding so (reading w 0) (rc_session_id ctx) (w_store w) = Inr None then []
       else if et then [(ENFORCEMENT_TERMINATED,
         S ''DBSC enforcement terminated session (cookie missing or mismatched).'', rc_user_id ctx)]
       else [(REVOKED, S ''DBSC session revoked.'', rc_user_id ctx)])"
proof (cases "get_binding so (reading w 0) (rc_session_id ctx) (w_store w)")
  case (Inl e)
  with session_store.get_binding_corrupt [OF assms] show ?thesis
    by (simp add: outcome_def after_def revoke_code torn_down_def revoke_response_def isinstance_def
        session_store.views [OF assms])
next
  case (Inr found)
  then show ?thesis
    by (simp add: outcome_def after_def revoke_code torn_down_def revoke_response_def
        session_store.views [OF assms])
qed

theorem revoke_tears_down_witness:
  "get_binding sample_ops 1000 (S ''s1'') (w_store (sample_state 6)) \<noteq> Inr None \<and>
    get_binding sample_ops 1000 (S ''s1'') (w_store (after sample_ops (revoke toy_server sample_ctx True) (sample_state 6))) =
      Inr None \<and>
    map fst (w_audit (after sample_ops (revoke toy_server sample_ctx True) (sample_state 6))) =
      map fst (w_audit (sample_state 6)) @ [ENFORCEMENT_TERMINATED]"
  using revoke_tears_down [OF sample_contract, of toy_server sample_ctx True "sample_state 6" 1000] sample_states(4)
  by (simp del: sample_state.simps)

text \<open>
  C14. When exactly the gate accepts a bound cookie: it is the binding's current value, or the one
  before it until the instant at which that one expires, and both users agree where known.
\<close>

theorem bound_cookie_accepted_iff:
  assumes "binding_valid b"
  shows "outcome so (bound_cookie_matches sv b ctx) w = Inr True \<longleftrightarrow>
    same_user (b_user_id b) (rc_user_id ctx) \<and>
    (\<exists>v. cookie ctx (cfg_cookie_name (sv_config sv)) = Some v \<and> v \<noteq> [] \<and>
       (v = b_cookie_value b \<or>
        v = b_previous_cookie_value b \<and> tick w 0 < b_previous_cookie_expires_at b))"
  by (rule bound_cookie_outcome [OF assms])

theorem bound_cookie_accepted_iff_witness:
  "outcome sample_ops (bound_cookie_matches toy_server (sample_binding 0) sample_ctx) sample_world \<noteq> Inr True"
  using bound_cookie_accepted_iff [of "sample_binding 0" sample_ops toy_server sample_ctx sample_world]
    sample_binding_sound [of 0]
  by (simp add: sound_binding_def binding_storable_def cookie_def sample_ctx_def)

text \<open>
  C15. What stays valid over a rotation. After a refresh the gate accepts the new cookie value and,
  until the instant it would have expired in the browser, the one it replaced, and no older one; a
  refresh may answer only the new challenge, so that the one just spent is not. After the reactive
  rotation of a 403 it may answer the new challenge and, until that one's own time-to-live ends, the
  one it replaced.
\<close>

theorem rotation_overlap:
  assumes "with_challenge b ch now = Inr b1"
    and "with_rotated_cookie_and_challenge b ck ch now now (cfg_cookie_max_age_seconds (sv_config sv)) = Inr b2"
    and "same_user (b_user_id b) (rc_user_id ctx)" and "v \<noteq> []"
    and "cookie ctx (cfg_cookie_name (sv_config sv)) = Some v"
  shows "(outcome so (bound_cookie_matches sv b2 ctx) w = Inr True \<longleftrightarrow>
      v = ck \<or> v = b_cookie_value b \<and> tick w 0 < b_cookie_issued_at b + cfg_cookie_max_age_seconds (sv_config sv)) \<and>
    (outcome so (challenge_matches cfg b2 jti) w = Inr True \<longleftrightarrow> jti = ch) \<and>
    (outcome so (challenge_matches cfg b1 jti) w = Inr True \<longleftrightarrow>
      jti = ch \<or> jti = b_challenge b \<and> jti \<noteq> [] \<and>
        tick w 0 - b_challenge_time b \<le> cfg_challenge_ttl_seconds cfg)"
proof (intro conjI)
  show "outcome so (bound_cookie_matches sv b2 ctx) w = Inr True \<longleftrightarrow>
      v = ck \<or> v = b_cookie_value b \<and> tick w 0 < b_cookie_issued_at b + cfg_cookie_max_age_seconds (sv_config sv)"
    using assms(2-5) bound_cookie_outcome [of b2 so sv ctx w] by (auto simp: with_rotated_iff)
qed (use assms(1,2) challenge_outcome [of b1 so cfg jti w] challenge_outcome [of b2 so cfg jti w] in
    \<open>auto dest!: with_challenge_eq_Inr with_rotated_eq_Inr\<close>)

theorem rotation_overlap_witness:
  "outcome sample_ops (bound_cookie_matches toy_server sample_refreshed
      (sample_ctx\<lparr>rc_cookies := [S ''__Host-dbsc'' \<mapsto> sample_token 6]\<rparr>)) sample_world = Inr True \<and>
   outcome sample_ops (challenge_matches config_defaults sample_refreshed (sample_token 7)) sample_world \<noteq> Inr True"
proof -
  obtain b1 where b1: "with_challenge sample_advertised (sample_token 9) 1000 = Inr b1"
    using sample_sound(2) by (simp add: with_challenge_ok hex_safe sound_binding_def binding_storable_def)
  have b2: "with_rotated_cookie_and_challenge sample_advertised (sample_token 8) (sample_token 9) 1000 1000
      (cfg_cookie_max_age_seconds (sv_config toy_server)) = Inr sample_refreshed"
    using sample_sound(3) by (simp add: with_rotated_iff sample_refreshed_def sound_binding_def binding_storable_def)
  have "sample_token 7 \<noteq> sample_token 9" using sample_token_inject [of 7 9] by auto
  with rotation_overlap [OF b1 b2, of "sample_ctx\<lparr>rc_cookies := [S ''__Host-dbsc'' \<mapsto> sample_token 6]\<rparr>"
      "sample_token 6" sample_ops sample_world config_defaults "sample_token 7"] sample_tick [of 0 0]
  show ?thesis
    by (simp add: sample_advertised_def sample_binding_def cookie_def toy_server_def config_defaults_def)
      (simp add: new_binding_def sample_offer_def new_offer_def)
qed

text \<open>
  C17. A 403 always hands the browser something to refresh with: unless the session has no binding,
  it names the binding's session and the challenge that the store held at the last of its effects:
  the fresh one its own write stored, or after three lost races the stored one, unrotated.
\<close>

theorem challenge_403_current:
  assumes "runs (issue_refresh_challenge ctx) evs (Inr resp)"
  shows "(\<exists>b h now b'. last evs = EReplace (rc_session_id ctx) b b' (Inr True) \<and>
        with_challenge b h now = Inr b' \<and> attempts evs \<le> 3 \<and>
        resp = challenge_403 (b_session_identifier b') (b_challenge b')) \<or>
    (\<exists>b. last evs = EGetBinding (rc_session_id ctx) (Inr (Some b)) \<and> attempts evs = 3 \<and> writes evs = [] \<and>
        resp = challenge_403 (b_session_identifier b) (b_challenge b)) \<or>
    (last evs = EGetBinding (rc_session_id ctx) (Inr None) \<and> writes evs = [] \<and>
        rs_status resp = Some 403 \<and> rs_headers resp = NO_STORE)"
proof -
  have "issued 3 ctx evs resp"
    using assms unfolding issue_refresh_challenge_def MAX_UPDATE_ATTEMPTS_def by (rule issue_success)
  then show ?thesis
    unfolding issued_def by (elim disjE exE conjE) (auto simp: with_challenge_iff bare_403_def)
qed

theorem challenge_403_current_witness:
  "\<exists>evs b. runs (issue_refresh_challenge sample_ctx) evs
      (Inr (challenge_403 (b_session_identifier b) (b_challenge b))) \<and>
    ((\<exists>e. last evs = EReplace (S ''s1'') e b (Inr True)) \<or> last evs = EGetBinding (S ''s1'') (Inr (Some b)))"
proof -
  let ?P = "\<lambda>i::nat. issue_refresh_challenge sample_ctx"
  have "get_binding sample_ops (reading (sample_state 4) i) (rc_session_id sample_ctx) (w_store (sample_state 4)) =
      Inr (Some (sample_binding 4))" for i
    using sample_states(2) by simp
  then have resp: "outcome sample_ops (issue_refresh_challenge sample_ctx) (sample_state 4) =
      Inr (challenge_403 (b_session_identifier (sample_binding 4)) (draw (sample_state 4) 0))"
    by (intro sample.issue_completes)
  have "gsteps sample_ops ?P (sample_state 4) [] ?P (sample_state 4)" by (rule gsteps.gdone)
  from run_next [OF this refl, of 0] resp obtain evs where run: "runs (issue_refresh_challenge sample_ctx) evs
      (Inr (challenge_403 (b_session_identifier (sample_binding 4)) (draw (sample_state 4) 0)))"
    by (auto simp: outcome_def)
  have "rs_headers (challenge_403 (b_session_identifier (sample_binding 4)) (draw (sample_state 4) 0)) \<noteq> NO_STORE"
    by (simp add: challenge_403_def challenge_headers_def NO_STORE_def)
  with challenge_403_current [OF run] show ?thesis
  proof (elim disjE exE conjE)
    fix b h now b'
    assume "last evs = EReplace (rc_session_id sample_ctx) b b' (Inr True)"
      and "challenge_403 (b_session_identifier (sample_binding 4)) (draw (sample_state 4) 0) =
        challenge_403 (b_session_identifier b') (b_challenge b')"
    with run show ?thesis by (intro exI [of _ evs] exI [of _ b']) simp
  next
    fix b
    assume "last evs = EGetBinding (rc_session_id sample_ctx) (Inr (Some b))"
      and "challenge_403 (b_session_identifier (sample_binding 4)) (draw (sample_state 4) 0) =
        challenge_403 (b_session_identifier b) (b_challenge b)"
    with run show ?thesis by (intro exI [of _ evs] exI [of _ b]) simp
  qed simp
qed

text \<open>
  C18. The seed challenge is delivered once between registrations. Whatever the interleaving, from a
  store of sound records: of two requests of a session that were both answered with the headers of an
  advertisement, each made the conditional write that marked its binding as advertised, the answer carries
  the seed challenge of that binding, and a registration of the session came between the two writes.
\<close>

theorem advertised_once:
  assumes "session_store so pending_ttl binding_ttl"
    and "system so sv rs w tr Q w'" and "environment sv rs w" and "sound_state so [] (w_store w)"
    and "rs i = Advertise b ctx" and "rs j = Advertise b' ctx'" and "i \<noteq> j"
    and "rc_session_id ctx = sid" and "rc_session_id ctx' = sid"
    and "Q i = Return resp" and "Q j = Return resp'"
    and "rs_headers resp \<noteq> []" and "rs_headers resp' \<noteq> []"
  shows "\<exists>x first m second y. tr = x @ first # m @ second # y \<and>
    {first, second} =
      {(i, EReplace sid b (b\<lparr>b_challenge_advertised := True\<rparr>) (Inr True)),
       (j, EReplace sid b' (b'\<lparr>b_challenge_advertised := True\<rparr>) (Inr True))} \<and>
    (\<exists>k q e. (k, ECommit sid q e (Inr True)) \<in> set m) \<and>
    resp = empty_response\<lparr>rs_headers :=
      challenge_headers (b_session_identifier b) (b_challenge b) @ NO_STORE\<rparr>"
proof -
  note one = seed_delivered [OF assms(2,5,10,12), unfolded assms(8)]
  note two = seed_delivered [OF assms(2,6,11,13), unfolded assms(9)]
  from two_members [OF one(3) two(3)] assms(7) obtain x m y p q where tr: "tr = x @ p # m @ q # y" and
    pq: "p = (i, EReplace sid b (b\<lparr>b_challenge_advertised := True\<rparr>) (Inr True)) \<and>
        q = (j, EReplace sid b' (b'\<lparr>b_challenge_advertised := True\<rparr>) (Inr True)) \<or>
      p = (j, EReplace sid b' (b'\<lparr>b_challenge_advertised := True\<rparr>) (Inr True)) \<and>
        q = (i, EReplace sid b (b\<lparr>b_challenge_advertised := True\<rparr>) (Inr True))"
    by blast
  have "\<exists>k q e. (k, ECommit sid q e (Inr True)) \<in> set m"
    using session_store.advertised_again [OF assms(1) _ assms(3,4)] assms(2) pq one(2) two(2)
    unfolding tr by fastforce
  with tr pq one(1) show ?thesis by blast
qed

theorem advertised_once_witness:
  "\<exists>tr Q w' resp resp'. system sample_ops toy_server sample_seeds (sample_state 4) tr Q w' \<and>
    Q 0 = Return resp \<and> Q 3 = Return resp' \<and> rs_headers resp \<noteq> [] \<and> rs_headers resp' \<noteq> [] \<and>
    (\<exists>k q e. (k, ECommit (S ''s1'') q e (Inr True)) \<in> set tr)"
proof -
  obtain tr Q w' resp resp' where run: "system sample_ops toy_server sample_seeds (sample_state 4) tr Q w'"
    and ans: "Q 0 = Return resp" "Q 3 = Return resp'" and some: "rs_headers resp \<noteq> []" "rs_headers resp' \<noteq> []"
    using sample_delivers by blast
  have rs: "sample_seeds 0 = Advertise (sample_binding 4) sample_ctx"
    "sample_seeds 3 = Advertise (sample_binding 8) sample_ctx" by (simp_all add: sample_seeds_def)
  have "(0::nat) \<noteq> 3" by simp
  from advertised_once [OF sample_contract run seeds_environment sample_sound_state rs this sample_user(2) sample_user(2) ans some]
  have "\<exists>k q e. (k, ECommit (S ''s1'') q e (Inr True)) \<in> set tr" by auto
  with run ans some show ?thesis by blast
qed

section \<open>Progress\<close>

text \<open>
  C19. No request hangs or is starved: whatever the others do, each request has at most 23 effects, and
  as long as it has not answered it has a next one that succeeds in the current world.
\<close>

theorem requests_progress:
  assumes "system so sv rs w tr Q w'"
  shows "length (events_of i tr) \<le> 23 \<and>
    ((\<exists>resp. Q i = Return resp) \<or> (\<exists>e. Q i = Raise e) \<or>
     (\<exists>ev q w''. step so (Q i) w' = Some (ev, q, w'') \<and>
        system so sv rs w (tr @ [(i, ev)]) (Q(i := q)) w''))"
proof -
  have "(\<exists>resp. Q i = Return resp) \<or> (\<exists>e. Q i = Raise e) \<or> (\<exists>ev q w''. step so (Q i) w' = Some (ev, q, w''))"
    by (cases "Q i") (auto simp: Let_def split: prod.splits)
  then show ?thesis using effects_bounded [OF assms, of i] gsteps.gnext [OF assms, of i] by blast
qed

theorem requests_progress_witness:
  "\<exists>ev q w''. step sample_ops (sample_proc 5) sample_world = Some (ev, q, w'')"
proof -
  have "system sample_ops toy_server sample_requests sample_world [] sample_proc sample_world" by (rule gsteps.gdone)
  moreover obtain sid k where "sample_proc 5 = GetBinding sid k"
    by (simp add: sample_requests_def refresh_def MAX_UPDATE_ATTEMPTS_def numeral_3_eq_3 binding_proved_by_def)
  ultimately show ?thesis using requests_progress [of sample_ops toy_server sample_requests sample_world "[]" sample_proc sample_world 5]
    by (simp only: prog.distinct) blast
qed

section \<open>The protected page of the example, interleaved\<close>

text \<open>
  C20. The gate, with any number of requests in progress and over any store that hands out valid records
  only, whatever else it holds or raises: an answer to a request for the protected page
  either sends the browser to log in, or the handler itself found the session logged in and read its
  binding from the store; without a binding the page says so, and a bound session gets the page only if
  the request presented the bound cookie (or the one before it, at a time before its expiry) or was no
  document request and fell into the registration grace.
\<close>

theorem account_page_on_evidence:
  assumes "valid_store so"
    and "app_steps so (\<lambda>j. handle ap (rqs j)) s w tr A s' w'"
    and "account_request (rqs i)" and "A i = Done r"
  shows "rp_status r = 302 \<and> rp_body r = [] \<or>
    (\<exists>sid s1 ctx s2 x. own_session (rqs i) (labels_of i tr) sid \<and> Saw s1 \<in> set (labels_of i tr) \<and>
       logged_in s1 sid \<and> Saw s2 \<in> set (labels_of i tr) \<and> context_of ap (rqs i) sid s2 = Inr ctx \<and>
       Effect (EGetBinding sid (Inr x)) \<in> set (labels_of i tr) \<and>
       (case x of
          None \<Rightarrow> rp_body r = COOKIE_AUTH_PAGE
        | Some b \<Rightarrow> rp_body r = BOUND_PAGE \<and>
            (shows_cookie (ap_dbsc ap) b ctx (labels_of i tr) \<or> in_grace (ap_dbsc ap) b ctx (labels_of i tr))))"
  using valid_store.app_steps_meets [OF assms(1,2) handle_account [OF assms(3)]] assms(4)
  by (simp add: account_verdict_def)

theorem account_page_on_evidence_witness:
  "\<exists>tr A s' w' r h. app_steps sample_ops (\<lambda>_. handle sample_app sample_bound_page) sample_sessions (sample_state 6) tr A s' w' \<and>
    A 0 = Done r \<and> rp_body r = BOUND_PAGE \<and> h = labels_of 0 tr \<and>
    (\<exists>sid s1 b ctx. Saw s1 \<in> set h \<and> logged_in s1 sid \<and> Effect (EGetBinding sid (Inr (Some b))) \<in> set h \<and>
      (shows_cookie toy_server b ctx h \<or> in_grace toy_server b ctx h))"
proof -
  obtain r s' w' where run: "app_exec sample_ops (handle sample_app sample_bound_page) (sample_sessions, sample_state 6) =
      (Inr r, s', w')" and page: "rp_body r = BOUND_PAGE"
    using bound_page_served by blast
  obtain tr A where steps: "app_steps sample_ops (\<lambda>_. handle sample_app sample_bound_page) sample_sessions (sample_state 6) tr A s' w'"
    and finished: "A 0 = Done r"
    using app_exec_steps [of sample_ops "\<lambda>_. handle sample_app sample_bound_page" "0 :: nat", OF run]
    by (auto simp: ended_def)
  have "account_request sample_bound_page" by (simp add: account_request_def sample_bound_page_def sample_page_def S_def)
  from account_page_on_evidence [OF sample_valid steps this finished] page page_bodies_differ steps finished show ?thesis
    by (fastforce split: option.splits)
qed

section \<open>What leaves the server\<close>

text \<open>
  C21. No response can be split and no cookie can leave the host: every header of every successful
  response is printable ASCII without line breaks, and every cookie carries the configured
  \<open>__Host-\<close> name, a cookie-safe value, \<open>Path=/\<close>, \<open>Secure\<close>, \<open>HttpOnly\<close> and one of the three
  \<open>SameSite\<close> values.
\<close>

theorem responses_injection_free:
  assumes "valid_store so" and "system so sv rs w tr Q w'"
    and "config_valid (sv_config sv)" and "Q i = Return resp"
  shows "(\<forall>(name, v) \<in> set (rs_headers resp). \<forall>c \<in> set (name @ v). 32 \<le> c \<and> c \<le> 126) \<and>
    (\<forall>ck \<in> set (rs_cookies resp).
       ck_name ck = cfg_cookie_name (sv_config sv) \<and> is_cookie_name (ck_name ck) \<and>
       is_cookie_value (ck_value ck) \<and> ck_path ck = S ''/'' \<and> ck_secure ck \<and> ck_http_only ck \<and>
       ck_same_site ck \<in> {S ''Lax'', S ''Strict'', S ''None''})"
proof -
  have "list_all reply_valid (events_of i tr)"
    using valid_store.gsteps_reply_valid [OF assms(1,2)] by (auto simp: events_of_def list_all_iff)
  from response_safe [OF gsteps_runs(1) [OF assms(2,4)] this assms(3)] assms(3)
  show ?thesis
    by (auto simp: list_all_iff safe_header_def host_cookie_def visible_def SAME_SITE_VALUES_def config_valid_def)
qed

theorem responses_injection_free_witness:
  "\<exists>tr Q resp. system sample_ops toy_server sample_requests sample_world tr Q (sample_state 6) \<and>
    Q 5 = Return resp \<and> (\<forall>ck \<in> set (rs_cookies resp). is_cookie_value (ck_value ck))"
proof -
  obtain tr Q where run: "system sample_ops toy_server sample_requests sample_world tr Q (sample_state 5)"
    and "\<forall>k \<ge> 5. Q k = sample_proc k"
    using sample_run by blast
  then have "Q 5 = sample_proc 5" by simp
  from sample_next [OF run this] obtain evs where
    last: "system sample_ops toy_server sample_requests sample_world (tr @ map (Pair 5) evs)
      (Q(5 := halted (outcome sample_ops (sample_proc 5) (sample_state 5)))) (sample_state (Suc 5))" by blast
  have "Suc 5 = 6" by simp
  then have six: "sample_state (Suc 5) = sample_state 6" by (simp only:)
  obtain resp where resp: "outcome sample_ops (sample_proc 5) (sample_state 5) = Inr resp"
    using sample_states(5) [of 5] unfolding is_ok_iff by auto
  let ?Q = "Q(5 := halted (outcome sample_ops (sample_proc 5) (sample_state 5)))"
  have "config_valid (sv_config toy_server)" using sample_environment [of 0] by (simp add: environment_def)
  moreover have ans: "?Q 5 = Return resp" by (simp add: resp halted_def)
  ultimately have "\<forall>ck \<in> set (rs_cookies resp). is_cookie_value (ck_value ck)"
    using responses_injection_free [OF sample_valid last, of 5 resp] by blast
  with last ans show ?thesis unfolding six by blast
qed

text \<open>
  C22. The session instructions are what was meant: the body of a registration and of a refresh is JSON
  that reads back as the object with the session identifier of the binding that the request stored, the
  refresh path, this origin alone as the scope (with the scope rules, if there are any), the bound cookie
  with its attributes, and the hosts allowed to start a refresh (if there are any), the rules and hosts of
  the request taking precedence over those of the configuration.
\<close>

theorem instructions_parse:
  assumes "runs (register sv jwt ctx) evs (Inr resp) \<or> runs (refresh sv jwt ctx) evs (Inr resp)"
    and "config_valid (sv_config sv)" and "is_origin (rc_origin_host_url ctx)"
    and "initiators = (case rc_allowed_refresh_initiators ctx of
           Some hosts \<Rightarrow> hosts | None \<Rightarrow> cfg_allowed_refresh_initiators (sv_config sv))"
    and "rules = (case rc_scope_specification ctx of
           Some rs \<Rightarrow> rs | None \<Rightarrow> cfg_scope_specification (sv_config sv))"
    and "list_all is_host_pattern initiators" and "list_all scope_rule_valid rules" and "4 \<le> depth"
  shows "\<exists>body b. rs_body resp = Some body \<and>
    ((\<exists>offer. ECommit (rc_session_id ctx) offer b (Inr True) \<in> set evs) \<or>
     (\<exists>before. EReplace (rc_session_id ctx) before b (Inr True) \<in> set evs)) \<and>
    loads_object depth body = Some (
      [(S ''session_identifier'', JStr (b_session_identifier b)),
       (S ''refresh_url'', JStr (cfg_refresh_path (sv_config sv))),
       (S ''scope'', JObj (
          [(S ''origin'', JStr (rc_origin_host_url ctx)), (S ''include_site'', JBool False)] @
          (if rules = [] then []
           else [(S ''scope_specification'', JArr (map (\<lambda>r. JObj (
              [(S ''type'', JStr (case sr_type r of INCLUDE \<Rightarrow> S ''include'' | EXCLUDE \<Rightarrow> S ''exclude''))] @
              (case sr_domain r of None \<Rightarrow> [] | Some d \<Rightarrow> [(S ''domain'', JStr d)]) @
              (case sr_path r of None \<Rightarrow> [] | Some p \<Rightarrow> [(S ''path'', JStr p)]))) rules))]))),
       (S ''credentials'', JArr [JObj
          [(S ''type'', JStr (S ''cookie'')), (S ''name'', JStr (cfg_cookie_name (sv_config sv))),
           (S ''attributes'', JStr (S ''Path=/; Secure; HttpOnly; SameSite='' @
              cfg_cookie_same_site (sv_config sv)))]])] @
      (if initiators = [] then []
       else [(S ''allowed_refresh_initiators'', JArr (map JStr initiators))]))"
proof -
  obtain b where body: "rs_body resp = Some (instructions_json sv (b_session_identifier b) ctx)"
    and valid: "binding_valid b"
    and wrote: "(\<exists>offer. ECommit (rc_session_id ctx) offer b (Inr True) \<in> set evs) \<or>
      (\<exists>before. EReplace (rc_session_id ctx) before b (Inr True) \<in> set evs)"
    using body_binding [OF assms(1)] by blast
  have src: "scope_specification sv ctx = rules" "allowed_refresh_initiators sv ctx = initiators"
    by (simp_all add: scope_specification_def allowed_refresh_initiators_def or_else_def assms(4,5) split: option.split)
  have "instructable sv ctx" using assms(2,3,6,7) by (simp add: instructable_def src)
  from instructions_read_back [OF this valid_binding_safe(1) [OF valid] assms(8)] body wrote
  show ?thesis
    by (intro exI [of _ "instructions_json sv (b_session_identifier b) ctx"] exI [of _ b])
      (simp add: instructions_def Let_def src scope_to_dict_def scope_type_value_def cong: if_cong)
qed


theorem instructions_parse_witness:
  "\<exists>evs resp body obj. runs (refresh toy_server (toy_refresh (sample_token 7)) sample_ctx) evs (Inr resp) \<and>
    rs_body resp = Some body \<and> loads_object 10 body = Some obj \<and>
    map_of obj (S ''refresh_url'') = Some (JStr (S ''/dbsc/refresh'')) \<and>
    map_of obj (S ''scope'') = Some (JObj
      [(S ''origin'', JStr (S ''https://example.com'')), (S ''include_site'', JBool False)])"
proof -
  obtain evs resp where run: "runs (refresh toy_server (toy_refresh (sample_token 7)) sample_ctx) evs (Inr resp)"
    using sample_runs [of 5] by (auto simp: sample_requests_def)
  have "config_valid (sv_config toy_server)" using sample_environment [of 0] by (simp add: environment_def)
  moreover have "is_origin (rc_origin_host_url sample_ctx)" by (simp add: sample_ctx_def sample_origin)
  moreover have "[] = (case rc_allowed_refresh_initiators sample_ctx of
      Some hosts \<Rightarrow> hosts | None \<Rightarrow> cfg_allowed_refresh_initiators (sv_config toy_server))"
    "[] = (case rc_scope_specification sample_ctx of
      Some rs \<Rightarrow> rs | None \<Rightarrow> cfg_scope_specification (sv_config toy_server))"
    by (simp_all add: sample_ctx_def toy_server_def config_defaults_def)
  ultimately obtain body obj x tail where body: "rs_body resp = Some body" "loads_object 10 body = Some obj"
    and obj: "obj =
      (S ''session_identifier'', x) # (S ''refresh_url'', JStr (cfg_refresh_path (sv_config toy_server))) #
      (S ''scope'', JObj
          [(S ''origin'', JStr (rc_origin_host_url sample_ctx)), (S ''include_site'', JBool False)]) # tail"
    using instructions_parse [OF disjI2 [OF run], of "[]" "[]" 10] by auto
  have "map_of obj (S ''refresh_url'') = Some (JStr (S ''/dbsc/refresh''))"
    "map_of obj (S ''scope'') = Some (JObj
      [(S ''origin'', JStr (S ''https://example.com'')), (S ''include_site'', JBool False)])"
    by (simp_all add: obj toy_server_def config_defaults_def sample_ctx_def)
  with run body show ?thesis by blast
qed

section \<open>The enforcement gate of the example\<close>

text \<open>
  C23. The protected page, for a handler that runs alone, in every case. A session that is not logged in is
  sent to log in and nothing changes. A binding that is there but cannot be read never degrades to cookie
  authentication: the session is logged out and torn down. A session that never registered is served on
  its session cookie. One with a readable binding is served exactly when the request passes the gate,
  which a document request does by presenting the bound cookie and any other request also by falling
  into the registration grace; when it does not pass, the session is logged out, its binding is gone and
  the browser is sent to log in.
\<close>

theorem gate_decides:
  assumes "session_store so pending_ttl binding_ttl" and "is_origin (ap_origin ap)"
    and "\<forall>ctx. context_of ap rq sid s = Inr ctx \<longrightarrow> readable_cookies ctx"
  shows "if logged_in s sid then
      (case get_binding so (reading w 0) sid (w_store w) of
         Inl e \<Rightarrow> \<exists>r' w'. app_exec so (account_route ap rq sid r) (s, w) = (Inr r', s(sid \<mapsto> []), w') \<and>
           rp_status r' = 302 \<and> rp_body r' = rp_body r \<and> (\<forall>t. get_binding so t sid (w_store w') = Inr None)
       | Inr None \<Rightarrow> app_exec so (account_route ap rq sid r) (s, w) = (Inr (r\<lparr>rp_body := COOKIE_AUTH_PAGE\<rparr>), s, pass 1 w)
       | Inr (Some b) \<Rightarrow> \<exists>ctx r' s' w'. context_of ap rq sid s = Inr ctx \<and>
           app_exec so (account_route ap rq sid r) (s, w) = (Inr r', s', w') \<and>
           (if (if is_document_request ctx then presents_cookie (ap_dbsc ap) b ctx (tick w 1)
                else tick w 1 - b_created_at b < cfg_registration_grace_seconds (sv_config (ap_dbsc ap)) \<or>
                  presents_cookie (ap_dbsc ap) b ctx (tick w 2))
            then s' = s \<and> rp_body r' = BOUND_PAGE \<and> rp_status r' = rp_status r
            else s' = s(sid \<mapsto> []) \<and> (\<forall>t. get_binding so t sid (w_store w') = Inr None) \<and>
              rp_status r' = 302 \<and> rp_body r' = rp_body r \<and>
              (S ''Location'', S ''?route=login'') \<in> set (rp_headers r')))
    else app_exec so (account_route ap rq sid r) (s, w) = (Inr (redirect (S ''?route=login'') r), s, w)"
proof (cases "logged_in s sid")
  case False
  then show ?thesis by (simp add: account_route_def logged_in_def)
next
  case True
  then obtain user where user: "s sid = Some user" "user \<noteq> []" by (cases "s sid") (auto simp: logged_in_def)
  obtain ctx where ctx: "context_of ap rq sid s = Inr ctx" using context_of_ok [OF assms(2)] by metis
  with assms(3) have readable: "readable_cookies ctx" by blast
  note unbound = session_store.unbound_gate [OF assms(1) user ctx, where w = w and r = r]
  show ?thesis
  proof (cases "get_binding so (reading w 0) sid (w_store w)")
    case (Inl e)
    then show ?thesis using unbound True by simp
  next
    case (Inr found)
    show ?thesis
    proof (cases found)
      case None
      then show ?thesis using unbound True Inr by simp
    next
      case (Some b)
      with Inr have "get_binding so (reading w 0) sid (w_store w) = Inr (Some b)" by simp
      from session_store.bound_gate [OF assms(1) user ctx readable this, where r = r] True Inr Some ctx show ?thesis
        unfolding if_P [OF True] Inr Some sum.case option.case by blast
    qed
  qed
qed

theorem gate_decides_witness:
  "(\<exists>r' s' w'. app_exec sample_ops (account_route sample_app sample_page (S ''s1'') (Response 200))
      (sample_sessions, sample_state 6) = (Inr r', s', w') \<and>
    \<not> logged_in s' (S ''s1'') \<and> rp_status r' = 302) \<and>
   (\<exists>r' w'. app_exec sample_ops (account_route sample_app sample_page (S ''s1'') (Response 200))
      (sample_sessions, garbage_world) = (Inr r', sample_sessions(S ''s1'' \<mapsto> []), w') \<and>
    get_binding sample_ops 1000 (S ''s1'') (w_store w') = Inr None)"
proof -
  obtain ctx where ctx: "context_of sample_app sample_page (S ''s1'') sample_sessions = Inr ctx"
    "readable_cookies ctx" "is_document_request ctx" "\<And>b now. \<not> presents_cookie toy_server b ctx now"
    by (rule sample_page_context) blast
  then have cookies: "\<forall>ctx. context_of sample_app sample_page (S ''s1'') sample_sessions = Inr ctx \<longrightarrow> readable_cookies ctx"
    by simp
  have user: "logged_in sample_sessions (S ''s1'')" by (simp add: logged_in_def sample_sessions_def)
  have found: "get_binding sample_ops (reading (sample_state 6) 0) (S ''s1'') (w_store (sample_state 6)) =
      Inr (Some sample_refreshed)"
    using sample_states(4) by simp
  obtain e where garbage: "get_binding sample_ops (reading garbage_world 0) (S ''s1'') (w_store garbage_world) = Inl e"
    by (rule garbage_reading)
  note decides = gate_decides [OF sample_contract sample_app_parts(2) cookies, where r = "Response 200"]
  from decides [of "sample_state 6"] decides [of garbage_world] ctx(1,3,4) user found garbage sample_app_parts(1) show ?thesis
    by (fastforce simp: logged_in_def)
qed

section \<open>What the example reads\<close>

text \<open>
  C25. What the request reader lets through, of whatever a client sends: fewer than 100 headers under
  different lower-case names, a content length between 0 and 64 KiB, and query parameters under different
  names. It gives up with four classes of error only, all of which its caller answers by hanging up: a
  timeout, a value error, a stream that ended too early and a connection that was reset.
\<close>

theorem request_reader_bounds:
  "case read_request netloc_ok c of
     Inl e \<Rightarrow> exn_cls e \<in> {TimeoutError, ValueError, IncompleteReadError, ConnectionResetError}
   | Inr None \<Rightarrow> True
   | Inr (Some rq) \<Rightarrow>
       length (rq_headers rq) < 100 \<and> distinct (map fst (rq_headers rq)) \<and>
       list_all (\<lambda>u. py_lower (fst u) = fst u) (rq_headers rq) \<and>
       (\<exists>n. content_length (rq_headers rq) = Inr n \<and> 0 \<le> n \<and> n \<le> 65536) \<and>
       distinct (map fst (rq_query rq))"
proof (cases "read_request netloc_ok c")
  case (Inl e)
  with read_request_hangs_up [of netloc_ok c] show ?thesis by (simp add: read_error_def)
next
  case (Inr found)
  have "well_read rq" if "found = Some rq" for rq
    using read_request_well_read [of netloc_ok c] Inr that by simp
  with Inr show ?thesis
    by (cases found) (auto simp: well_read_def MAX_HEADER_LINES_def MAX_BODY_BYTES_def split: sum.splits)
qed

section \<open>Sessions of the example that end or are replaced\<close>



text \<open>
  C27. Logging in again replaces the session: the old id and its binding are gone, the user is logged
  in under the token that was drawn, and a registration is on offer there for its whole lifetime.
\<close>

theorem login_replaces_session:
  assumes "session_store so pending_ttl binding_ttl" and "is_origin (ap_origin ap)"
    and "\<forall>k. time_ok (py_int (w_clock w k))"
    and "rq_path rq = S ''/''" and "map_of (rq_query rq) (S ''route'') = Some (S ''login'')"
    and "map_of (rq_cookies rq) (S ''demo_session'') = Some sid" and "s sid = Some user"
  shows "\<exists>r' w' q t0. app_exec so (handle ap rq) (s, w) =
      (Inr r', s(sid := None, fst (token_urlsafe 32 w) \<mapsto> S ''demo-user''), w') \<and>
    (\<forall>t. get_binding so t sid (w_store w') = Inr None) \<and> p_user_id q = S ''demo-user'' \<and>
    (\<forall>t. t \<le> of_int (py_int t0 + pending_ttl) \<longrightarrow>
      get_pending_registration so t (fst (token_urlsafe 32 w)) (w_store w') = Inr (Some q))"
proof -
  have login: "login_request rq" using assms(4,5) by (simp add: login_request_def)
  have cookie: "map_of (rq_cookies rq) APP_SESSION_COOKIE = Some sid" using assms(6) by (simp add: APP_SESSION_COOKIE_def)
  have times: "\<And>k. time_ok (py_int (w_clock w k))" using assms(3) by blast
  from session_store.login_alone [where w = w and s = s and user = user, OF assms(1,2) times login cookie assms(7)]
  show ?thesis by blast
qed

theorem login_replaces_session_witness:
  "\<exists>r' s' w'. app_exec sample_ops (handle sample_app sample_login) (sample_sessions, sample_state 2) = (Inr r', s', w') \<and>
    s' (fst (token_urlsafe 32 (sample_state 2))) = Some (S ''demo-user'') \<and>
    get_binding sample_ops 1000 (S ''s1'') (w_store w') = Inr None"
proof -
  have "\<forall>k. time_ok (py_int (w_clock (sample_state 2) k))"
    by (simp add: sample_clock py_int_numeral time_ok_def)
  from login_replaces_session [OF sample_contract sample_app_parts(2) this sample_login_parts, where s = sample_sessions
      and user = "S ''alice''"]
  show ?thesis by (auto simp: sample_sessions_def)
qed

text \<open>
  C28. No session fixation: however requests are interleaved, a session that becomes logged in does so
  under an id that a login request drew at random while they ran, never under one that existed before
  or that a client chose.
\<close>

theorem no_session_fixation:
  assumes "app_steps so (\<lambda>i. handle ap (rqs i)) s w tr A s' w'"
    and "\<not> logged_in s sid" and "logged_in s' sid"
  shows "\<exists>i. (i, Drew sid) \<in> set tr \<and>
    map_of (rq_query (rqs i)) (S ''route'') = Some (S ''login'')"
  using drawn_before_login [OF assms(1)] assms(2,3) unfolding login_request_def by blast

theorem no_session_fixation_witness:
  "\<exists>tr A s' w' sid. app_steps sample_ops (\<lambda>_. handle sample_app sample_login) Map.empty sample_world tr A s' w' \<and>
    logged_in s' sid \<and> (\<exists>i. (i, Drew sid) \<in> set tr)"
proof -
  obtain tr A s' w' sid where run:
    "app_steps sample_ops (\<lambda>i. handle sample_app ((\<lambda>_. sample_login) i)) Map.empty sample_world tr A s' w'"
    "\<not> logged_in Map.empty sid" "logged_in s' sid"
    using sample_login_steps by metis
  from no_session_fixation [OF run] run show ?thesis by blast
qed

text \<open>
  C29. Two logins with the same session cookie race: over every store, and for every request that logs a
  known session in again, there is a schedule of two copies of the request after which the second one
  has failed with a \<open>KeyError\<close>, since the first has already removed the session it is about to remove.
  In the program the handlers take turns inside \<open>revoke\<close>, while they await the store, so the race needs a
  store whose operations suspend, as those of \<open>FileStore\<close> do and those of \<open>InMemoryStore\<close> do not.
\<close>

theorem double_login_race:
  assumes "session_store so pending_ttl binding_ttl" and "is_origin (ap_origin ap)"
    and "rq_path rq = S ''/''" and "map_of (rq_query rq) (S ''route'') = Some (S ''login'')"
    and "map_of (rq_cookies rq) (S ''demo_session'') = Some sid" and "s sid = Some user"
  shows "\<exists>tr A s' w'. app_steps so (\<lambda>_. handle ap rq) s w tr A s' w' \<and> A 1 = Fail (Exn KeyError sid)"
proof -
  obtain ctx where "context_of ap rq sid s = Inr ctx" using context_of_ok [OF assms(2)] by metis
  moreover have "login_request rq" using assms(3,4) by (simp add: login_request_def)
  moreover have "map_of (rq_cookies rq) APP_SESSION_COOKIE = Some sid" using assms(5) by (simp add: APP_SESSION_COOKIE_def)
  ultimately show ?thesis using session_store.double_login [OF assms(1)] assms(6) by blast
qed

theorem double_login_race_witness:
  "\<exists>tr A s' w'. app_steps sample_ops (\<lambda>_. handle sample_app sample_login) sample_sessions sample_world tr A s' w' \<and>
    A 1 = Fail (Exn KeyError (S ''s1''))"
  by (rule double_login_race [OF sample_contract sample_app_parts(2) sample_login_parts, where user = "S ''alice''"])
    (simp add: sample_sessions_def)

section \<open>Connections of the example\<close>

text \<open>
  C30. Every connection is answered: with any number of connections in progress, over any store that hands
  out valid records only, the file store with any files among them, a connection that has not ended can
  take its next step, none can take steps for ever, and one that has ended was hung up on because its
  request could not be read, or was written bytes that read back as a response of a known status, a bare
  400 for a request that is not HTTP; no exception leaves it, even if the client is gone by then.
\<close>

theorem connections_answered:
  assumes "valid_store so" and "app_valid ap" and "\<forall>j. only_lost (drains j)"
    and "app_steps so (\<lambda>j. on_connection netloc_ok ap (cs j) (drains j)) s w tr A s' w'"
  shows "wf {(b, a). \<exists>s w l s' w'. app_step so (a :: bytes option app) s w = Some (l, b, s', w')} \<and>
    (app_step so (A i) s' w' \<noteq> None \<or>
     (\<exists>answer. A i = Done answer \<and>
        (case read_request netloc_ok (cs i) of
           Inl e \<Rightarrow> answer = None
         | Inr None \<Rightarrow> \<exists>bs. answer = Some bs \<and> reads_back bs (Response 400)
         | Inr (Some rq) \<Rightarrow> \<exists>bs r. answer = Some bs \<and> reads_back bs r \<and>
             rp_status r \<in> {200, 302, 400, 401, 403, 500})))"
proof -
  have "only_lost (drains i)" using assms(3) by blast
  then have "meets (A i) (labels_of i tr) (connection_verdict netloc_ok (cs i))"
    using valid_store.app_steps_meets [OF assms(1,4) on_connection_meets [OF assms(2)]] by blast
  then have "app_step so (A i) s' w' \<noteq> None \<or> (\<exists>answer. A i = Done answer \<and> connection_answer netloc_ok (cs i) answer)"
    by (auto simp: app_step_None connection_verdict_def)
  with app_step_wf [of so] show ?thesis by (simp add: next_of_def connection_answer_def)
qed

theorem connections_answered_witness:
  "\<exists>tr A s' w' bs r. app_steps (file_store_ops sample_files)
      (\<lambda>_. on_connection (\<lambda>_. True) sample_app (sample_bytes, Silent) (Some (Exn ConnectionResetError [])))
      sample_sessions sample_disk_world tr A s' w' \<and>
    A 0 = Done (Some bs) \<and> reads_back bs r"
proof -
  let ?so = "file_store_ops sample_files" and ?drain = "Some (Exn ConnectionResetError [])"
  let ?A = "\<lambda>_::nat. on_connection (\<lambda>_. True) sample_app (sample_bytes, Silent) ?drain"
  obtain out s' w' where "app_exec ?so (?A 0) (sample_sessions, sample_disk_world) = (out, s', w')"
    by (cases "app_exec ?so (?A 0) (sample_sessions, sample_disk_world)") auto
  from app_exec_steps [OF this] obtain tr A where
    steps: "app_steps ?so ?A sample_sessions sample_disk_world tr A s' w'" and out: "A 0 = ended out" by blast
  have "app_step ?so (A 0) s' w' = None" unfolding out by (simp add: ended_def split: sum.split)
  moreover have "\<forall>j::nat. only_lost ?drain" by (simp add: only_lost_def)
  ultimately show ?thesis
    using connections_answered [OF files.valid_store_axioms sample_app_valid _ steps, of 0] steps
      read_browser_request [OF sample_sendable]
    unfolding sample_bytes_def by fastforce
qed

section \<open>The program from start to end\<close>

text \<open>
  C24. What the example server does from its command line to its end, whatever fails on the way: it
  listens only with a valid application over a store in a directory that is its owner's alone (modes and
  owners are not checked on Windows), with TLS exactly if a certificate was given; the private directory
  that it makes is removed, as its last act, on every way out, and no other is; once it waits, it also
  closes the server first; and an interrupt does not surface.
\<close>

theorem program_cleans_up:
  assumes "demo_program lib digest depth su args = (steps, out)"
  shows "(\<forall>d. MakeTempDir d \<in> set steps \<longrightarrow>
      (\<exists>before. steps = before @ [RemoveTempDir d] \<and> MakeTempDir d \<in> set before)) \<and>
    (\<forall>d. RemoveTempDir d \<in> set steps \<longrightarrow> MakeTempDir d \<in> set steps \<and> su_mkdtemp su = Inr d) \<and>
    (WaitForStop \<in> set steps \<longrightarrow> (\<exists>before d. steps = before @ [WaitForStop, CloseServer, RemoveTempDir d])) \<and>
    (\<forall>ap st host port tls. Listen ap st host port tls \<in> set steps \<longrightarrow>
      app_valid ap \<and> valid_store (file_store_ops st) \<and> tls = (da_cert args \<noteq> None) \<and>
      (\<exists>d. su_mkdtemp su = Inr d \<and> kept_private su (snd (store_entry su args d)))) \<and>
    out \<noteq> Inl KeyboardInterrupt"
proof -
  obtain o1 where main: "demo_main lib digest depth su args = (steps, o1)" and out: "out \<noteq> Inl KeyboardInterrupt"
    using assms by (auto simp: program_main)
  have pre: "a \<notin> set (tls_steps args)" if "\<forall>c k. a \<noteq> LoadCert c k" for a
    using that tls_steps_only [of a args] by blast
  from main show ?thesis
  proof (cases rule: program_shape)
    case early
    then show ?thesis using out by (simp add: pre)
  next
    case (refused d)
    then show ?thesis using out by (auto simp: pre)
  next
    case (served d st more)
    have only: "MakeTempDir d' \<notin> set more" "RemoveTempDir d' \<notin> set more" "Listen ap st' h p tls \<notin> set more"
      for d' ap st' h p tls using served(5) by auto
    let ?before = "tls_steps args @ MakeTempDir d # OpenStore (fst (store_entry su args d)) #
      Listen (served_app lib depth args) st (da_host args) (da_port args) (da_cert args \<noteq> None) # more"
    have last: "steps = ?before @ [RemoveTempDir d]" using served(3) by simp
    have "\<exists>before d. steps = before @ [WaitForStop, CloseServer, RemoveTempDir d]" if wait: "WaitForStop \<in> set steps"
    proof -
      from wait obtain b where "more = b @ [WaitForStop, CloseServer]" using served(4) last by (auto simp: pre)
      with last have "steps = (tls_steps args @ MakeTempDir d # OpenStore (fst (store_entry su args d)) #
        Listen (served_app lib depth args) st (da_host args) (da_port args) (da_cert args \<noteq> None) # b) @
        [WaitForStop, CloseServer, RemoveTempDir d]" by simp
      then show ?thesis by blast
    qed
    moreover have "\<forall>d'. MakeTempDir d' \<in> set steps \<longrightarrow>
        (\<exists>before. steps = before @ [RemoveTempDir d'] \<and> MakeTempDir d' \<in> set before)"
      using only unfolding last by (auto simp: pre)
    moreover have "\<forall>d'. RemoveTempDir d' \<in> set steps \<longrightarrow> MakeTempDir d' \<in> set steps \<and> su_mkdtemp su = Inr d'"
      using only served(1) unfolding last by (auto simp: pre)
    moreover have "\<forall>ap st' host port tls. Listen ap st' host port tls \<in> set steps \<longrightarrow>
        app_valid ap \<and> valid_store (file_store_ops st') \<and> tls = (da_cert args \<noteq> None) \<and>
        (\<exists>d. su_mkdtemp su = Inr d \<and> kept_private su (snd (store_entry su args d)))"
      using only served(1,2) served_app_valid files.valid_store_axioms unfolding last by (auto simp: pre)
    ultimately show ?thesis using out by blast
  qed
qed

theorem program_cleans_up_witness:
  "\<exists>steps out before. demo_program toy_crypto id 10 sample_surroundings default_args = (steps, out) \<and>
    steps = before @ [WaitForStop, CloseServer, RemoveTempDir (S ''/tmp/dbsc-demo-1'')]"
proof -
  obtain steps out where run: "demo_program toy_crypto id 10 sample_surroundings default_args = (steps, out)"
    and steps: "MakeTempDir (S ''/tmp/dbsc-demo-1'') \<in> set steps" "WaitForStop \<in> set steps"
    using sample_start by blast
  note ends = program_cleans_up [OF run]
  from ends steps(2) obtain before d where b: "steps = before @ [WaitForStop, CloseServer, RemoveTempDir d]" by blast
  moreover obtain b' where b': "steps = b' @ [RemoveTempDir (S ''/tmp/dbsc-demo-1'')]" using ends steps(1) by blast
  have "last steps = RemoveTempDir d" using b by simp
  moreover have "last steps = RemoveTempDir (S ''/tmp/dbsc-demo-1'')" using b' by simp
  ultimately have "d = S ''/tmp/dbsc-demo-1''" by simp
  then show ?thesis using run b by blast
qed

section \<open>The file store of the example\<close>

text \<open>
  C31. The file store refines the in-memory store: every interleaving of requests over the directory is
  one over the in-memory store that the directory stands for, event by event and with the same answers,
  if the in-memory store's clock reads, at some of its readings, the next whole second.
\<close>

theorem file_store_refines_memory:
  assumes "system (file_store_ops st) sv rs w tr Q w'" and "sound_files st"
    and "\<forall>k. storable_time st (w_clock w k)" and "own_files (w_store w)"
    and "\<forall>i. encodable (rc_session_id (request_ctx (rs i)))"
  shows "\<exists>c. (\<forall>k. c k = w_clock w k \<or> c k = of_int \<lceil>w_clock w k\<rceil>) \<and>
    system (mem_store_ops (fs_depth st) (fs_challenge_ttl st) (fs_session_ttl st)) sv rs (as_mem st c w) tr Q
      (as_mem st c w') \<and> own_files (w_store w')"
  using file_system_simulates [OF assms(1,2) _ assms(4)] assms(3,5)
  unfolding rounds_up_def next_second_def mem_ops_of_def by blast

theorem file_store_refines_memory_witness:
  "\<exists>c tr Q w'. system (file_store_ops sample_files) toy_server sample_requests sample_disk_world tr Q w' \<and>
    system (mem_store_ops 10 900 86400) toy_server sample_requests (as_mem sample_files c sample_disk_world) tr Q
      (as_mem sample_files c w')"
proof -
  obtain tr Q w' where run: "system (file_store_ops sample_files) toy_server sample_requests sample_disk_world tr Q w'"
    using sample_files_run by blast
  from file_store_refines_memory [OF run sample_files_sound(1)] sample_disk sample_session_ids run show ?thesis
    by (auto simp: sample_files_def)
qed

text \<open>
  C16. The lock of the file store. However the file accesses of its operations interleave, the writing
  operations that have ended, a commit and a replacement among them, gave the answers and left the
  directory that they give as whole operations in some order; a read that has ended gave the answer
  for the directory it found at one moment, which is one of that order or what the next operation has
  made of it so far, or it never reached a file; and while any operation has not ended, some operation
  can go on.
\<close>

theorem file_writes_serialised:
  assumes "file_steps (\<lambda>i. op_steps st (ops i)) d0 tr P d l"
  shows "\<exists>ser ds. serial st ops d0 ser ds \<and> distinct (map fst ser) \<and> (l = None \<longrightarrow> d = ds) \<and>
    (\<forall>j r. takes_lock (ops j) \<longrightarrow> (P j = Finish r \<longleftrightarrow> (j, r) \<in> set ser)) \<and>
    (\<forall>j r. \<not> takes_lock (ops j) \<longrightarrow> P j = Finish r \<longrightarrow>
      op_steps st (ops j) = Finish r \<or>
      (\<exists>d1 t t'. (j, d1) \<in> set tr \<and> momentary st ops d0 ser l d1 \<and> op_atomic st t t' (ops j) d1 = (r, d1))) \<and>
    (\<forall>j. (\<forall>r. P j \<noteq> Finish r) \<longrightarrow> (\<exists>i. \<forall>t. file_step i (P i) t (d, l) \<noteq> None))"
proof -
  obtain ser ds where inv: "lock_inv st ops d0 tr P d l ser ds" using lock_inv_steps [OF assms] by blast
  then have "serial st ops d0 ser ds" "distinct (map fst ser)" "l = None \<longrightarrow> d = ds"
    by (auto simp: lock_inv_def)
  then show ?thesis
    using writers_in_order [OF inv] reader_found [OF inv] someone_can_step [OF inv]
    by (intro exI [of _ ser] exI [of _ ds]) blast
qed

theorem file_writes_serialised_witness:
  "\<exists>tr P ser. file_steps (\<lambda>i. op_steps sample_files (sample_file_ops i)) sample_records tr P Map.empty None \<and>
    P 1 = Finish (Inr (PendingReply None)) \<and>
    serial sample_files sample_file_ops sample_records ser Map.empty \<and> (0, Inr NoReply) \<in> set ser"
proof -
  obtain tr P where run: "file_steps (\<lambda>i. op_steps sample_files (sample_file_ops i)) sample_records tr P Map.empty None"
    and out: "P 0 = Finish (Inr NoReply)" "P 1 = Finish (Inr (PendingReply None))"
    using sample_lock_run by blast
  from file_writes_serialised [OF run] obtain ser where
    ser: "serial sample_files sample_file_ops sample_records ser Map.empty"
    and writers: "\<forall>j r. takes_lock (sample_file_ops j) \<longrightarrow> (P j = Finish r \<longleftrightarrow> (j, r) \<in> set ser)"
    by blast
  have "takes_lock (sample_file_ops 0)" by (simp add: sample_file_ops_def)
  then have "(0, Inr NoReply) \<in> set ser" using writers out(1) by blast
  then show ?thesis using run out(2) ser by blast
qed

text \<open>
  C32. Over the directory too, a binding that can be read belongs to a key whose holder signed the
  challenge of an offer made to this very session, for the same user.
\<close>

theorem files_hold_proved_keys:
  assumes "system (file_store_ops st) sv rs w tr Q w'" and "sound_files st" and "environment sv rs w"
    and "\<forall>k. storable_time st (w_clock w k) \<and> time_ok \<lceil>w_clock w k\<rceil>"
    and "w_store w = Map.empty" and "\<forall>i. encodable (rc_session_id (request_ctx (rs i)))"
    and "encodable sid" and "get_binding (file_store_ops st) t sid (w_store w') = Inr (Some b)"
  shows "\<exists>i jwt ctx q res k octx.
    rs i = Register jwt ctx \<and> rc_session_id ctx = sid \<and>
    parse_and_verify_registration (sv_lib sv) (sv_depth sv) jwt = Inr res \<and>
    b_public_key_pem b = rr_public_key_pem res \<and> rr_challenge res = p_reg_challenge q \<and>
    same_user (p_user_id q) (rc_user_id ctx) \<and>
    rs k = Offer octx \<and> rc_session_id octx = sid \<and> (k, EPutPending sid q) \<in> set tr"
proof -
  have "proved sv rs tr sid b"
    using files_proved [OF assms(1-3) _ _ assms(5) _ assms(7,8)] assms(4,6) by (simp add: next_second_def)
  then show ?thesis
    unfolding proved_def offered_def answers_def constant_time_equals_eq_Inr by metis
qed

theorem files_hold_proved_keys_witness:
  "\<exists>tr Q w'. system (file_store_ops sample_files) toy_server sample_requests sample_disk_world tr Q w' \<and>
    (\<exists>i jwt ctx res. sample_requests i = Register jwt ctx \<and>
      parse_and_verify_registration (sv_lib toy_server) (sv_depth toy_server) jwt = Inr res \<and>
      b_public_key_pem (sample_binding 0) = rr_public_key_pem res)"
proof -
  obtain tr Q w' where run: "system (file_store_ops sample_files) toy_server sample_requests sample_disk_world tr Q w'"
    and found: "get_binding (file_store_ops sample_files) 1000 (S ''s1'') (w_store w') = Inr (Some (sample_binding 0))"
    using sample_files_run by blast
  from files_hold_proved_keys [OF run sample_files_sound(1) sample_disk(3,4,2) sample_session_ids
      sample_session(2) found] run
  show ?thesis by blast
qed

text \<open>
  C33. What \<open>FileStore._read\<close> does on a record nested too deep: the \<open>RecursionError\<close> of the JSON
  parser is not a \<open>CorruptStateError\<close>, so it leaves the read, and a revocation of the session fails with
  it and removes nothing.
\<close>

theorem deep_record_escapes:
  assumes "file_path st (bind_key (rc_session_id ctx)) = Inr path"
    and "w_store w path = Some (replicate (Suc (fs_depth st)) 91)"
  shows "get_binding (file_store_ops st) t (rc_session_id ctx) (w_store w) =
      Inl (Exn RecursionError (S ''maximum recursion depth exceeded'')) \<and>
    outcome (file_store_ops st) (revoke sv ctx et) w =
      Inl (Exn RecursionError (S ''maximum recursion depth exceeded'')) \<and>
    w_store (after (file_store_ops st) (revoke sv ctx et) w) = w_store w"
proof -
  have "get_binding (file_store_ops st) = file_get_binding st" by (simp add: file_store_ops_def)
  then show ?thesis
    using deep_record [where d = "w_store w", OF assms] deep_record_not_revoked [OF assms] by metis
qed

theorem deep_record_escapes_witness:
  "outcome (file_store_ops sample_files) (revoke toy_server sample_ctx True) deep_world =
    Inl (Exn RecursionError (S ''maximum recursion depth exceeded''))"
  using deep_record_escapes [OF deep_world_record] by blast

section \<open>Components\<close>

text \<open>
  C34. What a browser sends is what the handlers see: a printed request, with its query, its headers and
  its cookies, is read back as it was meant.
\<close>

theorem browser_request_read:
  assumes "sendable verb path qs hs cs"
  shows "read_request netloc_ok (browser_request verb path qs hs cs, e) =
    Inr (Some \<lparr>rq_method = verb, rq_path = path, rq_query = qs,
      rq_headers = lower_names (browser_headers hs cs), rq_cookies = cs\<rparr>)"
  by (rule read_browser_request [OF assms])

theorem browser_request_read_witness:
  "read_request (\<lambda>_. True) (sample_bytes, AtEof) =
    Inr (Some \<lparr>rq_method = S ''GET'', rq_path = S ''/'', rq_query = [(S ''route'', S ''account'')],
      rq_headers = [(S ''host'', S ''example.com''), (S ''sec-fetch-dest'', S ''document''),
        (S ''cookie'', S ''demo_session=s1; __Host-dbsc=ab12'')],
      rq_cookies = [(S ''demo_session'', S ''s1''), (S ''__Host-dbsc'', S ''ab12'')]\<rparr>)"
  using browser_request_read [OF sample_sendable, of "\<lambda>_. True" AtEof]
  by (simp add: sample_bytes_def browser_headers_def lower_names_def cookie_header_def py_lower_def lower_char_def S_def)

text \<open>
  C35. What is printed and stored is read back. A JSON value that Python can print as text it accepts (no
  floats, no duplicate member names, integers within the digit limit) and whose nesting the parser has
  room for is read back from its text unchanged, and the text is printable ASCII on one line. A stored
  record is read back as it was written, and whatever a store hands over instead either yields a record
  with safe values only or is refused as corrupt, with no other failure.
\<close>

theorem stored_text_roundtrip:
  assumes "1 \<le> depth"
  shows "(json_ok j \<and> json_depth j \<le> depth \<longrightarrow>
      json_loads depth (dumps j) = Some j \<and> (\<forall>c \<in> set (dumps j). 32 \<le> c \<and> c < 127)) \<and>
    (binding_storable b \<longrightarrow> binding_from_json depth (binding_to_json b) = Inr b) \<and>
    (pending_storable p \<longrightarrow> pending_from_json depth (pending_to_json p) = Inr p) \<and>
    (case binding_from_json depth raw of Inr c \<Rightarrow> binding_valid c | Inl e \<Rightarrow> exn_cls e = CorruptStateError) \<and>
    (case pending_from_json depth raw of Inr q \<Rightarrow> pending_valid q | Inl e \<Rightarrow> exn_cls e = CorruptStateError)"
proof (intro conjI impI)
  show "\<forall>c \<in> set (dumps j). 32 \<le> c \<and> c < 127" if "json_ok j \<and> json_depth j \<le> depth"
    using that dumps_visible [of j] by (auto simp: list_all_iff visible_def)
qed (use assms loads_dumps [of j depth] binding_from_json_decodes pending_from_json_decodes in
    \<open>auto split: sum.split dest: binding_from_json_valid binding_from_json_corrupt pending_from_json_valid
      pending_from_json_corrupt\<close>)

theorem stored_text_roundtrip_witness:
  "json_loads 3 (dumps (JObj [(S ''a'', JArr [JInt (- 3), JStr [8364, 10]]), (S ''b'', JNull)])) =
    Some (JObj [(S ''a'', JArr [JInt (- 3), JStr [8364, 10]]), (S ''b'', JNull)]) \<and>
   binding_from_json 3 (binding_to_json (sample_binding 0)) = Inr (sample_binding 0)"
proof -
  have "json_ok (JObj [(S ''a'', JArr [JInt (- 3), JStr [8364, 10]]), (S ''b'', JNull)]) \<and>
    json_depth (JObj [(S ''a'', JArr [JInt (- 3), JStr [8364, 10]]), (S ''b'', JNull)]) \<le> 3"
    by (simp add: S_def int_ok_small low_surrogate_def)
  with stored_text_roundtrip [of 3 "JObj [(S ''a'', JArr [JInt (- 3), JStr [8364, 10]]), (S ''b'', JNull)]"
      "sample_binding 0"] sample_storable
  show ?thesis by simp
qed

text \<open>
  C36. The browser download: a run that succeeds returns the path of the pinned browser, has it in place,
  has removed exactly the folders of other versions (no link, no file, no other folder), and needs no
  download when it is repeated; a run that fails has changed no entry but the pinned version's.
\<close>

theorem fetched_browser_kept:
  assumes "fetch umask download cache = (out, cache')" and "distinct (map fst cache)"
  shows "case out of
      Inr path \<Rightarrow> path = CHROME_VERSION # chrome_path \<and> browser_in cache' \<and>
        (\<forall>name. name \<noteq> CHROME_VERSION \<longrightarrow> map_of cache' name =
          (case map_of cache name of
             Some (FolderAt t) \<Rightarrow> if re_fullmatch version_rx name then None else Some (FolderAt t)
           | found \<Rightarrow> found)) \<and>
        (\<forall>umask' download'. fetch umask' download' cache' = (Inr path, cache'))
    | Inl e \<Rightarrow> \<not> browser_in cache \<and> (\<forall>name. name \<noteq> CHROME_VERSION \<longrightarrow> map_of cache' name = map_of cache name)"
  using assms(1)
proof (cases rule: fetch_cases)
  case (fetched cache1)
  have "fetch umask' download' cache' = (Inr (CHROME_VERSION # chrome_path), cache')" for umask' download'
    using fetched by (simp add: fetch_def)
  moreover have "map_of cache' name = (case map_of cache name of
      Some (FolderAt t) \<Rightarrow> if re_fullmatch version_rx name then None else Some (FolderAt t) | found \<Rightarrow> found)"
    if "name \<noteq> CHROME_VERSION" for name
    using fetched that assms(2) by (auto simp: map_of_prune split: option.split cache_entry.split)
  ultimately show ?thesis using fetched by simp
qed simp

theorem fetched_browser_kept_witness:
  "\<exists>cache'. fetch 18 (Inl FetchOSError) sample_cache = (Inr (CHROME_VERSION # chrome_path), cache') \<and>
    browser_in cache' \<and> map_of cache' (S ''148.0.1.2'') = None \<and>
    map_of cache' (S ''148.0.1.3'') = Some (LinkToFolder Map.empty)"
proof -
  obtain cache' where run: "fetch 18 (Inl FetchOSError) sample_cache = (Inr (CHROME_VERSION # chrome_path), cache')"
    using sample_cache_names(4) by (simp add: fetch_def)
  have "S ''148.0.1.3'' \<noteq> CHROME_VERSION" by (simp add: CHROME_VERSION_def)
  with fetched_browser_kept [OF run sample_cache_names(1)] sample_cache_names(2) run show ?thesis
    by (auto simp: sample_cache_def)
qed

text \<open>
  C37. What an accepted registration token says: three parts of at most 8192 characters, a header and
  a payload that are JSON objects without duplicate names, the algorithm ES256 and no critical
  extensions, a P-256 key in the header, the signature of the first two parts under exactly that key,
  and a challenge that is not empty.
\<close>

theorem registration_token_sound:
  assumes "parse_and_verify_registration lib depth jwt = Inr res"
  shows "\<exists>h p s header payload jwk.
    jwt = h @ [46] @ p @ [46] @ s \<and> length jwt \<le> 8192 \<and>
    loads_object_bytes depth (b64url_decode h) = Some header \<and> distinct (map fst header) \<and>
    loads_object_bytes depth (b64url_decode p) = Some payload \<and> distinct (map fst payload) \<and>
    map_of header (S ''alg'') = Some (JStr (S ''ES256'')) \<and> map_of header (S ''crit'') = None \<and>
    map_of header (S ''jwk'') = Some (JObj jwk) \<and> jwk_to_pem lib jwk = Inr (rr_public_key_pem res) \<and>
    map_of jwk (S ''kty'') = Some (JStr (S ''EC'')) \<and> map_of jwk (S ''crv'') = Some (JStr (S ''P-256'')) \<and>
    signed_by lib (h @ [46] @ p) (b64url_decode s) (rr_public_key_pem res) \<and>
    map_of payload (S ''jti'') = Some (JStr (rr_challenge res)) \<and> rr_challenge res \<noteq> []"
proof -
  obtain q where "parse depth jwt = Inr q" and checks: "verify_registration_jwt lib q = Inr res"
    using assms by (auto simp: parse_and_verify_registration_def bind_res_eq_Inr)
  then obtain h p s where q: "jwt = h @ [46] @ p @ [46] @ s" "length jwt \<le> 8192"
    "loads_object_bytes depth (b64url_decode h) = Some (pj_header q)"
    "loads_object_bytes depth (b64url_decode p) = Some (pj_payload q)"
    "pj_signing_input q = h @ [46] @ p" "pj_signature q = b64url_decode s"
    using parsed_parts by blast
  obtain jwk where "get_member (pj_header q) ''jwk'' = JObj jwk"
    and jwk: "jwk_to_pem lib jwk = Inr (rr_public_key_pem res)"
    using checks by (auto simp: verify_registration_jwt_eq_Inr)
  then have "map_of (pj_header q) (S ''jwk'') = Some (JObj jwk)" by (simp add: get_member_present)
  moreover have "map_of jwk (S ''kty'') = Some (JStr (S ''EC''))" "map_of jwk (S ''crv'') = Some (JStr (S ''P-256''))"
    using jwk by (auto simp: jwk_to_pem_def get_member_present split: if_splits)
  moreover have "map_of (pj_header q) (S ''alg'') = Some (JStr (S ''ES256''))" "map_of (pj_header q) (S ''crit'') = None"
    "signed_by lib (h @ [46] @ p) (b64url_decode s) (rr_public_key_pem res)"
    "map_of (pj_payload q) (S ''jti'') = Some (JStr (rr_challenge res))" "rr_challenge res \<noteq> []"
    using checks q(5,6) by (auto simp: verify_registration_jwt_eq_Inr get_member_present)
  moreover note q(1,2) jwk q(3) object_bytes_distinct [OF q(3)] q(4) object_bytes_distinct [OF q(4)]
  ultimately show ?thesis by blast
qed

theorem registration_token_sound_witness:
  "\<exists>h p s. toy_registration (S ''c'') = h @ [46] @ p @ [46] @ s \<and>
    signed_by toy_crypto (h @ [46] @ p) (b64url_decode s) (S ''PEM'')"
proof -
  have "str_ok (S ''c'')" by (simp add: S_def)
  then have "parse_and_verify_registration toy_crypto 10 (toy_registration (S ''c'')) =
      Inr \<lparr>rr_public_key_pem = S ''PEM'', rr_algorithm = S ''ES256'', rr_challenge = S ''c''\<rparr>"
    by (rule toy_registration_verifies) simp_all
  from registration_token_sound [OF this] show ?thesis by auto
qed

text \<open>
  C38. Whatever bytes arrive as a token, verifying it raises nothing but \<open>JwtInvalidError\<close>, and a
  refresh token is accepted exactly when it parses, names ES256 and no critical extension, verifies
  under the stored key and carries a challenge.
\<close>

theorem tokens_fail_closed:
  "(case parse_and_verify_registration lib depth jwt of
      Inl e \<Rightarrow> exn_cls e = JwtInvalidError
    | Inr res \<Rightarrow> rr_algorithm res = S ''ES256'') \<and>
   (case parse_and_verify_refresh lib depth jwt pem of
      Inl e \<Rightarrow> exn_cls e = JwtInvalidError
    | Inr jti \<Rightarrow> \<exists>q. parse depth jwt = Inr q \<and>
        get_member (pj_header q) ''alg'' = JStr (S ''ES256'') \<and> map_of (pj_header q) (S ''crit'') = None \<and>
        signed_by lib (pj_signing_input q) (pj_signature q) pem \<and>
        get_member (pj_payload q) ''jti'' = JStr jti \<and> jti \<noteq> [])"
proof (rule conjI)
  show "case parse_and_verify_registration lib depth jwt of Inl e \<Rightarrow> exn_cls e = JwtInvalidError
    | Inr res \<Rightarrow> rr_algorithm res = S ''ES256''"
  proof (cases "parse_and_verify_registration lib depth jwt")
    case (Inl e)
    then show ?thesis using registration_errors by simp
  next
    case (Inr res)
    then have "rr_algorithm res = S ''ES256''"
      by (auto simp: parse_and_verify_registration_def bind_res_eq_Inr verify_registration_jwt_eq_Inr)
    with Inr show ?thesis by simp
  qed
  show "case parse_and_verify_refresh lib depth jwt pem of Inl e \<Rightarrow> exn_cls e = JwtInvalidError
    | Inr jti \<Rightarrow> \<exists>q. parse depth jwt = Inr q \<and>
        get_member (pj_header q) ''alg'' = JStr (S ''ES256'') \<and> map_of (pj_header q) (S ''crit'') = None \<and>
        signed_by lib (pj_signing_input q) (pj_signature q) pem \<and>
        get_member (pj_payload q) ''jti'' = JStr jti \<and> jti \<noteq> []"
  proof (cases "parse_and_verify_refresh lib depth jwt pem")
    case (Inl e)
    then show ?thesis using refresh_errors by simp
  next
    case (Inr jti)
    then obtain q where "parse depth jwt = Inr q" "verify_refresh_jwt lib q pem = Inr jti"
      by (auto simp: parse_and_verify_refresh_def bind_res_eq_Inr)
    with Inr show ?thesis by (auto simp: verify_refresh_jwt_eq_Inr)
  qed
qed

text \<open>
  C39. The constructor of the configuration accepts exactly what its documentation says, and keeps it:
  the chain of regular expressions and comparisons is equivalent to a grammar of cookie names, paths and
  host patterns with bounds on the lifetimes; only the host patterns are changed, to their stripped
  forms without the empty ones.
\<close>

theorem config_accepted_iff:
  "Config c = Inr d \<longleftrightarrow>
    (\<exists>t. cfg_cookie_name c = S ''__Host-'' @ t \<and> t \<noteq> [] \<and> list_all cookie_name_char t) \<and>
    (\<exists>t. cfg_register_path c = 47 # t \<and> (t = [] \<or> hd t \<noteq> 47) \<and> list_all path_char t) \<and>
    (\<exists>t. cfg_refresh_path c = 47 # t \<and> (t = [] \<or> hd t \<noteq> 47) \<and> list_all path_char t) \<and>
    cfg_cookie_same_site c \<in> {S ''Lax'', S ''None'', S ''Strict''} \<and>
    1 \<le> cfg_cookie_max_age_seconds c \<and> cfg_cookie_max_age_seconds c \<le> 3600 \<and>
    cfg_cookie_max_age_seconds c < cfg_challenge_ttl_seconds c \<and> cfg_challenge_ttl_seconds c \<le> 86400 \<and>
    0 \<le> cfg_registration_grace_seconds c \<and> cfg_registration_grace_seconds c \<le> 60 \<and>
    d = c\<lparr>cfg_allowed_refresh_initiators := filter (\<lambda>h. h \<noteq> []) (map py_strip (cfg_allowed_refresh_initiators c))\<rparr> \<and>
    list_all (\<lambda>h. \<exists>w ls p. h = w @ py_join 46 ls @ p \<and> w \<in> {[], S ''*.''} \<and> ls \<noteq> [] \<and>
        list_all host_label ls \<and> port_suffix p)
      (cfg_allowed_refresh_initiators d)"
proof -
  have host: "is_host_pattern h \<longleftrightarrow> (\<exists>w ls p. h = w @ py_join 46 ls @ p \<and> w \<in> {[], S ''*.''} \<and> ls \<noteq> [] \<and>
      list_all host_label ls \<and> port_suffix p)" for h
    unfolding is_host_pattern_iff dotted_labels_def by blast
  have same_site: "v \<in> set SAME_SITE_VALUES \<longleftrightarrow> v \<in> {S ''Lax'', S ''None'', S ''Strict''}" for v
    by (auto simp: SAME_SITE_VALUES_def)
  show ?thesis
    unfolding is_cookie_name_iff [symmetric] is_path_iff [symmetric] host [symmetric] same_site [symmetric]
    by (auto simp: Config_def bind_res_eq_Inr host_patterns_eq_Inr MAX_COOKIE_MAX_AGE_SECONDS_def
        MAX_CHALLENGE_TTL_SECONDS_def MAX_REGISTRATION_GRACE_SECONDS_def)
qed

theorem config_accepted_iff_witness:
  "Config (config_defaults\<lparr>cfg_allowed_refresh_initiators := [S '' *.example.com '', []]\<rparr>) =
    Inr (config_defaults\<lparr>cfg_allowed_refresh_initiators := [S ''*.example.com'']\<rparr>)"
proof (rule iffD2 [OF config_accepted_iff], intro conjI)
  let ?c = "config_defaults\<lparr>cfg_allowed_refresh_initiators := [S '' *.example.com '', []]\<rparr>"
  note chars = S_def cookie_name_char_def path_char_def label_char_def alnum_cls_def in_range_def one_of_def
  show "\<exists>t. cfg_cookie_name ?c = S ''__Host-'' @ t \<and> t \<noteq> [] \<and> list_all cookie_name_char t"
    by (rule exI [of _ "S ''dbsc''"]) (simp add: config_defaults_def chars)
  show "\<exists>t. cfg_register_path ?c = 47 # t \<and> (t = [] \<or> hd t \<noteq> 47) \<and> list_all path_char t"
    by (rule exI [of _ "S ''dbsc/register''"]) (simp add: config_defaults_def chars)
  show "\<exists>t. cfg_refresh_path ?c = 47 # t \<and> (t = [] \<or> hd t \<noteq> 47) \<and> list_all path_char t"
    by (rule exI [of _ "S ''dbsc/refresh''"]) (simp add: config_defaults_def chars)
  have hosts: "filter (\<lambda>h. h \<noteq> []) (map py_strip [S '' *.example.com '', []]) = [S ''*.example.com'']"
    by (simp add: S_def py_strip_def strip_by_def py_isspace_def)
  show "config_defaults\<lparr>cfg_allowed_refresh_initiators := [S ''*.example.com'']\<rparr> =
      ?c\<lparr>cfg_allowed_refresh_initiators := filter (\<lambda>h. h \<noteq> []) (map py_strip (cfg_allowed_refresh_initiators ?c))\<rparr>"
    using hosts by simp
  have host: "\<exists>w ls p. S ''*.example.com'' = w @ py_join 46 ls @ p \<and> w \<in> {[], S ''*.''} \<and> ls \<noteq> [] \<and>
      list_all host_label ls \<and> port_suffix p"
    by (rule exI [of _ "S ''*.''"], rule exI [of _ "[S ''example'', S ''com'']"], rule exI [of _ "[]"])
      (simp add: port_suffix_def host_label_def chars)
  have initiators: "cfg_allowed_refresh_initiators (config_defaults\<lparr>cfg_allowed_refresh_initiators := [S ''*.example.com'']\<rparr>) =
      [S ''*.example.com'']" by simp
  show "list_all (\<lambda>h. \<exists>w ls p. h = w @ py_join 46 ls @ p \<and> w \<in> {[], S ''*.''} \<and> ls \<noteq> [] \<and>
        list_all host_label ls \<and> port_suffix p)
      (cfg_allowed_refresh_initiators (config_defaults\<lparr>cfg_allowed_refresh_initiators := [S ''*.example.com'']\<rparr>))"
    by (simp only: initiators list.pred_inject host simp_thms)
qed (simp_all add: config_defaults_def)

text \<open>
  C40. A registration can fail with an exception that is not one of the library's: with a live offer for
  the user, a token that verifies but whose challenge holds a lone surrogate makes it raise
  \<open>UnicodeEncodeError\<close>, and the failure is not audited.
\<close>

theorem register_stray_exception:
  assumes "get_pending_registration so (reading w 0) (rc_session_id ctx) (w_store w) = Inr (Some q)"
    and "same_user (p_user_id q) (rc_user_id ctx)"
    and "tick w 1 - p_reg_challenge_time q \<le> cfg_challenge_ttl_seconds (sv_config sv)"
    and "parse_and_verify_registration (sv_lib sv) (sv_depth sv) jwt = Inr res"
    and "55296 \<in> set (rr_challenge res)"
  shows "\<exists>e. outcome so (register sv jwt ctx) w = Inl e \<and> exn_cls e = UnicodeEncodeError \<and>
    \<not> isinstance e DbscError \<and> w_audit (after so (register sv jwt ctx) w) = w_audit w"
proof -
  have "\<not> encodable (rr_challenge res)"
    using assms(5) by (auto simp: encodable_def is_surrogate_def list_ex_iff)
  then show ?thesis
    using assms(1-4) by (simp add: outcome_def after_def register_def constant_time_equals_iff isinstance_def
        del: One_nat_def)
qed

theorem register_stray_exception_witness:
  "\<exists>e. outcome sample_ops (register toy_server (toy_registration [55296]) sample_ctx) (sample_state 1) = Inl e \<and>
    \<not> isinstance e DbscError"
proof -
  have "str_ok [55296 :: nat]" by simp
  then have "parse_and_verify_registration (sv_lib toy_server) (sv_depth toy_server) (toy_registration [55296]) =
      Inr \<lparr>rr_public_key_pem = S ''PEM'', rr_algorithm = S ''ES256'', rr_challenge = [55296]\<rparr>"
    by (simp add: toy_server_def toy_registration_verifies)
  note token = this
  have "same_user (p_user_id (sample_offer 0)) (rc_user_id sample_ctx)"
    "tick (sample_state 1) 1 - p_reg_challenge_time (sample_offer 0) \<le> cfg_challenge_ttl_seconds (sv_config toy_server)"
    unfolding sample_tick by (simp_all add: sample_offer_def new_offer_def toy_server_def config_defaults_def)
  from register_stray_exception [OF sample_pending this token] show ?thesis
    by (simp del: sample_state.simps One_nat_def) blast
qed

end
